(* ===== verification/Prelude.thy ===== *)
theory Prelude
  imports Main "HOL-Library.Word"
begin

text \<open>
  Shared ground of the development: the C integer types as words, byte strings, the
  three-way result of a C function that may read or write outside its buffers, the
  Hoare-style predicate the component proofs use, and NUL-terminated strings.
\<close>

unbundle bit_operations_syntax

section \<open>C integers and bytes\<close>

type_synonym u8 = "8 word"
type_synonym u16 = "16 word"
type_synonym u32 = "32 word"
type_synonym u64 = "64 word"
type_synonym i64 = "64 word"
type_synonym bytes = "8 word list"

text \<open>
  A \<^verbatim>\<open>size_t\<close> is a \<^typ>\<open>nat\<close>. Its subtraction wraps around at \<open>2 ^ 64\<close>, which is
  written out here because the code subtracts unsigned lengths without a guard.
\<close>

definition size_sub :: "nat \<Rightarrow> nat \<Rightarrow> nat" where
  "size_sub a b = (if b \<le> a then a - b else 2 ^ 64 + a - b)"

lemma unat_ucast_u8: "unat (ucast (w :: 'a::len word) :: u8) = unat w mod 256"
  by (simp add: unsigned_ucast_eq take_bit_eq_mod)

lemma unat_ucast_u16: "unat (ucast (w :: 'a::len word) :: u16) = unat w mod 65536"
  by (simp add: unsigned_ucast_eq take_bit_eq_mod)

lemma unat_ucast_u32: "unat (ucast (w :: 'a::len word) :: u32) = unat w mod 4294967296"
  by (simp add: unsigned_ucast_eq take_bit_eq_mod)

lemma unat_ucast_u64: "unat (ucast (w :: 'a::len word) :: u64) = unat w mod 18446744073709551616"
  by (simp add: unsigned_ucast_eq take_bit_eq_mod)

text \<open>The bytes of a C string literal.\<close>

definition lit :: "string \<Rightarrow> bytes" where
  "lit s = map of_char s"

text \<open>Evaluation of character constants goes through integers, which the simplifier computes fast.\<close>

lemma of_char_byte [code_unfold]: "(of_char :: char \<Rightarrow> u8) = (\<lambda>c. word_of_int (of_char c))"
proof
  show "of_char c = (word_of_int (of_char c) :: u8)" for c
    by (cases c) simp
qed

section \<open>Results of C functions\<close>

text \<open>
  \<open>Ok x\<close>: the function returns 0 and leaves \<open>x\<close> in its output parameters. \<open>Bad\<close>: it
  returns -1. \<open>UB\<close>: it reads past the end of a buffer or writes outside one, which C
  leaves undefined. A theorem that a definition never yields \<open>UB\<close> is memory safety of
  the code it models.
\<close>

datatype 'a cres = Ok 'a | Bad | UB

fun bnd :: "'a cres \<Rightarrow> ('a \<Rightarrow> 'b cres) \<Rightarrow> 'b cres" where
  "bnd (Ok x) f = f x"
| "bnd Bad f = Bad"
| "bnd UB f = UB"

lemma bnd_cong [fundef_cong]:
  "m = m' \<Longrightarrow> (\<And>x. m' = Ok x \<Longrightarrow> f x = g x) \<Longrightarrow> bnd m f = bnd m' g"
  by (cases m') auto

lemma bnd_eq_Ok [simp]: "bnd m f = Ok y \<longleftrightarrow> (\<exists>x. m = Ok x \<and> f x = Ok y)"
  by (cases m) auto

lemma bnd_eq_UB: "bnd m f = UB \<longleftrightarrow> m = UB \<or> (\<exists>x. m = Ok x \<and> f x = UB)"
  by (cases m) auto

lemma bnd_assoc: "bnd (bnd m f) g = bnd m (\<lambda>x. bnd (f x) g)"
  by (cases m) auto

text \<open>
  \<open>sat m Q\<close>: running \<open>m\<close> has no undefined behaviour, and if it returns a value, the
  value satisfies \<open>Q\<close>.
\<close>

fun sat :: "'a cres \<Rightarrow> ('a \<Rightarrow> bool) \<Rightarrow> bool" where
  "sat (Ok x) Q = Q x"
| "sat Bad Q = True"
| "sat UB Q = False"

lemma sat_bnd [simp]: "sat (bnd m f) Q = sat m (\<lambda>x. sat (f x) Q)"
  by (cases m) auto

lemma sat_mono: "sat m P \<Longrightarrow> (\<And>x. m = Ok x \<Longrightarrow> P x \<Longrightarrow> Q x) \<Longrightarrow> sat m Q"
  by (cases m) auto

lemma sat_seq: "sat m P \<Longrightarrow> (\<And>x. m = Ok x \<Longrightarrow> P x \<Longrightarrow> sat (f x) Q) \<Longrightarrow> sat (bnd m f) Q"
  by (cases m) auto

lemma sat_if: "(b \<Longrightarrow> sat m Q) \<Longrightarrow> (\<not> b \<Longrightarrow> sat n Q) \<Longrightarrow> sat (if b then m else n) Q"
  by simp

lemma sat_iff: "sat m Q \<longleftrightarrow> m \<noteq> UB \<and> (\<forall>x. m = Ok x \<longrightarrow> Q x)"
  by (cases m) auto

lemma sat_not_UB: "sat m Q \<Longrightarrow> m \<noteq> UB"
  by (cases m) auto

lemma sat_OkD: "sat m Q \<Longrightarrow> m = Ok x \<Longrightarrow> Q x"
  by simp

section \<open>Buffers and NUL-terminated strings\<close>

text \<open>
  A \<^verbatim>\<open>const char *\<close> cursor is the list of bytes from the cursor to the end of its
  buffer, the terminating NUL included. Reading \<open>p[i]\<close> outside that list is undefined.
\<close>

type_synonym cur = "8 word list"

definition rd :: "cur \<Rightarrow> nat \<Rightarrow> u8 cres" where
  "rd p i = (if i < length p then Ok (p ! i) else UB)"

fun cstr :: "cur \<Rightarrow> bool" where
  "cstr [] = False"
| "cstr (c # p) = (if c = 0 then p = [] else cstr p)"

lemma rd_Cons_0 [simp]: "rd (c # p) 0 = Ok c"
  by (simp add: rd_def)

lemma rd_Cons_Suc [simp]: "rd (c # p) (Suc i) = rd p i"
  by (simp add: rd_def)

lemma rd_Cons_1 [simp]: "rd (c # p) 1 = rd p 0"
  by (simp add: rd_def)

lemma rd_Cons_numeral [simp]: "rd (c # p) (numeral n) = rd p (pred_numeral n)"
  by (simp add: numeral_eq_Suc)

lemma rd_Nil [simp]: "rd [] i = UB"
  by (simp add: rd_def)

lemma rd_eq_Ok: "rd p i = Ok c \<longleftrightarrow> i < length p \<and> p ! i = c"
  by (auto simp: rd_def)

lemma rd_0_eq_Ok: "rd p 0 = Ok c \<longleftrightarrow> (\<exists>q. p = c # q)"
  by (cases p) auto

lemma cstr_iff: "cstr p \<longleftrightarrow> (\<exists>s. p = s @ [0] \<and> 0 \<notin> set s)"
proof (induction p)
  case Nil
  then show ?case by simp
next
  case (Cons c p)
  show ?case
  proof (cases "c = 0")
    case True
    show ?thesis
    proof
      assume "cstr (c # p)"
      with True show "\<exists>s. c # p = s @ [0] \<and> 0 \<notin> set s" by (intro exI [of _ "[]"]) simp
    next
      assume "\<exists>s. c # p = s @ [0] \<and> 0 \<notin> set s"
      with True show "cstr (c # p)" by (auto simp: Cons_eq_append_conv)
    qed
  next
    case False
    with Cons.IH show ?thesis
      by (auto simp: Cons_eq_append_conv)
  qed
qed

lemma cstr_append_NUL [simp]: "0 \<notin> set s \<Longrightarrow> cstr (s @ [0])"
  by (auto simp: cstr_iff)

lemma cstr_Cons_nonzero [simp]: "c \<noteq> 0 \<Longrightarrow> cstr (c # p) = cstr p"
  by simp

lemma cstr_neq_Nil: "cstr p \<Longrightarrow> p \<noteq> []"
  by auto

lemma sat_rd0: "cstr p \<Longrightarrow> sat (rd p 0) (\<lambda>c. c \<noteq> 0 \<longrightarrow> cstr (drop (Suc 0) p))"
  by (cases p) auto

lemma sat_rd_0: "cstr p \<Longrightarrow> (\<And>c q. p = c # q \<Longrightarrow> Q c) \<Longrightarrow> sat (rd p 0) Q"
  by (cases p) auto

fun strlen :: "cur \<Rightarrow> nat cres" where
  "strlen [] = UB"
| "strlen (c # p) = (if c = 0 then Ok 0 else bnd (strlen p) (\<lambda>n. Ok (Suc n)))"

lemma strlen_line: "strlen (line @ 0 # rest) = Ok (length (takeWhile (\<lambda>c. c \<noteq> 0) line))"
  by (induction line) auto

lemma sat_strlen: "cstr p \<Longrightarrow> sat (strlen p) (\<lambda>n. length p = Suc n)"
  by (induction p) (auto intro: sat_mono)

section \<open>Decimal text\<close>

text \<open>The canonical decimal of a number, as \<^verbatim>\<open>%llu\<close> prints it, and \<^verbatim>\<open>%ld\<close> of an integer.\<close>

fun dec :: "nat \<Rightarrow> bytes" where
  "dec n = (if n < 10 then [48 + of_nat n] else dec (n div 10) @ [48 + of_nat (n mod 10)])"

declare dec.simps [simp del]

definition dec_int :: "int \<Rightarrow> bytes" where
  "dec_int i = (if i < 0 then of_char (CHR ''-'') # dec (nat (- i)) else dec (nat i))"

lemma length_dec: "n < 10 ^ k \<Longrightarrow> 0 < k \<Longrightarrow> length (dec n) \<le> k"
proof (induction n arbitrary: k rule: dec.induct)
  case (1 n)
  show ?case
  proof (cases "n < 10")
    case True
    then show ?thesis using 1 by (simp add: dec.simps [of n])
  next
    case False
    with 1 obtain j where k: "k = Suc j" "0 < j" by (cases k; cases "k = 1") auto
    with 1 False have "n div 10 < 10 ^ j" by (simp add: less_mult_imp_div_less mult.commute)
    from "1.IH" [OF False this k(2)] k False show ?thesis by (simp add: dec.simps [of n])
  qed
qed

end
