(* ===== verification/Json.thy ===== *)
theory Json
  imports Prelude
begin

text \<open>
  The JSON primitives of \<^verbatim>\<open>guest/minimal-initrd/request.c\<close>: white space, string
  literals with their escapes and UTF-8 checks, unsigned and signed 64-bit numbers,
  booleans, and the iterative validator that skips one value of any type.

  A parser takes the cursor and returns the value it stores with the new cursor. An
  output buffer of \<open>cap\<close> bytes is the list of bytes stored so far: every store checks
  its index against \<open>cap\<close> and is \<open>UB\<close> outside. A signed \<^verbatim>\<open>char\<close> compares with the ASCII
  digits, letters and punctuation exactly as the unsigned byte does, so the model holds
  for both signednesses.
\<close>

section \<open>Definitions\<close>

subsection \<open>Tokens\<close>

fun skip_ws :: "cur \<Rightarrow> cur cres" where
  "skip_ws [] = UB"
| "skip_ws (c # p) =
     (if c = of_char CHR '' '' \<or> c = 9 \<or> c = 13 \<or> c = 10 then skip_ws p else Ok (c # p))"

definition json_token_finished :: "u8 \<Rightarrow> bool" where
  "json_token_finished c \<longleftrightarrow>
     c = 0 \<or> c = of_char CHR '','' \<or> c = of_char CHR ''}'' \<or> c = of_char CHR '']'' \<or>
     c = of_char CHR '' '' \<or> c = 10 \<or> c = 13 \<or> c = 9"

text \<open>\<^verbatim>\<open>strncmp(p, literal, strlen(literal)) == 0\<close>: stops at the first difference.\<close>

fun strncmp_eq :: "bytes \<Rightarrow> cur \<Rightarrow> bool cres" where
  "strncmp_eq [] p = Ok True"
| "strncmp_eq (c # s) [] = UB"
| "strncmp_eq (c # s) (d # p) = (if c = d then strncmp_eq s p else Ok False)"

definition is_digit :: "u8 \<Rightarrow> bool" where
  "is_digit c \<longleftrightarrow> of_char CHR ''0'' \<le> c \<and> c \<le> of_char CHR ''9''"

subsection \<open>Strings\<close>

definition hex_digit :: "u8 \<Rightarrow> u32 option" where
  "hex_digit c =
     (if of_char CHR ''0'' \<le> c \<and> c \<le> of_char CHR ''9'' then Some (ucast c - 48)
      else if of_char CHR ''a'' \<le> c \<and> c \<le> of_char CHR ''f'' then Some (ucast c - 97 + 10)
      else if of_char CHR ''A'' \<le> c \<and> c \<le> of_char CHR ''F'' then Some (ucast c - 65 + 10)
      else None)"

fun hex_loop :: "nat \<Rightarrow> u32 \<Rightarrow> cur \<Rightarrow> u32 cres" where
  "hex_loop 0 value p = Ok value"
| "hex_loop (Suc n) value [] = UB"
| "hex_loop (Suc n) value (c # p) =
     (case hex_digit c of
        None \<Rightarrow> Bad
      | Some digit \<Rightarrow> hex_loop n (push_bit 4 value OR digit) p)"

definition json_hex_quad :: "cur \<Rightarrow> u32 cres" where
  "json_hex_quad p = hex_loop 4 0 p"

definition utf8_encode :: "u32 \<Rightarrow> bytes" where
  "utf8_encode cp =
     (if cp \<le> 0x7f then [ucast cp]
      else if cp \<le> 0x7ff then
        [ucast (0xc0 OR drop_bit 6 cp), ucast (0x80 OR (cp AND 0x3f))]
      else if cp \<le> 0xffff then
        [ucast (0xe0 OR drop_bit 12 cp), ucast (0x80 OR (drop_bit 6 cp AND 0x3f)),
         ucast (0x80 OR (cp AND 0x3f))]
      else
        [ucast (0xf0 OR drop_bit 18 cp), ucast (0x80 OR (drop_bit 12 cp AND 0x3f)),
         ucast (0x80 OR (drop_bit 6 cp AND 0x3f)), ucast (0x80 OR (cp AND 0x3f))])"

text \<open>Storing a run of bytes at index \<open>length out\<close> of a buffer of \<open>cap\<close> bytes.\<close>

definition store :: "nat \<Rightarrow> bytes \<Rightarrow> bytes \<Rightarrow> bytes cres" where
  "store cap out bs = (if length out + length bs \<le> cap then Ok (out @ bs) else UB)"

definition append_json_codepoint :: "nat \<Rightarrow> bytes \<Rightarrow> u32 \<Rightarrow> bytes cres" where
  "append_json_codepoint cap out codepoint =
     (if codepoint = 0 \<or> codepoint > 0x10ffff \<or> (codepoint \<ge> 0xd800 \<and> codepoint \<le> 0xdfff) then Bad
      else if length (utf8_encode codepoint) \<ge> size_sub cap (length out) then Bad
      else store cap out (utf8_encode codepoint))"

definition raw_utf8_sequence_len :: "cur \<Rightarrow> nat cres" where
  "raw_utf8_sequence_len p =
     bnd (rd p 0) (\<lambda>c.
     if c \<ge> 0xc2 \<and> c \<le> 0xdf then
       bnd (rd p 1) (\<lambda>c1. if c1 \<ge> 0x80 \<and> c1 \<le> 0xbf then Ok 2 else Bad)
     else if c \<ge> 0xe0 \<and> c \<le> 0xef then
       bnd (rd p 1) (\<lambda>c1. if c1 = 0 then Bad else
       bnd (rd p 2) (\<lambda>c2. if c2 < 0x80 \<or> c2 > 0xbf then Bad
         else if c = 0xe0 then (if c1 \<ge> 0xa0 \<and> c1 \<le> 0xbf then Ok 3 else Bad)
         else if c = 0xed then (if c1 \<ge> 0x80 \<and> c1 \<le> 0x9f then Ok 3 else Bad)
         else (if c1 \<ge> 0x80 \<and> c1 \<le> 0xbf then Ok 3 else Bad)))
     else if c \<ge> 0xf0 \<and> c \<le> 0xf4 then
       bnd (rd p 1) (\<lambda>c1. if c1 = 0 then Bad else
       bnd (rd p 2) (\<lambda>c2. if c2 = 0 then Bad else
       bnd (rd p 3) (\<lambda>c3. if c2 < 0x80 \<or> c2 > 0xbf \<or> c3 < 0x80 \<or> c3 > 0xbf then Bad
         else if c = 0xf0 then (if c1 \<ge> 0x90 \<and> c1 \<le> 0xbf then Ok 4 else Bad)
         else if c = 0xf4 then (if c1 \<ge> 0x80 \<and> c1 \<le> 0x8f then Ok 4 else Bad)
         else (if c1 \<ge> 0x80 \<and> c1 \<le> 0xbf then Ok 4 else Bad))))
     else Bad)"

text \<open>The one-character escapes; \<open>u\<close> is handled apart.\<close>

definition simple_escape :: "u8 \<Rightarrow> u8 option" where
  "simple_escape c =
     (if c = of_char CHR ''\"'' \<or> c = 0x5c \<or> c = of_char CHR ''/'' then Some c
      else if c = of_char CHR ''b'' then Some 8
      else if c = of_char CHR ''f'' then Some 12
      else if c = of_char CHR ''n'' then Some 10
      else if c = of_char CHR ''r'' then Some 13
      else if c = of_char CHR ''t'' then Some 9
      else None)"

text \<open>
  The code point of a \<^verbatim>\<open>\u\<close> escape and how many bytes after the \<open>u\<close> it takes: 4, or 10
  for a surrogate pair.
\<close>

definition low_surrogate :: "cur \<Rightarrow> u32 cres" where
  "low_surrogate p =
     bnd (rd p 0) (\<lambda>c. if c \<noteq> 0x5c then Bad else
     bnd (rd p 1) (\<lambda>d. if d \<noteq> of_char CHR ''u'' then Bad else
     bnd (json_hex_quad (drop 2 p)) (\<lambda>low.
     if low < 0xdc00 \<or> low > 0xdfff then Bad else Ok low)))"

definition unicode_escape :: "cur \<Rightarrow> (u32 \<times> nat) cres" where
  "unicode_escape p =
     bnd (json_hex_quad p) (\<lambda>codepoint.
     if codepoint \<ge> 0xd800 \<and> codepoint \<le> 0xdbff then
       bnd (low_surrogate (drop 4 p)) (\<lambda>low.
       Ok (0x10000 + push_bit 10 (codepoint - 0xd800) + (low - 0xdc00), 10))
     else if codepoint \<ge> 0xdc00 \<and> codepoint \<le> 0xdfff then Bad
     else Ok (codepoint, 4))"

function json_string_loop :: "nat \<Rightarrow> bytes \<Rightarrow> cur \<Rightarrow> (bytes \<times> cur) cres" where
  "json_string_loop cap out [] = UB"
| "json_string_loop cap out (c # p) =
     (if c = 0 then Bad
      else if c = of_char CHR ''\"'' then
        bnd (store cap out [0]) (\<lambda>_. Ok (out, p))
      else if c = 0x5c then
        (case p of
           [] \<Rightarrow> UB
         | e # q \<Rightarrow>
             if e = of_char CHR ''u'' then
               bnd (unicode_escape q) (\<lambda>(codepoint, n).
               bnd (append_json_codepoint cap out codepoint) (\<lambda>out'.
               json_string_loop cap out' (drop n q)))
             else
               (case simple_escape e of
                  None \<Rightarrow> Bad
                | Some b \<Rightarrow>
                    if length out + 1 \<ge> cap then Bad
                    else bnd (store cap out [b]) (\<lambda>out'. json_string_loop cap out' q)))
      else if c < 0x20 then Bad
      else if c \<ge> 0x80 then
        bnd (raw_utf8_sequence_len (c # p)) (\<lambda>n.
        if n \<ge> size_sub cap (length out) then Bad
        else bnd (store cap out (take n (c # p))) (\<lambda>out'.
             json_string_loop cap out' (drop (n - 1) p)))
      else if length out + 1 \<ge> cap then Bad
      else bnd (store cap out [c]) (\<lambda>out'. json_string_loop cap out' p))"
  by pat_completeness auto
termination
  by (relation "measure (\<lambda>(cap, out, p). length p)") auto

definition parse_json_string :: "nat \<Rightarrow> cur \<Rightarrow> (bytes \<times> cur) cres" where
  "parse_json_string cap p =
     bnd (rd p 0) (\<lambda>c. if c \<noteq> of_char CHR ''\"'' then Bad else json_string_loop cap [] (drop 1 p))"

subsection \<open>Numbers and booleans\<close>

fun u64_loop :: "u64 \<Rightarrow> cur \<Rightarrow> (u64 \<times> cur) cres" where
  "u64_loop value [] = UB"
| "u64_loop value (c # p) =
     (let digit = ucast (c - of_char CHR ''0'') :: u64 in
      if value > (- 1 - digit) div 10 then Bad
      else bnd (rd p 0) (\<lambda>d.
           if is_digit d then u64_loop (value * 10 + digit) p
           else Ok (value * 10 + digit, p)))"

definition parse_json_u64 :: "cur \<Rightarrow> (u64 \<times> cur) cres" where
  "parse_json_u64 p =
     bnd (rd p 0) (\<lambda>c. if \<not> is_digit c then Bad
     else if c = of_char CHR ''0'' then
       bnd (rd p 1) (\<lambda>d. if is_digit d then Bad else u64_loop 0 p)
     else u64_loop 0 p)"

definition parse_json_bool :: "cur \<Rightarrow> (bool \<times> cur) cres" where
  "parse_json_bool p =
     bnd (strncmp_eq (lit ''true'') p) (\<lambda>t.
     bnd (if t then bnd (rd p 4) (\<lambda>c. Ok (json_token_finished c)) else Ok False) (\<lambda>is_true.
     if is_true then Ok (True, drop 4 p)
     else
     bnd (strncmp_eq (lit ''false'') p) (\<lambda>f.
     bnd (if f then bnd (rd p 5) (\<lambda>c. Ok (json_token_finished c)) else Ok False) (\<lambda>is_false.
     if is_false then Ok (False, drop 5 p) else Bad))))"

definition json_null_at :: "cur \<Rightarrow> bool cres" where
  "json_null_at p =
     bnd (strncmp_eq (lit ''null'') p) (\<lambda>n.
     if n then bnd (rd p 4) (\<lambda>c. Ok (json_token_finished c)) else Ok False)"

text \<open>The value is \<open>None\<close> for \<^verbatim>\<open>null\<close> (\<^verbatim>\<open>*present = 0\<close>), else the two's complement word.\<close>

definition parse_json_optional_i64 :: "cur \<Rightarrow> (i64 option \<times> cur) cres" where
  "parse_json_optional_i64 p =
     bnd (json_null_at p) (\<lambda>is_null.
     if is_null then Ok (None, drop 4 p)
     else
     bnd (rd p 0) (\<lambda>c.
     let negative = (c = of_char CHR ''-'') in
     bnd (parse_json_u64 (if negative then drop 1 p else p)) (\<lambda>(magnitude, q).
     if (\<not> negative \<and> magnitude > 0x7fffffffffffffff) \<or>
        (negative \<and> magnitude > 0x7fffffffffffffff + 1) then Bad
     else Ok (Some (if negative
                    then (if magnitude = 0x7fffffffffffffff + 1 then 0x8000000000000000
                          else - magnitude)
                    else magnitude), q))))"

subsection \<open>Skipping a value\<close>

definition parse_json_key :: "nat \<Rightarrow> cur \<Rightarrow> (bytes \<times> cur) cres" where
  "parse_json_key cap p =
     bnd (parse_json_string cap p) (\<lambda>(key, q).
     bnd (skip_ws q) (\<lambda>q.
     bnd (rd q 0) (\<lambda>c. if c \<noteq> of_char CHR '':'' then Bad else
     bnd (skip_ws (drop 1 q)) (\<lambda>q. Ok (key, q)))))"

fun skip_digits :: "cur \<Rightarrow> cur cres" where
  "skip_digits [] = UB"
| "skip_digits (c # p) = (if is_digit c then skip_digits p else Ok (c # p))"

text \<open>One digit at least, then the rest of the run.\<close>

definition skip_digits1 :: "cur \<Rightarrow> cur cres" where
  "skip_digits1 p = bnd (rd p 0) (\<lambda>c. if \<not> is_digit c then Bad else skip_digits p)"

text \<open>The integer, fraction and exponent parts of a number.\<close>

definition number_int :: "cur \<Rightarrow> cur cres" where
  "number_int p =
     bnd (rd p 0) (\<lambda>c.
     if c = of_char CHR ''0'' then Ok (drop 1 p)
     else if of_char CHR ''1'' \<le> c \<and> c \<le> of_char CHR ''9'' then skip_digits p
     else Bad)"

definition number_fraction :: "cur \<Rightarrow> cur cres" where
  "number_fraction p =
     bnd (rd p 0) (\<lambda>c. if c = of_char CHR ''.'' then skip_digits1 (drop 1 p) else Ok p)"

definition number_exponent :: "cur \<Rightarrow> cur cres" where
  "number_exponent p =
     bnd (rd p 0) (\<lambda>c.
     if c = of_char CHR ''e'' \<or> c = of_char CHR ''E'' then
       bnd (rd p 1) (\<lambda>s.
       skip_digits1 (if s = of_char CHR ''+'' \<or> s = of_char CHR ''-'' then drop 2 p else drop 1 p))
     else Ok p)"

definition skip_json_number :: "cur \<Rightarrow> cur cres" where
  "skip_json_number p =
     bnd (rd p 0) (\<lambda>c.
     bnd (number_int (if c = of_char CHR ''-'' then drop 1 p else p)) (\<lambda>p.
     bnd (number_fraction p) (\<lambda>p.
     bnd (number_exponent p) (\<lambda>p.
     bnd (rd p 0) (\<lambda>c. if json_token_finished c then Ok p else Bad)))))"

definition GEN_PARAMS_MAX :: nat where
  "GEN_PARAMS_MAX = 3841"

definition closer :: "u8 \<Rightarrow> u8" where
  "closer kind = (if kind = of_char CHR ''{'' then of_char CHR ''}'' else of_char CHR '']'')"

text \<open>
  After a value: close finished containers or move to the next element. The stack of
  open containers has the innermost first; an empty stack means the value is complete.
\<close>

fun after_value :: "nat \<Rightarrow> u8 list \<Rightarrow> cur \<Rightarrow> (u8 list \<times> cur) cres" where
  "after_value cap [] p = Ok ([], p)"
| "after_value cap (kind # opened) p =
     bnd (skip_ws p) (\<lambda>p.
     bnd (rd p 0) (\<lambda>c.
     if c = closer kind then after_value cap opened (drop 1 p)
     else if c \<noteq> of_char CHR '','' then Bad
     else
     bnd (skip_ws (drop 1 p)) (\<lambda>p.
     if kind = of_char CHR ''{'' then
       bnd (parse_json_key cap p) (\<lambda>(_, p). Ok (kind # opened, p))
     else Ok (kind # opened, p))))"

text \<open>
  A scalar value, or an empty container: consumed whole. An opened container: pushed,
  with the cursor at its first element. The flag tells the two apart.
\<close>

definition value_step :: "nat \<Rightarrow> u8 list \<Rightarrow> cur \<Rightarrow> (bool \<times> u8 list \<times> cur) cres" where
  "value_step cap opened p =
     bnd (rd p 0) (\<lambda>c.
     if c = of_char CHR ''{'' \<or> c = of_char CHR ''['' then
       (if length opened = GEN_PARAMS_MAX then Bad
        else
        bnd (skip_ws (drop 1 p)) (\<lambda>q.
        bnd (rd q 0) (\<lambda>d.
        if d \<noteq> closer c then
          (if c = of_char CHR ''{''
           then bnd (parse_json_key cap q) (\<lambda>(_, q). Ok (True, c # opened, q))
           else Ok (True, c # opened, q))
        else Ok (False, opened, drop 1 q))))
     else if c = of_char CHR ''\"'' then
       bnd (parse_json_string cap p) (\<lambda>(_, q). Ok (False, opened, q))
     else if c = of_char CHR ''t'' \<or> c = of_char CHR ''f'' then
       bnd (parse_json_bool p) (\<lambda>(_, q). Ok (False, opened, q))
     else
       bnd (json_null_at p) (\<lambda>is_null.
       if is_null then Ok (False, opened, drop 4 p)
       else bnd (skip_json_number p) (\<lambda>q. Ok (False, opened, q))))"

section \<open>Progress: every parser consumes input\<close>

lemma skip_ws_length: "skip_ws p = Ok q \<Longrightarrow> length q \<le> length p \<and> q \<noteq> []"
  by (induction p rule: skip_ws.induct) (auto split: if_splits)

lemma json_string_loop_length: "json_string_loop cap out p = Ok (s, q) \<Longrightarrow> length q < length p"
proof (induction cap out p rule: json_string_loop.induct)
  case (1 cap out)
  then show ?case by simp
next
  case (2 cap out c p)
  show ?case
    using 2 by (force split: if_splits list.splits option.splits)
qed

lemma parse_json_string_length: "parse_json_string cap p = Ok (s, q) \<Longrightarrow> length q < length p"
  by (auto simp: parse_json_string_def rd_eq_Ok split: if_splits dest!: json_string_loop_length)

lemma u64_loop_length: "u64_loop v p = Ok (n, q) \<Longrightarrow> length q < length p"
proof (induction v p rule: u64_loop.induct)
  case (1 v)
  then show ?case by simp
next
  case (2 v c p)
  then show ?case by (fastforce simp: Let_def split: if_splits)
qed

lemma parse_json_u64_length: "parse_json_u64 p = Ok (n, q) \<Longrightarrow> length q < length p"
  by (auto simp: parse_json_u64_def split: if_splits dest: u64_loop_length)

lemma strncmp_eq_length: "strncmp_eq s p = Ok True \<Longrightarrow> length s \<le> length p"
  by (induction s p rule: strncmp_eq.induct) (auto split: if_splits)

lemma parse_json_bool_length: "parse_json_bool p = Ok (b, q) \<Longrightarrow> length q < length p"
  by (auto simp: parse_json_bool_def rd_eq_Ok split: if_splits)

lemma json_null_at_length: "json_null_at p = Ok True \<Longrightarrow> 4 < length p"
  by (auto simp: json_null_at_def rd_eq_Ok split: if_splits)

lemma parse_json_key_length: "parse_json_key cap p = Ok (k, q) \<Longrightarrow> length q < length p"
  by (auto simp: parse_json_key_def split: if_splits
           dest!: parse_json_string_length skip_ws_length)

lemma skip_digits_length: "skip_digits p = Ok q \<Longrightarrow> length q \<le> length p"
  by (induction p rule: skip_digits.induct) (auto split: if_splits)

lemma skip_digits1_length: "skip_digits1 p = Ok q \<Longrightarrow> length q < length p"
  by (cases p) (auto simp: skip_digits1_def split: if_splits dest: skip_digits_length)

lemma skip_digits_nonzero_length:
  "is_digit c \<Longrightarrow> skip_digits (c # p) = Ok q \<Longrightarrow> length q \<le> length p"
  by (auto dest: skip_digits_length)

lemma is_digit_19: "of_char CHR ''1'' \<le> c \<Longrightarrow> c \<le> of_char CHR ''9'' \<Longrightarrow> is_digit c"
  by (simp add: is_digit_def word_le_nat_alt)

lemma number_int_length: "number_int p = Ok q \<Longrightarrow> length q < length p"
  using is_digit_19 skip_digits_nonzero_length
  by (cases p) (auto simp: number_int_def less_Suc_eq_le simp del: skip_digits.simps split: if_splits)

lemma number_fraction_length: "number_fraction p = Ok q \<Longrightarrow> length q \<le> length p"
  by (auto simp: number_fraction_def split: if_splits dest: skip_digits1_length)

lemma number_exponent_length: "number_exponent p = Ok q \<Longrightarrow> length q \<le> length p"
  by (auto simp: number_exponent_def split: if_splits dest: skip_digits1_length)

lemma skip_json_number_length: "skip_json_number p = Ok q \<Longrightarrow> length q < length p"
  by (auto simp: skip_json_number_def split: if_splits
           dest!: number_int_length number_fraction_length number_exponent_length)

lemma after_value_length: "after_value cap st p = Ok (st', q) \<Longrightarrow> length q \<le> length p"
proof (induction cap st p rule: after_value.induct)
  case (1 cap p)
  then show ?case by simp
next
  case (2 cap kind opened p)
  from "2.prems" obtain p1 c where p1: "skip_ws p = Ok p1" and c: "rd p1 0 = Ok c"
    and rest: "(if c = closer kind then after_value cap opened (drop 1 p1)
       else if c \<noteq> of_char CHR '','' then Bad
       else bnd (skip_ws (drop 1 p1)) (\<lambda>p.
         if kind = of_char CHR ''{'' then
           bnd (parse_json_key cap p) (\<lambda>(_, p). Ok (kind # opened, p))
         else Ok (kind # opened, p))) = Ok (st', q)"
    by auto
  show ?case
  proof (cases "c = closer kind")
    case True
    with rest have "length q \<le> length (drop 1 p1)" using "2.IH" [OF p1 c True] by simp
    with skip_ws_length [OF p1] show ?thesis by (auto simp: le_diff_conv)
  next
    case False
    with rest skip_ws_length [OF p1] show ?thesis
      by (auto split: if_splits dest!: skip_ws_length parse_json_key_length)
  qed
qed

lemma value_step_length:
  assumes "value_step cap st p = Ok (b, st', q)"
  shows "length q < length p"
proof -
  from assms obtain c where c: "rd p 0 = Ok c" by (auto simp: value_step_def)
  then have len: "0 < length p" by (simp add: rd_eq_Ok)
  consider (container) "c = of_char CHR ''{'' \<or> c = of_char CHR ''[''"
    | (quote) "\<not> (c = of_char CHR ''{'' \<or> c = of_char CHR ''['')" "c = of_char CHR ''\"''"
    | (bool) "\<not> (c = of_char CHR ''{'' \<or> c = of_char CHR ''['')" "c \<noteq> of_char CHR ''\"''"
        "c = of_char CHR ''t'' \<or> c = of_char CHR ''f''"
    | (other) "\<not> (c = of_char CHR ''{'' \<or> c = of_char CHR ''['')" "c \<noteq> of_char CHR ''\"''"
        "\<not> (c = of_char CHR ''t'' \<or> c = of_char CHR ''f'')"
    by blast
  then show ?thesis
  proof cases
    case container
    with assms c obtain q1 where q1: "skip_ws (drop 1 p) = Ok q1" and "length q \<le> length q1"
      unfolding value_step_def
      by (auto split: if_splits dest: parse_json_key_length)
    with skip_ws_length [OF q1] len show ?thesis by (cases p) auto
  next
    case quote
    with assms c show ?thesis
      unfolding value_step_def by (auto dest: parse_json_string_length)
  next
    case bool
    with assms c show ?thesis
      unfolding value_step_def by (auto dest: parse_json_bool_length)
  next
    case other
    with assms c len show ?thesis
      unfolding value_step_def
      by (auto split: if_splits dest: skip_json_number_length)
  qed
qed

function skip_value_loop :: "nat \<Rightarrow> u8 list \<Rightarrow> cur \<Rightarrow> cur cres" where
  "skip_value_loop cap opened p =
     bnd (value_step cap opened p) (\<lambda>(entered, opened, q).
     if entered then skip_value_loop cap opened q
     else
     bnd (after_value cap opened q) (\<lambda>(opened, q).
     if opened = [] then Ok q else skip_value_loop cap opened q))"
  by pat_completeness auto
termination
  by (relation "measure (\<lambda>(cap, opened, p). length p)")
     (auto dest!: value_step_length after_value_length)

declare skip_value_loop.simps [simp del]

definition skip_json_value :: "nat \<Rightarrow> cur \<Rightarrow> cur cres" where
  "skip_json_value cap p = skip_value_loop cap [] p"

section \<open>Memory safety\<close>

text \<open>
  On a NUL-terminated cursor no parser reads past the NUL, and a parser that stores into
  a buffer of \<open>cap\<close> bytes stays inside it.
\<close>

lemma sat_skip_ws: "cstr p \<Longrightarrow> sat (skip_ws p) cstr"
  by (induction p rule: skip_ws.induct) auto

lemma sat_skip_digits: "cstr p \<Longrightarrow> sat (skip_digits p) cstr"
  by (induction p rule: skip_digits.induct) (auto simp: is_digit_def)

lemma sat_skip_digits1: "cstr p \<Longrightarrow> sat (skip_digits1 p) cstr"
  using sat_skip_digits [of p] by (cases p) (auto simp: skip_digits1_def)

lemma sat_strncmp_eq:
  "cstr p \<Longrightarrow> 0 \<notin> set s \<Longrightarrow> length s = n \<Longrightarrow>
   sat (strncmp_eq s p) (\<lambda>b. b \<longrightarrow> cstr (drop n p))"
  by (induction s p arbitrary: n rule: strncmp_eq.induct) auto

lemma sat_rd_drop: "cstr (drop n p) \<Longrightarrow> sat (rd p n) (\<lambda>c. p ! n = c \<and> n < length p)"
  by (auto simp: rd_def not_less dest: cstr_neq_Nil)

lemma hex_digit_nonzero: "hex_digit c = Some d \<Longrightarrow> c \<noteq> 0"
  by (auto simp: hex_digit_def split: if_splits)

lemma sat_hex_loop: "cstr p \<Longrightarrow> sat (hex_loop n v p) (\<lambda>_. cstr (drop n p))"
  by (induction n v p rule: hex_loop.induct) (auto split: option.splits if_splits dest: hex_digit_nonzero)

lemma sat_json_hex_quad: "cstr p \<Longrightarrow> sat (json_hex_quad p) (\<lambda>_. cstr (drop 4 p))"
  by (simp add: json_hex_quad_def sat_hex_loop)

lemma cstr_drop_Suc: "cstr (drop n p) \<Longrightarrow> p ! n \<noteq> 0 \<Longrightarrow> cstr (drop (Suc n) p)"
  by (cases "drop n p") (auto simp: drop_Suc nth_via_drop simp flip: tl_drop)

lemma sat_low_surrogate: "cstr p \<Longrightarrow> sat (low_surrogate p) (\<lambda>_. cstr (drop 6 p))"
  by (cases p; cases "tl p")
     (auto simp: low_surrogate_def intro!: sat_mono [OF sat_json_hex_quad])

lemma sat_unicode_escape: "cstr p \<Longrightarrow> sat (unicode_escape p) (\<lambda>(cp, n). cstr (drop n p))"
  unfolding unicode_escape_def
  by (rule sat_seq, erule sat_json_hex_quad)
     (auto intro!: sat_mono [OF sat_low_surrogate])

lemma sat_raw_utf8_sequence_len:
  "cstr p \<Longrightarrow> sat (raw_utf8_sequence_len p)
     (\<lambda>n. 1 < n \<and> n \<le> 4 \<and> n < length p \<and> 0 \<notin> set (take n p) \<and> cstr (drop n p))"
proof -
  assume p: "cstr p"
  then obtain c p1 where p_def: "p = c # p1" by (cases p) auto
  show ?thesis
  proof (cases "c \<ge> 0x80")
    case False
    then have "\<not> c \<ge> 0xc2" "\<not> c \<ge> 0xe0" "\<not> c \<ge> 0xf0" by (auto simp: word_le_nat_alt)
    then show ?thesis by (simp add: raw_utf8_sequence_len_def p_def)
  next
    case True
    then have c: "c \<noteq> 0" by auto
    with p have p1: "cstr p1" by (simp add: p_def)
    then obtain c1 p2 where p1_def: "p1 = c1 # p2" by (cases p1) auto
    show ?thesis
    proof (cases "c1 = 0")
      case True
      then show ?thesis by (simp add: raw_utf8_sequence_len_def p_def p1_def)
    next
      case c1: False
      with p1 have p2: "cstr p2" by (simp add: p1_def)
      then obtain c2 p3 where p2_def: "p2 = c2 # p3" by (cases p2) auto
      show ?thesis
      proof (cases "c2 = 0")
        case True
        with p2 have "p3 = []" by (simp add: p2_def)
        with True c c1 show ?thesis
          by (simp add: raw_utf8_sequence_len_def p_def p1_def p2_def)
      next
        case c2: False
        with p2 have p3: "cstr p3" by (simp add: p2_def)
        then obtain c3 p4 where p3_def: "p3 = c3 # p4" by (cases p3) auto
        show ?thesis
        proof (cases "c3 = 0")
          case True
          with p3 have "p4 = []" by (simp add: p3_def)
          with True c c1 c2 show ?thesis
            by (simp add: raw_utf8_sequence_len_def p_def p1_def p2_def p3_def)
        next
          case c3: False
          with p3 have p4: "cstr p4" by (simp add: p3_def)
          then have "p4 \<noteq> []" by auto
          with c c1 c2 c3 p4 show ?thesis
            by (simp add: raw_utf8_sequence_len_def p_def p1_def p2_def p3_def)
        qed
      qed
    qed
  qed
qed

lemma OR_0x80_nonzero: "(ucast (0x80 OR x :: u32) :: u8) \<noteq> 0"
proof
  assume "(ucast (0x80 OR x :: u32) :: u8) = 0"
  then have "\<not> bit (ucast (0x80 OR x :: u32) :: u8) 7" by simp
  then show False by (simp add: bit_simps)
qed

lemma utf8_encode_nonzero: "cp \<noteq> 0 \<Longrightarrow> 0 \<notin> set (utf8_encode cp)"
proof -
  assume cp: "cp \<noteq> 0"
  have hi: "(ucast (0xc0 OR y :: u32) :: u8) \<noteq> 0" "(ucast (0xe0 OR y :: u32) :: u8) \<noteq> 0"
    "(ucast (0xf0 OR y :: u32) :: u8) \<noteq> 0" for y :: u32
    using OR_0x80_nonzero [of "0x40 OR y"] OR_0x80_nonzero [of "0x60 OR y"]
      OR_0x80_nonzero [of "0x70 OR y"] by (simp_all flip: or.assoc)
  have small: "(ucast cp :: u8) \<noteq> 0" if "cp \<le> 0x7f"
  proof
    assume "(ucast cp :: u8) = 0"
    then have "unat cp mod 256 = 0"
      using unat_ucast_u8 [of cp] by simp
    with that cp show False by (simp add: word_le_nat_alt unat_eq_0)
  qed
  show ?thesis
    using hi OR_0x80_nonzero small by (auto simp: utf8_encode_def)
qed

lemma utf8_encode_length: "0 < length (utf8_encode cp) \<and> length (utf8_encode cp) \<le> 4"
  by (simp add: utf8_encode_def)

lemma sat_store_fits:
  "length bs < size_sub cap (length out) \<Longrightarrow> length out < cap \<Longrightarrow>
   sat (store cap out bs) (\<lambda>out'. out' = out @ bs \<and> length out' < cap)"
  by (auto simp: store_def size_sub_def)

lemma sat_append_json_codepoint:
  "length out < cap \<Longrightarrow> 0 \<notin> set out \<Longrightarrow>
   sat (append_json_codepoint cap out cp) (\<lambda>out'. length out' < cap \<and> 0 \<notin> set out')"
  by (auto simp: append_json_codepoint_def not_le utf8_encode_nonzero
           intro!: sat_mono [OF sat_store_fits])

lemma sat_json_string_loop:
  "cstr p \<Longrightarrow> length out < cap \<Longrightarrow> 0 \<notin> set out \<Longrightarrow>
   sat (json_string_loop cap out p) (\<lambda>(s, q). length s < cap \<and> 0 \<notin> set s \<and> cstr q)"
proof (induction cap out p rule: json_string_loop.induct)
  case (1 cap out)
  then show ?case by simp
next
  case (2 cap out c p)
  note out = "2.prems"(2,3)
  have push: "sat (store cap out [b]) (\<lambda>out'. out' = out @ [b] \<and> length out' < cap)"
    if "\<not> length out + 1 \<ge> cap" for b
    using that by (simp add: store_def)
  consider "c = 0" | (quote) "c = of_char CHR ''\"''" | (esc) "c = 0x5c"
    | (ctl) "c \<noteq> 0" "c \<noteq> of_char CHR ''\"''" "c \<noteq> 0x5c" "c < 0x20"
    | (utf) "c \<noteq> 0" "c \<noteq> of_char CHR ''\"''" "c \<noteq> 0x5c" "\<not> c < 0x20" "c \<ge> 0x80"
    | (plain) "c \<noteq> 0" "c \<noteq> of_char CHR ''\"''" "c \<noteq> 0x5c" "\<not> c < 0x20" "\<not> c \<ge> 0x80"
    by blast
  then show ?case
  proof cases
    case quote
    with "2.prems" show ?thesis by (auto simp: store_def)
  next
    case esc
    with "2.prems"(1) have "cstr p" by simp
    then obtain e q where p: "p = e # q" by (cases p) auto
    show ?thesis
    proof (cases "e = of_char CHR ''u''")
      case True
      with \<open>cstr p\<close> have q: "cstr q" by (simp add: p)
      show ?thesis
        using esc True p
        by (auto intro!: sat_seq [OF sat_unicode_escape [OF q]] sat_seq [OF sat_append_json_codepoint [OF out]]
              "2.IH"(1) simp del: sat_bnd)
    next
      case False
      show ?thesis
      proof (cases "simple_escape e")
        case None
        with esc False p show ?thesis by simp
      next
        case (Some b)
        then have "e \<noteq> 0" "b \<noteq> 0" by (auto simp: simple_escape_def split: if_splits)
        with \<open>cstr p\<close> have "cstr q" by (simp add: p)
        with esc False p Some \<open>b \<noteq> 0\<close> out show ?thesis
          by (auto intro!: sat_seq [OF push] "2.IH"(2) simp del: sat_bnd)
      qed
    qed
  next
    case utf
    have IH: "sat (json_string_loop cap (out @ take n (c # p)) (drop (n - Suc 0) p))
        (\<lambda>(s, q). length s < cap \<and> 0 \<notin> set s \<and> cstr q)"
      if "raw_utf8_sequence_len (c # p) = Ok n" "\<not> n \<ge> size_sub cap (length out)"
        "store cap out (take n (c # p)) = Ok (out @ take n (c # p))"
        "length out + n < cap" "n < Suc (length p)" "Suc 0 < n" "0 \<notin> set (take n (c # p))" "cstr (drop n (c # p))" for n
      using that utf out
      by (intro "2.IH"(3) [unfolded One_nat_def]) (auto simp: drop_Cons' simp del: json_string_loop.simps)
    have "sat (bnd (raw_utf8_sequence_len (c # p)) (\<lambda>n.
        if n \<ge> size_sub cap (length out) then Bad
        else bnd (store cap out (take n (c # p))) (\<lambda>out'.
             json_string_loop cap out' (drop (n - 1) p))))
        (\<lambda>(s, q). length s < cap \<and> 0 \<notin> set s \<and> cstr q)"
      using out
      by (auto intro!: sat_seq [OF sat_raw_utf8_sequence_len [OF "2.prems"(1)]] sat_seq [OF sat_store_fits] IH
          simp del: sat_bnd json_string_loop.simps)
    with utf show ?thesis by simp
  next
    case plain
    with "2.prems" show ?thesis
      by (auto intro!: sat_seq [OF push] "2.IH"(4) simp del: sat_bnd)
  qed simp_all
qed

lemma sat_parse_json_string:
  "cstr p \<Longrightarrow> 0 < cap \<Longrightarrow>
   sat (parse_json_string cap p) (\<lambda>(s, q). length s < cap \<and> 0 \<notin> set s \<and> cstr q)"
  by (cases p) (auto simp: parse_json_string_def sat_json_string_loop)

lemma digit_nonzero: "is_digit c \<Longrightarrow> c \<noteq> 0"
  by (auto simp: is_digit_def)

lemma sat_u64_loop: "cstr p \<Longrightarrow> is_digit (hd p) \<Longrightarrow> sat (u64_loop v p) (\<lambda>(n, q). cstr q)"
proof (induction v p rule: u64_loop.induct)
  case (1 v)
  then show ?case by simp
next
  case (2 v c p)
  then have "cstr p" by (auto dest: digit_nonzero)
  with 2 show ?case by (cases p) (auto simp: Let_def)
qed

lemma sat_parse_json_u64: "cstr p \<Longrightarrow> sat (parse_json_u64 p) (\<lambda>(n, q). cstr q)"
proof -
  assume p: "cstr p"
  then obtain c q where q: "p = c # q" by (cases p) auto
  have loop: "sat (u64_loop 0 p) (\<lambda>(n, q). cstr q)" if "is_digit c"
    by (rule sat_u64_loop [OF p]) (simp add: q that)
  have "sat (rd p 1) (\<lambda>_. True)" if "is_digit c"
    using p digit_nonzero [OF that] by (cases q) (auto simp: q)
  with loop show ?thesis
    unfolding parse_json_u64_def
    by (auto simp: q intro: sat_mono simp del: u64_loop.simps)
qed

lemma sat_parse_json_bool: "cstr p \<Longrightarrow> sat (parse_json_bool p) (\<lambda>(b, q). cstr q)"
proof -
  assume p: "cstr p"
  have t: "sat (strncmp_eq (lit ''true'') p) (\<lambda>b. b \<longrightarrow> cstr (drop 4 p))"
    by (rule sat_strncmp_eq [OF p]) (simp_all add: lit_def)
  have f: "sat (strncmp_eq (lit ''false'') p) (\<lambda>b. b \<longrightarrow> cstr (drop 5 p))"
    by (rule sat_strncmp_eq [OF p]) (simp_all add: lit_def)
  have fin: "sat (if b then bnd (rd p n) (\<lambda>c. Ok (json_token_finished c)) else Ok False)
      (\<lambda>r. r \<longrightarrow> b)" if "b \<longrightarrow> cstr (drop n p)" for b n
    using that by (auto intro!: sat_mono [OF sat_rd_drop])
  show ?thesis
    unfolding parse_json_bool_def
    by (rule sat_seq [OF t], rule sat_seq [OF fin], assumption, auto
        intro!: sat_seq [OF f] sat_seq [OF fin] simp del: sat_bnd)
qed

lemma sat_json_null_at: "cstr p \<Longrightarrow> sat (json_null_at p) (\<lambda>b. b \<longrightarrow> cstr (drop 4 p))"
  unfolding json_null_at_def
  by (rule sat_seq, erule sat_strncmp_eq [where n = 4])
     (auto simp: lit_def intro!: sat_mono [OF sat_rd_drop])

lemma sat_parse_json_optional_i64: "cstr p \<Longrightarrow> sat (parse_json_optional_i64 p) (\<lambda>(v, q). cstr q)"
  unfolding parse_json_optional_i64_def
  by (rule sat_seq, erule sat_json_null_at)
     (auto simp: Let_def intro!: sat_rd_0 sat_mono [OF sat_parse_json_u64] split: if_splits)

lemma sat_parse_json_key:
  "cstr p \<Longrightarrow> 0 < cap \<Longrightarrow>
   sat (parse_json_key cap p) (\<lambda>(s, q). length s < cap \<and> 0 \<notin> set s \<and> cstr q)"
  unfolding parse_json_key_def
  by (rule sat_seq, erule (1) sat_parse_json_string)
     (auto intro!: sat_seq [OF sat_skip_ws] sat_rd_0 sat_mono [OF sat_skip_ws] split: if_splits)

lemma sat_skip_json_number: "cstr p \<Longrightarrow> sat (skip_json_number p) cstr"
proof -
  assume p: "cstr p"
  have int: "sat (number_int q) cstr" if "cstr q" for q
    unfolding number_int_def using that
    by (auto intro!: sat_seq [OF sat_rd0] sat_skip_digits simp del: sat_bnd)
  have frac: "sat (number_fraction q) cstr" if "cstr q" for q
    unfolding number_fraction_def using that
    by (auto intro!: sat_seq [OF sat_rd0] sat_skip_digits1 simp del: sat_bnd)
  have expo: "sat (number_exponent q) cstr" if "cstr q" for q
    using that unfolding number_exponent_def
    by (cases q; cases "tl q") (auto intro!: sat_skip_digits1)
  show ?thesis
    unfolding skip_json_number_def using p
    by (auto intro!: sat_seq [OF sat_rd0] sat_seq [OF int] sat_seq [OF frac] sat_seq [OF expo]
        split: if_splits simp del: sat_bnd)
qed

lemma sat_after_value: "cstr p \<Longrightarrow> 0 < cap \<Longrightarrow> sat (after_value cap st p) (\<lambda>(st', q). cstr q)"
proof (induction cap st p rule: after_value.induct)
  case (1 cap p)
  then show ?case by simp
next
  case (2 cap kind opened p)
  have closer: "closer kind \<noteq> 0" by (simp add: closer_def)
  show ?case
    using 2 closer
    by (auto intro!: sat_seq [OF sat_skip_ws] sat_seq [OF sat_rd0] sat_seq [OF sat_parse_json_key]
        simp del: sat_bnd)
qed

lemma sat_value_step: "cstr p \<Longrightarrow> 0 < cap \<Longrightarrow> sat (value_step cap st p) (\<lambda>(b, st', q). cstr q)"
proof -
  assume p: "cstr p" and cap: "0 < cap"
  have enter: "sat (bnd (skip_ws (drop 1 p)) (\<lambda>q. bnd (rd q 0) (\<lambda>d.
        if d \<noteq> closer c then
          (if c = of_char CHR ''{''
           then bnd (parse_json_key cap q) (\<lambda>(_, q). Ok (True, c # st, q))
           else Ok (True, c # st, q))
        else Ok (False, st, drop 1 q)))) (\<lambda>(b, st', q). cstr q)"
    if "cstr (drop (Suc 0) p)" for c
  proof (rule sat_seq [OF sat_skip_ws])
    fix q assume q: "cstr q"
    have "closer c \<noteq> 0" by (simp add: closer_def)
    with q show "sat (bnd (rd q 0) (\<lambda>d.
        if d \<noteq> closer c then
          (if c = of_char CHR ''{''
           then bnd (parse_json_key cap q) (\<lambda>(_, q). Ok (True, c # st, q))
           else Ok (True, c # st, q))
        else Ok (False, st, drop 1 q))) (\<lambda>(b, st', q). cstr q)"
      by (intro sat_seq [OF sat_rd0]) (auto intro!: sat_mono [OF sat_parse_json_key] cap)
  qed (simp add: that)
  show ?thesis
    unfolding value_step_def
  proof (rule sat_seq [OF sat_rd0 [OF p]], goal_cases)
    case (1 c)
    note c = this
    have enters: "c = of_char CHR ''{'' \<or> c = of_char CHR ''['' \<Longrightarrow> cstr (drop (Suc 0) p)"
      using c by auto
    show ?case
      by (intro sat_if enter sat_seq [OF sat_parse_json_string [OF p cap]] sat_seq [OF sat_parse_json_bool [OF p]]
            sat_seq [OF sat_json_null_at [OF p]] sat_seq [OF sat_skip_json_number [OF p]] enters)
         (auto split: prod.splits)
  qed
qed

lemma sat_skip_json_value: "cstr p \<Longrightarrow> 0 < cap \<Longrightarrow> sat (skip_json_value cap p) cstr"
proof -
  have "cstr p \<Longrightarrow> sat (skip_value_loop cap opened p) cstr" if "0 < cap" for opened
    using that
  proof (induction cap opened p rule: skip_value_loop.induct)
    case (1 cap opened p)
    show ?case
    proof (subst skip_value_loop.simps, rule sat_seq [OF sat_value_step [OF "1.prems"]], goal_cases)
      case (1 r)
      then obtain b st q where r: "r = (b, st, q)" "value_step cap opened p = Ok (b, st, q)" "cstr q"
        by (cases r) auto
      have "sat (bnd (after_value cap st q) (\<lambda>(st', q). if st' = [] then Ok q else skip_value_loop cap st' q)) cstr"
        if "\<not> b"
        using that "1.prems" "1.IH"(2) [OF r(2) refl refl]
        by (intro sat_seq [OF sat_after_value [OF r(3)]]) (auto simp del: skip_value_loop.simps)
      with r "1.prems" "1.IH"(1) [OF r(2) refl refl] show ?case
        by (auto simp del: skip_value_loop.simps sat_bnd)
    qed
  qed
  then show "cstr p \<Longrightarrow> 0 < cap \<Longrightarrow> sat (skip_json_value cap p) cstr"
    by (simp add: skip_json_value_def)
qed

end
