(* ===== verification/Paths.thy ===== *)
theory Paths
  imports Prelude "HOL-Library.Sublist"
begin

text \<open>
  The path rules of \<^verbatim>\<open>request.c\<close> for build mounts: \<open>valid_build_cache_key\<close>,
  \<open>valid_build_cache_target\<close>, \<open>valid_build_context_bind_source\<close>,
  \<open>valid_build_context_bind_target\<close> and \<open>build_cache_targets_overlap\<close>, with the reading
  of a path as its list of components against which they are proved.
\<close>

section \<open>Definitions\<close>

abbreviation slash :: u8 where "slash \<equiv> 0x2f"

abbreviation dot :: u8 where "dot \<equiv> 0x2e"

text \<open>The first byte of a C string, its NUL when the string is empty.\<close>

definition first_byte :: "bytes \<Rightarrow> u8" where
  "first_byte s = (case s of [] \<Rightarrow> 0 | c # _ \<Rightarrow> c)"

definition PATH_MAX_LEN :: nat where "PATH_MAX_LEN = 512"

definition CACHE_KEY_LEN :: nat where "CACHE_KEY_LEN = 64"

definition valid_build_cache_key :: "bytes \<Rightarrow> bool" where
  "valid_build_cache_key key \<longleftrightarrow>
     length key = CACHE_KEY_LEN \<and>
     list_all (\<lambda>c. of_char CHR ''0'' \<le> c \<and> c \<le> of_char CHR ''9'' \<or>
                   of_char CHR ''a'' \<le> c \<and> c \<le> of_char CHR ''f'') key"

text \<open>
  The loop over the parts of a path: \<^verbatim>\<open>strchr(p, '/')\<close> ends the part, an empty part,
  \<^verbatim>\<open>.\<close> and \<^verbatim>\<open>..\<close> are refused, and the slash after the part is stepped over.
\<close>

function path_parts_valid :: "bytes \<Rightarrow> bool" where
  "path_parts_valid p =
     (if p = [] then True
      else
        let part = takeWhile (\<lambda>c. c \<noteq> slash) p in
        if part = [] \<or> part = [dot] \<or> part = [dot, dot] then False
        else case dropWhile (\<lambda>c. c \<noteq> slash) p of
               [] \<Rightarrow> True
             | _ # q \<Rightarrow> path_parts_valid q)"
  by pat_completeness auto
termination
proof (relation "measure length")
  fix p q :: bytes and part c
  assume "p \<noteq> []" "dropWhile (\<lambda>c. c \<noteq> slash) p = c # q"
  then have "length (c # q) \<le> length p" by (metis length_dropWhile_le)
  then show "(q, p) \<in> measure length" by simp
qed simp

declare path_parts_valid.simps [simp del]

definition valid_build_cache_target :: "bytes \<Rightarrow> bool" where
  "valid_build_cache_target target \<longleftrightarrow>
     \<not> (length target < 2 \<or> length target > PATH_MAX_LEN \<or> hd target \<noteq> slash \<or> last target = slash) \<and>
     path_parts_valid (tl target)"

definition valid_build_context_bind_source :: "bytes \<Rightarrow> bool" where
  "valid_build_context_bind_source source \<longleftrightarrow>
     \<not> (source = [] \<or> length source > PATH_MAX_LEN \<or> hd source = slash \<or> last source = slash) \<and>
     path_parts_valid source"

text \<open>
  \<^verbatim>\<open>strncmp(a, b, n) == 0\<close> with \<open>n\<close> the length of the shorter string, and the byte of the
  longer one after it.
\<close>

definition build_cache_targets_overlap :: "bytes \<Rightarrow> bytes \<Rightarrow> bool" where
  "build_cache_targets_overlap a b \<longleftrightarrow>
     a = b \<or>
     length a < length b \<and> take (length a) b = a \<and> b ! length a = slash \<or>
     length b < length a \<and> take (length b) a = b \<and> a ! length b = slash"

definition owned_targets :: "bytes list" where
  "owned_targets = map lit [''/proc'', ''/dev'', ''/sys'', ''/run/sporevm'', ''/run/buildkit'', ''/etc/resolv.conf'']"

definition valid_build_context_bind_target :: "bytes \<Rightarrow> bool" where
  "valid_build_context_bind_target target \<longleftrightarrow>
     valid_build_cache_target target \<and>
     list_all (\<lambda>owned. \<not> build_cache_targets_overlap target owned) owned_targets"

section \<open>Paths as lists of components\<close>

text \<open>
  The reading of a path: a proper component is not empty, holds no slash and is not
  \<^verbatim>\<open>.\<close> or \<^verbatim>\<open>..\<close>.
\<close>

definition proper_component :: "bytes \<Rightarrow> bool" where
  "proper_component c \<longleftrightarrow> c \<noteq> [] \<and> slash \<notin> set c \<and> c \<noteq> [dot] \<and> c \<noteq> [dot, dot]"

definition abs_path :: "bytes list \<Rightarrow> bytes" where
  "abs_path cs = concat (map (\<lambda>c. slash # c) cs)"

fun rel_path :: "bytes list \<Rightarrow> bytes" where
  "rel_path [] = []"
| "rel_path (c # cs) = c @ abs_path cs"

lemma abs_path_Nil [simp]: "abs_path [] = []"
  by (simp add: abs_path_def)

lemma abs_path_Cons [simp]: "abs_path (c # cs) = slash # c @ abs_path cs"
  by (simp add: abs_path_def)

lemma abs_path_append [simp]: "abs_path (xs @ ys) = abs_path xs @ abs_path ys"
  by (simp add: abs_path_def)

lemma abs_path_eq_Nil [simp]: "abs_path cs = [] \<longleftrightarrow> cs = []"
  by (cases cs) auto

lemma hd_abs_path [simp]: "cs \<noteq> [] \<Longrightarrow> hd (abs_path cs) = slash"
  by (cases cs) auto

lemma tl_abs_path [simp]: "tl (abs_path cs) = rel_path cs"
  by (cases cs) auto

lemma takeWhile_component:
  "slash \<notin> set c \<Longrightarrow> takeWhile (\<lambda>x. x \<noteq> slash) (c @ abs_path cs) = c"
  by (cases cs) (auto simp: takeWhile_append takeWhile_eq_all_conv)

lemma dropWhile_component:
  "slash \<notin> set c \<Longrightarrow> dropWhile (\<lambda>x. x \<noteq> slash) (c @ abs_path cs) = abs_path cs"
  by (cases cs) (auto simp: dropWhile_append)

text \<open>A path that passes the loop ends in a slash or is the join of proper components.\<close>

lemma path_parts_valid_rel_path:
  "list_all proper_component cs \<Longrightarrow> path_parts_valid (rel_path cs)"
proof (induction cs)
  case Nil
  then show ?case by (simp add: path_parts_valid.simps)
next
  case (Cons c cs)
  then have c: "slash \<notin> set c" "c \<noteq> []" "c \<noteq> [dot]" "c \<noteq> [dot, dot]"
    by (auto simp: proper_component_def)
  have "path_parts_valid (rel_path cs)" using Cons by simp
  with c show ?case
    by (subst path_parts_valid.simps)
       (auto simp: takeWhile_component dropWhile_component Let_def split: list.splits
         dest: arg_cong [where f = tl])
qed

lemma path_parts_valid_components:
  assumes "path_parts_valid p" "p \<noteq> []" "last p \<noteq> slash"
  shows "\<exists>cs. cs \<noteq> [] \<and> list_all proper_component cs \<and> p = rel_path cs"
  using assms
proof (induction p rule: path_parts_valid.induct)
  case (1 p)
  define part where "part = takeWhile (\<lambda>c. c \<noteq> slash) p"
  have p: "p = part @ dropWhile (\<lambda>c. c \<noteq> slash) p"
    by (simp add: part_def)
  have proper: "proper_component part"
    using 1(2,3) set_takeWhileD [of slash "\<lambda>c. c \<noteq> slash" p]
    by (auto simp: part_def proper_component_def path_parts_valid.simps [of p] Let_def split: if_splits)
  show ?case
  proof (cases "dropWhile (\<lambda>c. c \<noteq> slash) p")
    case Nil
    with p have "p = part" by simp
    with proper show ?thesis by (intro exI [of _ "[part]"]) auto
  next
    case (Cons s q)
    then have s: "s = slash" by (metis (mono_tags, lifting) dropWhile_eq_Cons_conv)
    from p Cons s 1(4) have q: "q \<noteq> []" "last q \<noteq> slash" by (auto split: if_splits)
    have "path_parts_valid q"
      using 1(2,3) Cons proper
      by (auto simp: path_parts_valid.simps [of p] Let_def split: if_splits)
    moreover have np: "\<not> (part = [] \<or> part = [dot] \<or> part = [dot, dot])"
      using proper by (auto simp: proper_component_def)
    ultimately obtain cs where cs: "cs \<noteq> []" "list_all proper_component cs" "q = rel_path cs"
      using 1(1) [OF 1(3) part_def np Cons] q by auto
    from cs(1,3) have "slash # q = abs_path cs" by (cases cs) auto
    with p Cons s proper cs show ?thesis
      by (intro exI [of _ "part # cs"]) auto
  qed
qed

lemma length_abs_path_ge_2: "cs \<noteq> [] \<Longrightarrow> list_all proper_component cs \<Longrightarrow> 2 \<le> length (abs_path cs)"
  by (cases cs; cases "hd cs") (auto simp: proper_component_def)

lemma last_abs_path: "cs \<noteq> [] \<Longrightarrow> list_all proper_component cs \<Longrightarrow> last (abs_path cs) \<noteq> slash"
proof (induction cs)
  case (Cons c cs)
  then show ?case
    by (cases cs) (auto simp: proper_component_def, metis last_in_set)
qed simp

text \<open>C22. A build mount target is accepted exactly when it is an absolute path of at most
  512 bytes built from one or more proper components.\<close>

theorem valid_build_cache_target_iff:
  "valid_build_cache_target t \<longleftrightarrow>
     length t \<le> PATH_MAX_LEN \<and> (\<exists>cs. cs \<noteq> [] \<and> list_all proper_component cs \<and> t = abs_path cs)"
proof
  assume "valid_build_cache_target t"
  then have t: "2 \<le> length t" "length t \<le> PATH_MAX_LEN" "hd t = slash" "last t \<noteq> slash"
      "path_parts_valid (tl t)"
    by (auto simp: valid_build_cache_target_def)
  then obtain q where q: "t = slash # q" "q \<noteq> []" by (cases t) (auto split: if_splits)
  with t path_parts_valid_components [of q]
  obtain cs where "cs \<noteq> []" "list_all proper_component cs" "q = rel_path cs"
    by auto
  with q t show "length t \<le> PATH_MAX_LEN \<and> (\<exists>cs. cs \<noteq> [] \<and> list_all proper_component cs \<and> t = abs_path cs)"
    by (intro conjI exI [of _ cs]) (cases cs; auto)+
next
  assume "length t \<le> PATH_MAX_LEN \<and> (\<exists>cs. cs \<noteq> [] \<and> list_all proper_component cs \<and> t = abs_path cs)"
  then obtain cs where "length t \<le> PATH_MAX_LEN" "cs \<noteq> []" "list_all proper_component cs" "t = abs_path cs"
    by auto
  then show "valid_build_cache_target t"
    using length_abs_path_ge_2 [of cs] last_abs_path [of cs] path_parts_valid_rel_path [of cs]
    by (auto simp: valid_build_cache_target_def)
qed

lemma abs_path_split:
  assumes "list_all proper_component cs" "list_all proper_component ds"
    and "abs_path ds = abs_path cs @ r" "r = [] \<or> hd r = slash"
  shows "prefix cs ds"
  using assms
proof (induction cs arbitrary: ds)
  case Nil
  then show ?case by simp
next
  case (Cons c cs)
  then obtain d ds' where ds: "ds = d # ds'" by (cases ds) auto
  have "takeWhile (\<lambda>x. x \<noteq> slash) (c @ abs_path cs @ r) = c"
    using Cons.prems(1,4)
    by (cases cs; cases r) (auto simp: proper_component_def takeWhile_append takeWhile_eq_all_conv)
  moreover have "takeWhile (\<lambda>x. x \<noteq> slash) (d @ abs_path ds') = d"
    using Cons.prems(2) by (auto simp: ds proper_component_def takeWhile_component)
  moreover have eq: "d @ abs_path ds' = c @ abs_path cs @ r"
    using Cons.prems(3) by (simp add: ds)
  ultimately have "d = c" by simp
  with eq have "abs_path ds' = abs_path cs @ r" by simp
  with Cons.IH [of ds'] Cons.prems have "prefix cs ds'" by (auto simp: ds)
  with \<open>d = c\<close> show ?case by (simp add: ds)
qed

lemma overlap_split:
  "build_cache_targets_overlap a b \<longleftrightarrow>
     (\<exists>r. (b = a @ r \<or> a = b @ r) \<and> (r = [] \<or> hd r = slash))"
  (is "_ \<longleftrightarrow> ?R a b")
proof -
  have lr: "length a < length b \<and> take (length a) b = a \<and> b ! length a = slash \<longleftrightarrow>
      (\<exists>r. b = a @ r \<and> r \<noteq> [] \<and> hd r = slash)" for a b :: bytes
  proof
    assume "length a < length b \<and> take (length a) b = a \<and> b ! length a = slash"
    then show "\<exists>r. b = a @ r \<and> r \<noteq> [] \<and> hd r = slash"
      by (intro exI [of _ "drop (length a) b"]) (metis append_take_drop_id drop_eq_Nil hd_drop_conv_nth leD)
  next
    assume "\<exists>r. b = a @ r \<and> r \<noteq> [] \<and> hd r = slash"
    then show "length a < length b \<and> take (length a) b = a \<and> b ! length a = slash"
      by (auto simp: nth_append hd_conv_nth)
  qed
  show ?thesis
    unfolding build_cache_targets_overlap_def lr [of a b] lr [of b a] by auto
qed

text \<open>C23. On accepted targets the byte-wise overlap test is exactly containment: two targets
  overlap when the components of one are a prefix of the components of the other.\<close>

theorem build_cache_targets_overlap_iff:
  assumes "list_all proper_component cs" "list_all proper_component ds"
  shows "build_cache_targets_overlap (abs_path cs) (abs_path ds) \<longleftrightarrow> prefix cs ds \<or> prefix ds cs"
proof
  assume "build_cache_targets_overlap (abs_path cs) (abs_path ds)"
  then show "prefix cs ds \<or> prefix ds cs"
    unfolding overlap_split using abs_path_split [OF assms] abs_path_split [OF assms(2,1)] by blast
next
  have "\<exists>r. abs_path ys = abs_path xs @ r \<and> (r = [] \<or> hd r = slash)" if "prefix xs ys" for xs ys :: "bytes list"
    using that by (auto elim!: prefixE intro: hd_abs_path)
  then show "prefix cs ds \<or> prefix ds cs \<Longrightarrow> build_cache_targets_overlap (abs_path cs) (abs_path ds)"
    unfolding overlap_split by blast
qed

theorem build_cache_targets_overlap_iff_witness:
  "build_cache_targets_overlap (lit ''/a/b'') (lit ''/a'') \<and>
   \<not> build_cache_targets_overlap (lit ''/ab'') (lit ''/a'')"
  using build_cache_targets_overlap_iff [of "[lit ''a'', lit ''b'']" "[lit ''a'']"]
    build_cache_targets_overlap_iff [of "[lit ''ab'']" "[lit ''a'']"]
  by (simp add: lit_def proper_component_def)

end
