(* ===== verification/Request.thy ===== *)
theory Request
  imports Json Paths
begin

text \<open>
  Request lines: \<^verbatim>\<open>struct run_request\<close> of \<^verbatim>\<open>agent.h\<close>, and the parsers of the values of
  its members in \<^verbatim>\<open>request.c\<close>, from \<open>parse_exec_argv_value\<close> to \<open>parse_request_member\<close>.

  A \<^verbatim>\<open>char\<close> array that holds a C string is the list of bytes before its NUL, so the
  zeroed array is \<open>[]\<close>. An \<^verbatim>\<open>argv\<close> or \<^verbatim>\<open>envp\<close> array is the list of strings before its
  NULL, and a counted array of structures is the list of its first \<open>count\<close> entries.
\<close>

section \<open>Data\<close>

datatype request_kind =
    REQUEST_READY | REQUEST_START | REQUEST_ATTACH | REQUEST_COPY_IN | REQUEST_COPY_OUT
  | REQUEST_BUILD_RUN | REQUEST_BUILD_COPY | REQUEST_BUILD_WORKDIR | REQUEST_ROOTFS_GROW
  | REQUEST_FSFREEZE | REQUEST_FSTHAW | REQUEST_INITIAL_OUTPUT

datatype request_stdio = REQUEST_STDIO_NULL | REQUEST_STDIO_PIPE | REQUEST_STDIO_TTY

text \<open>\<open>COPY_KIND_NONE\<close> is the 0 the zeroed request starts with.\<close>

datatype copy_kind = COPY_KIND_NONE | COPY_KIND_FILE | COPY_KIND_DIR | COPY_KIND_SYMLINK | COPY_KIND_AUTO

datatype copy_source = COPY_SOURCE_CONTEXT | COPY_SOURCE_BUILD_INPUT

datatype copy_destination = COPY_DESTINATION_FOLLOW | COPY_DESTINATION_LINK

definition MAX_ARGC :: nat where "MAX_ARGC = 16"

definition MAX_ENVC :: nat where "MAX_ENVC = 64"

definition MAX_ENV_LEN :: nat where "MAX_ENV_LEN = 256"

definition MAX_WORKDIR_LEN :: nat where "MAX_WORKDIR_LEN = 256"

definition MAX_REQUEST :: nat where "MAX_REQUEST = 8192"

definition MAX_ARG_STORAGE :: nat where "MAX_ARG_STORAGE = MAX_REQUEST"

definition MAX_COPY_PATH_LEN :: nat where "MAX_COPY_PATH_LEN = PATH_MAX_LEN"

definition MAX_BUILD_RUN_COMMAND_LEN :: u64 where "MAX_BUILD_RUN_COMMAND_LEN = 65536"

definition MAX_BUILD_EXEC_ARGS_BYTES :: nat where "MAX_BUILD_EXEC_ARGS_BYTES = 4096"

definition MAX_BUILD_INPUT_DISKS :: u64 where "MAX_BUILD_INPUT_DISKS = 2"

definition MAX_BUILD_CACHE_MOUNTS :: nat where "MAX_BUILD_CACHE_MOUNTS = 8"

definition MAX_BUILD_CONTEXT_BINDS :: nat where "MAX_BUILD_CONTEXT_BINDS = 8"

definition MAX_BUILD_CACHE_KEY_LEN :: nat where "MAX_BUILD_CACHE_KEY_LEN = CACHE_KEY_LEN"

definition MAX_BUILD_CONTEXT_COPY_ENTRIES :: u64 where "MAX_BUILD_CONTEXT_COPY_ENTRIES = 65536"

definition MAX_BUILD_NOFILE :: u64 where "MAX_BUILD_NOFILE = 1048576"

definition SESSION_ID_MAX :: nat where "SESSION_ID_MAX = 64"

record cache_mount =
  cm_target :: bytes
  cm_key :: bytes

record context_bind =
  cb_source :: bytes
  cb_target :: bytes

record run_request =
  r_kind :: request_kind
  r_session_id :: bytes
  r_stdout_offset :: u64
  r_stderr_offset :: u64
  r_resume_time_unix_ns :: u64
  r_stdio :: request_stdio
  r_stdin_enabled :: bool
  r_tty :: bool
  r_interactive :: bool
  r_terminal_rows :: u16
  r_terminal_cols :: u16
  r_memory_pressure :: bool
  r_detached :: bool
  r_retain_output :: bool
  r_require_generation_ready :: bool
  r_generation_params :: bytes
  r_copy_path :: bytes
  r_copy_source :: bytes
  r_copy_dest :: bytes
  r_copy_entry_count :: u64
  r_copy_source_kind :: copy_kind
  r_copy_source_disk :: copy_source
  r_copy_input_index :: u64
  r_copy_dest_is_dir :: bool
  r_copy_destination_policy :: copy_destination
  r_copy_mtime_present :: bool
  r_copy_mtime_unix_seconds :: i64
  r_build_command_len :: u64
  r_build_exec_form :: bool
  r_nofile_soft :: u64
  r_nofile_hard :: u64
  r_argv :: "bytes list"
  r_envp :: "bytes list"
  r_working_dir :: bytes
  r_cache_mounts :: "cache_mount list"
  r_context_binds :: "context_bind list"

text \<open>\<^verbatim>\<open>memset(out, 0, sizeof(*out))\<close>.\<close>

definition zero_request :: run_request where
  "zero_request = \<lparr>
     r_kind = REQUEST_READY, r_session_id = [], r_stdout_offset = 0, r_stderr_offset = 0,
     r_resume_time_unix_ns = 0, r_stdio = REQUEST_STDIO_NULL, r_stdin_enabled = False, r_tty = False,
     r_interactive = False, r_terminal_rows = 0, r_terminal_cols = 0, r_memory_pressure = False,
     r_detached = False, r_retain_output = False, r_require_generation_ready = False,
     r_generation_params = [], r_copy_path = [], r_copy_source = [], r_copy_dest = [],
     r_copy_entry_count = 0, r_copy_source_kind = COPY_KIND_NONE, r_copy_source_disk = COPY_SOURCE_CONTEXT,
     r_copy_input_index = 0, r_copy_dest_is_dir = False, r_copy_destination_policy = COPY_DESTINATION_FOLLOW,
     r_copy_mtime_present = False, r_copy_mtime_unix_seconds = 0, r_build_command_len = 0,
     r_build_exec_form = False, r_nofile_soft = 0, r_nofile_hard = 0, r_argv = [], r_envp = [],
     r_working_dir = [], r_cache_mounts = [], r_context_binds = []\<rparr>"

section \<open>Array values\<close>

text \<open>
  After an element: \<open>True\<close> at the closing bracket, which is consumed, else \<open>False\<close> with
  the cursor at the next element. A comma before the bracket is refused.
\<close>

definition next_element :: "u8 \<Rightarrow> cur \<Rightarrow> (bool \<times> cur) cres" where
  "next_element close p =
     bnd (skip_ws p) (\<lambda>p.
     bnd (rd p 0) (\<lambda>c.
     if c = close then Ok (True, drop 1 p)
     else if c \<noteq> of_char CHR '','' then Bad
     else
     bnd (skip_ws (drop 1 p)) (\<lambda>p.
     bnd (rd p 0) (\<lambda>c.
     if c = close then Bad else Ok (False, p)))))"

lemma next_element_length: "next_element close p = Ok (b, q) \<Longrightarrow> length q \<le> length p"
  by (auto simp: next_element_def split: if_splits dest!: skip_ws_length)

function argv_loop :: "bytes list \<Rightarrow> nat \<Rightarrow> cur \<Rightarrow> (bytes list \<times> cur) cres" where
  "argv_loop argv storage_len p =
     (if length argv \<ge> MAX_ARGC \<or> storage_len \<ge> MAX_ARG_STORAGE then Bad
      else
      bnd (parse_json_string (MAX_ARG_STORAGE - storage_len) p) (\<lambda>(arg, q).
      bnd (next_element (of_char CHR '']'') q) (\<lambda>(done, r).
      if done then Ok (argv @ [arg], r)
      else argv_loop (argv @ [arg]) (storage_len + (length arg + 1)) r)))"
  by pat_completeness auto
termination
  by (relation "measure (\<lambda>(argv, n, p). length p)")
     (auto dest!: parse_json_string_length next_element_length)

declare argv_loop.simps [simp del]

definition parse_exec_argv_value :: "cur \<Rightarrow> (bytes list \<times> cur) cres" where
  "parse_exec_argv_value p =
     bnd (rd p 0) (\<lambda>c. if c \<noteq> of_char CHR ''['' then Bad else
     bnd (skip_ws (drop 1 p)) (\<lambda>p.
     bnd (rd p 0) (\<lambda>c. if c = of_char CHR '']'' then Ok ([], drop 1 p) else
     bnd (argv_loop [] 0 p) (\<lambda>(argv, q).
     if first_byte (hd argv) = 0 then Bad else Ok (argv, q)))))"

function env_loop :: "bytes list \<Rightarrow> cur \<Rightarrow> (bytes list \<times> cur) cres" where
  "env_loop envp p =
     (if length envp \<ge> MAX_ENVC then Bad
      else
      bnd (parse_json_string MAX_ENV_LEN p) (\<lambda>(var, q).
      bnd (next_element (of_char CHR '']'') q) (\<lambda>(done, r).
      if done then Ok (envp @ [var], r) else env_loop (envp @ [var]) r)))"
  by pat_completeness auto
termination
  by (relation "measure (\<lambda>(envp, p). length p)")
     (auto dest!: parse_json_string_length next_element_length)

declare env_loop.simps [simp del]

definition parse_exec_env_value :: "cur \<Rightarrow> (bytes list \<times> cur) cres" where
  "parse_exec_env_value p =
     bnd (rd p 0) (\<lambda>c. if c \<noteq> of_char CHR ''['' then Bad else
     bnd (skip_ws (drop 1 p)) (\<lambda>p.
     bnd (rd p 0) (\<lambda>c. if c = of_char CHR '']'' then Ok ([], drop 1 p) else env_loop [] p)))"

text \<open>
  Cache mounts and context binds are arrays of objects with two string members. Both
  parsers of the source are the same loops over a member table: the member's name, the
  size of its buffer and its validity check. The first member sets bit 1 of \<open>seen\<close>, the
  second bit 2.
\<close>

record member_spec =
  ms_name :: bytes
  ms_cap :: nat
  ms_valid :: "bytes \<Rightarrow> bool"

definition pair_member ::
  "member_spec \<Rightarrow> member_spec \<Rightarrow> bytes \<Rightarrow> bytes \<times> bytes \<Rightarrow> cur \<Rightarrow> (u32 \<times> (bytes \<times> bytes) \<times> cur) cres" where
  "pair_member s1 s2 field e p =
     (if field = ms_name s1 then
        bnd (parse_json_string (ms_cap s1) p) (\<lambda>(v, q).
        if \<not> ms_valid s1 v then Bad else Ok (1, (v, snd e), q))
      else if field = ms_name s2 then
        bnd (parse_json_string (ms_cap s2) p) (\<lambda>(v, q).
        if \<not> ms_valid s2 v then Bad else Ok (2, (fst e, v), q))
      else Bad)"

lemma pair_member_length: "pair_member s1 s2 field e p = Ok (mb, e', q) \<Longrightarrow> length q < length p"
  by (auto simp: pair_member_def split: if_splits dest: parse_json_string_length)

function pair_object :: "member_spec \<Rightarrow> member_spec \<Rightarrow> u32 \<Rightarrow> bytes \<times> bytes \<Rightarrow> cur \<Rightarrow> (u32 \<times> (bytes \<times> bytes) \<times> cur) cres" where
  "pair_object s1 s2 seen e p =
     bnd (skip_ws p) (\<lambda>p1.
     bnd (rd p1 0) (\<lambda>c.
     if c = of_char CHR ''}'' then Ok (seen, e, drop 1 p1)
     else
     bnd (parse_json_key 16 p1) (\<lambda>(field, p2).
     bnd (pair_member s1 s2 field e p2) (\<lambda>(mb, e', p3).
     if seen AND mb \<noteq> 0 then Bad
     else
     bnd (next_element (of_char CHR ''}'') p3) (\<lambda>(done, p4).
     if done then Ok (seen OR mb, e', p4)
     else pair_object s1 s2 (seen OR mb) e' p4)))))"
  by pat_completeness auto
termination
  by (relation "measure (\<lambda>(s1, s2, seen, e, p). length p)")
     (auto dest!: skip_ws_length parse_json_key_length pair_member_length next_element_length)

declare pair_object.simps [simp del]

lemma pair_object_length: "pair_object s1 s2 seen e p = Ok (seen', e', q) \<Longrightarrow> length q < length p"
proof (induction s1 s2 seen e p rule: pair_object.induct)
  case (1 s1 s2 seen e p)
  from "1.prems" obtain p1 c where p1: "skip_ws p = Ok p1" "rd p1 0 = Ok c"
    by (subst (asm) pair_object.simps) auto
  have len: "0 < length p1" "length p1 \<le> length p"
    using p1 by (auto dest: skip_ws_length simp: rd_eq_Ok)
  show ?case
  proof (cases "c = of_char CHR ''}''")
    case True
    with "1.prems" p1 len show ?thesis by (cases p1) (auto simp: pair_object.simps [of s1 s2 seen e p])
  next
    case False
    with "1.prems" p1 obtain field p2 mb e2 p3 fin p4 where
      key: "parse_json_key 16 p1 = Ok (field, p2)" and
      mem: "pair_member s1 s2 field e p2 = Ok (mb, e2, p3)" and
      dup: "seen AND mb = 0" and
      nxt: "next_element (of_char CHR ''}'') p3 = Ok (fin, p4)" and
      rest: "if fin then q = p4 else pair_object s1 s2 (seen OR mb) e2 p4 = Ok (seen', e', q)"
      by (subst (asm) pair_object.simps) (auto split: if_splits)
    have p4: "length p4 < length p"
      using len parse_json_key_length [OF key] pair_member_length [OF mem] next_element_length [OF nxt]
      by linarith
    have IH: "\<not> fin \<Longrightarrow> length q < length p4"
      using "1.IH" [OF p1 False key refl mem refl refl _ nxt refl] dup rest by simp
    show ?thesis
    proof (cases fin)
      case True
      with rest p4 show ?thesis by simp
    next
      case False
      with IH p4 show ?thesis by simp
    qed
  qed
qed

function pairs_loop ::
  "member_spec \<Rightarrow> member_spec \<Rightarrow> (bytes \<times> bytes \<Rightarrow> bytes) \<Rightarrow> nat \<Rightarrow> (bytes \<times> bytes) list \<Rightarrow> cur \<Rightarrow>
   ((bytes \<times> bytes) list \<times> cur) cres" where
  "pairs_loop s1 s2 tgt limit entries p =
     (if length entries \<ge> limit then Bad
      else
      bnd (rd p 0) (\<lambda>c. if c \<noteq> of_char CHR ''{'' then Bad else
      bnd (pair_object s1 s2 0 ([], []) (drop 1 p)) (\<lambda>(seen, e, q).
      if seen \<noteq> 3 then Bad
      else if list_ex (\<lambda>prior. build_cache_targets_overlap (tgt prior) (tgt e)) entries then Bad
      else
      bnd (next_element (of_char CHR '']'') q) (\<lambda>(done, r).
      if done then Ok (entries @ [e], r)
      else pairs_loop s1 s2 tgt limit (entries @ [e]) r))))"
  by pat_completeness auto
termination
  by (relation "measure (\<lambda>(s1, s2, tgt, limit, entries, p). length p)")
     (auto dest!: pair_object_length next_element_length)

declare pairs_loop.simps [simp del]

definition pairs_value ::
  "member_spec \<Rightarrow> member_spec \<Rightarrow> (bytes \<times> bytes \<Rightarrow> bytes) \<Rightarrow> nat \<Rightarrow> cur \<Rightarrow> ((bytes \<times> bytes) list \<times> cur) cres" where
  "pairs_value s1 s2 tgt limit p =
     bnd (rd p 0) (\<lambda>c. if c \<noteq> of_char CHR ''['' then Bad else
     bnd (skip_ws (drop 1 p)) (\<lambda>p.
     bnd (rd p 0) (\<lambda>c. if c = of_char CHR '']'' then Ok ([], drop 1 p)
     else pairs_loop s1 s2 tgt limit [] p)))"

definition cache_target_spec :: member_spec where
  "cache_target_spec = \<lparr>ms_name = lit ''target'', ms_cap = MAX_COPY_PATH_LEN + 1, ms_valid = valid_build_cache_target\<rparr>"

definition cache_key_spec :: member_spec where
  "cache_key_spec = \<lparr>ms_name = lit ''key'', ms_cap = MAX_BUILD_CACHE_KEY_LEN + 1, ms_valid = valid_build_cache_key\<rparr>"

definition parse_build_cache_mounts_value :: "cur \<Rightarrow> (cache_mount list \<times> cur) cres" where
  "parse_build_cache_mounts_value p =
     bnd (pairs_value cache_target_spec cache_key_spec fst MAX_BUILD_CACHE_MOUNTS p) (\<lambda>(es, q).
     Ok (map (\<lambda>(t, k). \<lparr>cm_target = t, cm_key = k\<rparr>) es, q))"

definition bind_source_spec :: member_spec where
  "bind_source_spec = \<lparr>ms_name = lit ''source'', ms_cap = MAX_COPY_PATH_LEN + 1, ms_valid = valid_build_context_bind_source\<rparr>"

definition bind_target_spec :: member_spec where
  "bind_target_spec = \<lparr>ms_name = lit ''target'', ms_cap = MAX_COPY_PATH_LEN + 1, ms_valid = valid_build_context_bind_target\<rparr>"

definition parse_build_context_binds_value :: "cur \<Rightarrow> (context_bind list \<times> cur) cres" where
  "parse_build_context_binds_value p =
     bnd (pairs_value bind_source_spec bind_target_spec snd MAX_BUILD_CONTEXT_BINDS p) (\<lambda>(es, q).
     Ok (map (\<lambda>(s, t). \<lparr>cb_source = s, cb_target = t\<rparr>) es, q))"

section \<open>Request members\<close>

datatype request_member =
    MEMBER_TYPE | MEMBER_SESSION_ID | MEMBER_RESUME_TIME | MEMBER_ARGV | MEMBER_ENV |
    MEMBER_WORKING_DIR | MEMBER_STDIO | MEMBER_TERM | MEMBER_TERMINAL_ROWS |
    MEMBER_TERMINAL_COLS | MEMBER_INTERACTIVE | MEMBER_MEMORY_PRESSURE | MEMBER_PARAMS_JSON |
    MEMBER_REQUIRE_GENERATION_READY | MEMBER_DETACHED | MEMBER_RETAIN_OUTPUT |
    MEMBER_CLOSED_ENV | MEMBER_STDOUT_OFFSET | MEMBER_STDERR_OFFSET | MEMBER_PATH |
    MEMBER_COMMAND_LEN | MEMBER_CACHE_MOUNTS | MEMBER_CONTEXT_BINDS | MEMBER_NOFILE_SOFT |
    MEMBER_NOFILE_HARD | MEMBER_SOURCE | MEMBER_DEST | MEMBER_SOURCE_KIND | MEMBER_DEST_IS_DIR |
    MEMBER_ENTRY_COUNT | MEMBER_SOURCE_DISK | MEMBER_INPUT_INDEX | MEMBER_MTIME |
    MEMBER_DESTINATION_POLICY

definition request_members :: "request_member list" where
  "request_members = [
     MEMBER_TYPE, MEMBER_SESSION_ID, MEMBER_RESUME_TIME, MEMBER_ARGV, MEMBER_ENV,
     MEMBER_WORKING_DIR, MEMBER_STDIO, MEMBER_TERM, MEMBER_TERMINAL_ROWS, MEMBER_TERMINAL_COLS,
     MEMBER_INTERACTIVE, MEMBER_MEMORY_PRESSURE, MEMBER_PARAMS_JSON,
     MEMBER_REQUIRE_GENERATION_READY, MEMBER_DETACHED, MEMBER_RETAIN_OUTPUT, MEMBER_CLOSED_ENV,
     MEMBER_STDOUT_OFFSET, MEMBER_STDERR_OFFSET, MEMBER_PATH, MEMBER_COMMAND_LEN,
     MEMBER_CACHE_MOUNTS, MEMBER_CONTEXT_BINDS, MEMBER_NOFILE_SOFT, MEMBER_NOFILE_HARD,
     MEMBER_SOURCE, MEMBER_DEST, MEMBER_SOURCE_KIND, MEMBER_DEST_IS_DIR, MEMBER_ENTRY_COUNT,
     MEMBER_SOURCE_DISK, MEMBER_INPUT_INDEX, MEMBER_MTIME, MEMBER_DESTINATION_POLICY]"

fun member_index :: "request_member \<Rightarrow> nat" where
  "member_index MEMBER_TYPE = 0"
| "member_index MEMBER_SESSION_ID = 1"
| "member_index MEMBER_RESUME_TIME = 2"
| "member_index MEMBER_ARGV = 3"
| "member_index MEMBER_ENV = 4"
| "member_index MEMBER_WORKING_DIR = 5"
| "member_index MEMBER_STDIO = 6"
| "member_index MEMBER_TERM = 7"
| "member_index MEMBER_TERMINAL_ROWS = 8"
| "member_index MEMBER_TERMINAL_COLS = 9"
| "member_index MEMBER_INTERACTIVE = 10"
| "member_index MEMBER_MEMORY_PRESSURE = 11"
| "member_index MEMBER_PARAMS_JSON = 12"
| "member_index MEMBER_REQUIRE_GENERATION_READY = 13"
| "member_index MEMBER_DETACHED = 14"
| "member_index MEMBER_RETAIN_OUTPUT = 15"
| "member_index MEMBER_CLOSED_ENV = 16"
| "member_index MEMBER_STDOUT_OFFSET = 17"
| "member_index MEMBER_STDERR_OFFSET = 18"
| "member_index MEMBER_PATH = 19"
| "member_index MEMBER_COMMAND_LEN = 20"
| "member_index MEMBER_CACHE_MOUNTS = 21"
| "member_index MEMBER_CONTEXT_BINDS = 22"
| "member_index MEMBER_NOFILE_SOFT = 23"
| "member_index MEMBER_NOFILE_HARD = 24"
| "member_index MEMBER_SOURCE = 25"
| "member_index MEMBER_DEST = 26"
| "member_index MEMBER_SOURCE_KIND = 27"
| "member_index MEMBER_DEST_IS_DIR = 28"
| "member_index MEMBER_ENTRY_COUNT = 29"
| "member_index MEMBER_SOURCE_DISK = 30"
| "member_index MEMBER_INPUT_INDEX = 31"
| "member_index MEMBER_MTIME = 32"
| "member_index MEMBER_DESTINATION_POLICY = 33"

fun request_member_name :: "request_member \<Rightarrow> string" where
  "request_member_name MEMBER_TYPE = ''type''"
| "request_member_name MEMBER_SESSION_ID = ''session_id''"
| "request_member_name MEMBER_RESUME_TIME = ''resume_time_unix_ns''"
| "request_member_name MEMBER_ARGV = ''argv''"
| "request_member_name MEMBER_ENV = ''env''"
| "request_member_name MEMBER_WORKING_DIR = ''working_dir''"
| "request_member_name MEMBER_STDIO = ''stdio''"
| "request_member_name MEMBER_TERM = ''term''"
| "request_member_name MEMBER_TERMINAL_ROWS = ''terminal_rows''"
| "request_member_name MEMBER_TERMINAL_COLS = ''terminal_cols''"
| "request_member_name MEMBER_INTERACTIVE = ''interactive''"
| "request_member_name MEMBER_MEMORY_PRESSURE = ''memory_pressure''"
| "request_member_name MEMBER_PARAMS_JSON = ''params_json''"
| "request_member_name MEMBER_REQUIRE_GENERATION_READY = ''require_generation_ready''"
| "request_member_name MEMBER_DETACHED = ''detached''"
| "request_member_name MEMBER_RETAIN_OUTPUT = ''retain_output''"
| "request_member_name MEMBER_CLOSED_ENV = ''closed_env''"
| "request_member_name MEMBER_STDOUT_OFFSET = ''stdout_offset''"
| "request_member_name MEMBER_STDERR_OFFSET = ''stderr_offset''"
| "request_member_name MEMBER_PATH = ''path''"
| "request_member_name MEMBER_COMMAND_LEN = ''command_len''"
| "request_member_name MEMBER_CACHE_MOUNTS = ''cache_mounts''"
| "request_member_name MEMBER_CONTEXT_BINDS = ''context_binds''"
| "request_member_name MEMBER_NOFILE_SOFT = ''nofile_soft''"
| "request_member_name MEMBER_NOFILE_HARD = ''nofile_hard''"
| "request_member_name MEMBER_SOURCE = ''source''"
| "request_member_name MEMBER_DEST = ''dest''"
| "request_member_name MEMBER_SOURCE_KIND = ''source_kind''"
| "request_member_name MEMBER_DEST_IS_DIR = ''dest_is_dir''"
| "request_member_name MEMBER_ENTRY_COUNT = ''entry_count''"
| "request_member_name MEMBER_SOURCE_DISK = ''source_disk''"
| "request_member_name MEMBER_INPUT_INDEX = ''input_index''"
| "request_member_name MEMBER_MTIME = ''mtime_unix_seconds''"
| "request_member_name MEMBER_DESTINATION_POLICY = ''destination_policy''"

text \<open>\<^verbatim>\<open>UINT64_C(1) << member\<close>, and the union of the bits of a list of members.\<close>

definition member_bit :: "request_member \<Rightarrow> u64" where
  "member_bit m = push_bit (member_index m) 1"

definition member_mask :: "request_member list \<Rightarrow> u64" where
  "member_mask ms = foldr (\<lambda>m acc. member_bit m OR acc) ms 0"

definition EXEC_STDIO_MEMBERS :: "request_member list" where
  "EXEC_STDIO_MEMBERS = [MEMBER_STDIO, MEMBER_TERMINAL_ROWS, MEMBER_TERMINAL_COLS]"

text \<open>The request types, in the order of \<open>request_specs\<close>, with their members.\<close>

definition request_specs :: "(string \<times> request_kind \<times> request_member list) list" where
  "request_specs = [
     (''ready'', REQUEST_READY, [MEMBER_TYPE]),
     (''start-v1'', REQUEST_START,
        [MEMBER_TYPE, MEMBER_SESSION_ID, MEMBER_RESUME_TIME, MEMBER_ARGV, MEMBER_ENV, MEMBER_WORKING_DIR] @
        EXEC_STDIO_MEMBERS @
        [MEMBER_MEMORY_PRESSURE, MEMBER_PARAMS_JSON, MEMBER_REQUIRE_GENERATION_READY,
         MEMBER_DETACHED, MEMBER_RETAIN_OUTPUT, MEMBER_CLOSED_ENV]),
     (''attach-v1'', REQUEST_ATTACH,
        [MEMBER_TYPE, MEMBER_SESSION_ID, MEMBER_STDOUT_OFFSET, MEMBER_STDERR_OFFSET] @ EXEC_STDIO_MEMBERS @
        [MEMBER_INTERACTIVE, MEMBER_PARAMS_JSON]),
     (''initial-output'', REQUEST_INITIAL_OUTPUT, [MEMBER_TYPE]),
     (''copy-in-v1'', REQUEST_COPY_IN, [MEMBER_TYPE, MEMBER_SESSION_ID, MEMBER_PATH]),
     (''copy-out-v1'', REQUEST_COPY_OUT, [MEMBER_TYPE, MEMBER_SESSION_ID, MEMBER_PATH]),
     (''spore-build-run-v4'', REQUEST_BUILD_RUN,
        [MEMBER_TYPE, MEMBER_SESSION_ID, MEMBER_RESUME_TIME, MEMBER_COMMAND_LEN, MEMBER_ARGV, MEMBER_ENV,
         MEMBER_WORKING_DIR, MEMBER_CACHE_MOUNTS, MEMBER_CONTEXT_BINDS] @ EXEC_STDIO_MEMBERS @
        [MEMBER_TERM, MEMBER_MEMORY_PRESSURE, MEMBER_NOFILE_SOFT, MEMBER_NOFILE_HARD, MEMBER_CLOSED_ENV]),
     (''spore-build-copy-v5'', REQUEST_BUILD_COPY,
        [MEMBER_TYPE, MEMBER_SESSION_ID, MEMBER_SOURCE, MEMBER_DEST, MEMBER_SOURCE_KIND, MEMBER_DEST_IS_DIR,
         MEMBER_ENTRY_COUNT, MEMBER_SOURCE_DISK, MEMBER_INPUT_INDEX, MEMBER_MTIME, MEMBER_DESTINATION_POLICY]),
     (''spore-build-workdir-v1'', REQUEST_BUILD_WORKDIR, [MEMBER_TYPE, MEMBER_SESSION_ID, MEMBER_WORKING_DIR]),
     (''spore-rootfs-grow-v1'', REQUEST_ROOTFS_GROW, [MEMBER_TYPE, MEMBER_SESSION_ID]),
     (''fsfreeze-v1'', REQUEST_FSFREEZE, [MEMBER_TYPE, MEMBER_SESSION_ID]),
     (''fsthaw-v1'', REQUEST_FSTHAW, [MEMBER_TYPE, MEMBER_SESSION_ID])]"

text \<open>The scan of \<open>request_member_names\<close>: the last name equal to the key wins.\<close>

definition lookup_member :: "bytes \<Rightarrow> request_member option" where
  "lookup_member key =
     foldl (\<lambda>found m. if key = lit (request_member_name m) then Some m else found) None request_members"

definition parse_terminal_dimension :: "cur \<Rightarrow> (u16 \<times> cur) cres" where
  "parse_terminal_dimension p =
     bnd (parse_json_u64 p) (\<lambda>(v, q).
     if v = 0 \<or> v > 0xffff then Bad else Ok (ucast v, q))"

definition parse_stdio :: "cur \<Rightarrow> (request_stdio \<times> cur) cres" where
  "parse_stdio p =
     bnd (parse_json_string 8 p) (\<lambda>(s, q).
     if s = lit ''null'' then Ok (REQUEST_STDIO_NULL, q)
     else if s = lit ''pipe'' then Ok (REQUEST_STDIO_PIPE, q)
     else if s = lit ''tty'' then Ok (REQUEST_STDIO_TTY, q)
     else Bad)"

definition parse_source_kind :: "cur \<Rightarrow> (copy_kind \<times> cur) cres" where
  "parse_source_kind p =
     bnd (parse_json_string 16 p) (\<lambda>(s, q).
     if s = lit ''directory'' then Ok (COPY_KIND_DIR, q)
     else if s = lit ''file'' then Ok (COPY_KIND_FILE, q)
     else if s = lit ''sym_link'' then Ok (COPY_KIND_SYMLINK, q)
     else if s = lit ''auto'' then Ok (COPY_KIND_AUTO, q)
     else Bad)"

definition parse_source_disk :: "cur \<Rightarrow> (copy_source \<times> cur) cres" where
  "parse_source_disk p =
     bnd (parse_json_string 24 p) (\<lambda>(s, q).
     if s = lit ''context'' then Ok (COPY_SOURCE_CONTEXT, q)
     else if s = lit ''build_input'' then Ok (COPY_SOURCE_BUILD_INPUT, q)
     else Bad)"

definition parse_destination_policy :: "cur \<Rightarrow> (copy_destination \<times> cur) cres" where
  "parse_destination_policy p =
     bnd (parse_json_string 16 p) (\<lambda>(s, q).
     if s = lit ''follow'' then Ok (COPY_DESTINATION_FOLLOW, q)
     else if s = lit ''link'' then Ok (COPY_DESTINATION_LINK, q)
     else Bad)"

text \<open>
  One member: a parser for its value, the check its \<^verbatim>\<open>return\<close> makes, and the update of
  the request and of the \<open>type\<close> buffer.
\<close>

definition member_value ::
  "('a \<times> cur) cres \<Rightarrow> ('a \<Rightarrow> bool) \<Rightarrow> ('a \<Rightarrow> run_request) \<Rightarrow> bytes \<Rightarrow> (run_request \<times> bytes \<times> cur) cres" where
  "member_value parsed ok upd type =
     bnd parsed (\<lambda>(v, q). if ok v then Ok (upd v, type, q) else Bad)"

fun parse_request_member ::
  "request_member \<Rightarrow> cur \<Rightarrow> run_request \<Rightarrow> bytes \<Rightarrow> (run_request \<times> bytes \<times> cur) cres" where
  "parse_request_member MEMBER_TYPE p out type =
     bnd (parse_json_string 32 p) (\<lambda>(s, q). Ok (out, s, q))"
| "parse_request_member MEMBER_SESSION_ID p out type =
     member_value (parse_json_string SESSION_ID_MAX p) (\<lambda>s. s \<noteq> []) (\<lambda>s. out\<lparr>r_session_id := s\<rparr>) type"
| "parse_request_member MEMBER_RESUME_TIME p out type =
     member_value (parse_json_u64 p) (\<lambda>_. True) (\<lambda>v. out\<lparr>r_resume_time_unix_ns := v\<rparr>) type"
| "parse_request_member MEMBER_ARGV p out type =
     member_value (parse_exec_argv_value p) (\<lambda>_. True) (\<lambda>v. out\<lparr>r_argv := v\<rparr>) type"
| "parse_request_member MEMBER_ENV p out type =
     member_value (parse_exec_env_value p) (\<lambda>_. True) (\<lambda>v. out\<lparr>r_envp := v\<rparr>) type"
| "parse_request_member MEMBER_WORKING_DIR p out type =
     member_value (parse_json_string MAX_WORKDIR_LEN p) (\<lambda>_. True) (\<lambda>s. out\<lparr>r_working_dir := s\<rparr>) type"
| "parse_request_member MEMBER_STDIO p out type =
     member_value (parse_stdio p) (\<lambda>_. True) (\<lambda>v. out\<lparr>r_stdio := v\<rparr>) type"
| "parse_request_member MEMBER_TERM p out type =
     member_value (parse_json_string 8 p) (\<lambda>s. s = lit ''xterm'') (\<lambda>_. out) type"
| "parse_request_member MEMBER_TERMINAL_ROWS p out type =
     member_value (parse_terminal_dimension p) (\<lambda>_. True) (\<lambda>v. out\<lparr>r_terminal_rows := v\<rparr>) type"
| "parse_request_member MEMBER_TERMINAL_COLS p out type =
     member_value (parse_terminal_dimension p) (\<lambda>_. True) (\<lambda>v. out\<lparr>r_terminal_cols := v\<rparr>) type"
| "parse_request_member MEMBER_INTERACTIVE p out type =
     member_value (parse_json_bool p) (\<lambda>_. True) (\<lambda>b. out\<lparr>r_interactive := b\<rparr>) type"
| "parse_request_member MEMBER_MEMORY_PRESSURE p out type =
     member_value (parse_json_bool p) (\<lambda>_. True) (\<lambda>b. out\<lparr>r_memory_pressure := b\<rparr>) type"
| "parse_request_member MEMBER_PARAMS_JSON p out type =
     member_value (parse_json_string GEN_PARAMS_MAX p) (\<lambda>_. True) (\<lambda>s. out\<lparr>r_generation_params := s\<rparr>) type"
| "parse_request_member MEMBER_REQUIRE_GENERATION_READY p out type =
     member_value (parse_json_bool p) (\<lambda>_. True) (\<lambda>b. out\<lparr>r_require_generation_ready := b\<rparr>) type"
| "parse_request_member MEMBER_DETACHED p out type =
     member_value (parse_json_bool p) (\<lambda>_. True) (\<lambda>b. out\<lparr>r_detached := b\<rparr>) type"
| "parse_request_member MEMBER_RETAIN_OUTPUT p out type =
     member_value (parse_json_bool p) (\<lambda>_. True) (\<lambda>b. out\<lparr>r_retain_output := b\<rparr>) type"
| "parse_request_member MEMBER_CLOSED_ENV p out type =
     member_value (parse_json_bool p) (\<lambda>b. b) (\<lambda>_. out) type"
| "parse_request_member MEMBER_STDOUT_OFFSET p out type =
     member_value (parse_json_u64 p) (\<lambda>_. True) (\<lambda>v. out\<lparr>r_stdout_offset := v\<rparr>) type"
| "parse_request_member MEMBER_STDERR_OFFSET p out type =
     member_value (parse_json_u64 p) (\<lambda>_. True) (\<lambda>v. out\<lparr>r_stderr_offset := v\<rparr>) type"
| "parse_request_member MEMBER_PATH p out type =
     member_value (parse_json_string (MAX_COPY_PATH_LEN + 1) p) (\<lambda>_. True) (\<lambda>s. out\<lparr>r_copy_path := s\<rparr>) type"
| "parse_request_member MEMBER_COMMAND_LEN p out type =
     member_value (parse_json_u64 p) (\<lambda>v. \<not> v > MAX_BUILD_RUN_COMMAND_LEN)
       (\<lambda>v. out\<lparr>r_build_command_len := v\<rparr>) type"
| "parse_request_member MEMBER_CACHE_MOUNTS p out type =
     member_value (parse_build_cache_mounts_value p) (\<lambda>_. True) (\<lambda>v. out\<lparr>r_cache_mounts := v\<rparr>) type"
| "parse_request_member MEMBER_CONTEXT_BINDS p out type =
     member_value (parse_build_context_binds_value p) (\<lambda>_. True) (\<lambda>v. out\<lparr>r_context_binds := v\<rparr>) type"
| "parse_request_member MEMBER_NOFILE_SOFT p out type =
     member_value (parse_json_u64 p) (\<lambda>_. True) (\<lambda>v. out\<lparr>r_nofile_soft := v\<rparr>) type"
| "parse_request_member MEMBER_NOFILE_HARD p out type =
     member_value (parse_json_u64 p) (\<lambda>_. True) (\<lambda>v. out\<lparr>r_nofile_hard := v\<rparr>) type"
| "parse_request_member MEMBER_SOURCE p out type =
     member_value (parse_json_string (MAX_COPY_PATH_LEN + 1) p) (\<lambda>s. s \<noteq> []) (\<lambda>s. out\<lparr>r_copy_source := s\<rparr>) type"
| "parse_request_member MEMBER_DEST p out type =
     member_value (parse_json_string (MAX_COPY_PATH_LEN + 1) p) (\<lambda>s. first_byte s = slash)
       (\<lambda>s. out\<lparr>r_copy_dest := s\<rparr>) type"
| "parse_request_member MEMBER_SOURCE_KIND p out type =
     member_value (parse_source_kind p) (\<lambda>_. True) (\<lambda>v. out\<lparr>r_copy_source_kind := v\<rparr>) type"
| "parse_request_member MEMBER_DEST_IS_DIR p out type =
     member_value (parse_json_bool p) (\<lambda>_. True) (\<lambda>b. out\<lparr>r_copy_dest_is_dir := b\<rparr>) type"
| "parse_request_member MEMBER_ENTRY_COUNT p out type =
     member_value (parse_json_u64 p) (\<lambda>v. \<not> v > MAX_BUILD_CONTEXT_COPY_ENTRIES)
       (\<lambda>v. out\<lparr>r_copy_entry_count := v\<rparr>) type"
| "parse_request_member MEMBER_SOURCE_DISK p out type =
     member_value (parse_source_disk p) (\<lambda>_. True) (\<lambda>v. out\<lparr>r_copy_source_disk := v\<rparr>) type"
| "parse_request_member MEMBER_INPUT_INDEX p out type =
     member_value (parse_json_u64 p) (\<lambda>v. \<not> v \<ge> MAX_BUILD_INPUT_DISKS)
       (\<lambda>v. out\<lparr>r_copy_input_index := v\<rparr>) type"
| "parse_request_member MEMBER_MTIME p out type =
     member_value (parse_json_optional_i64 p) (\<lambda>_. True)
       (\<lambda>v. out\<lparr>r_copy_mtime_present := v \<noteq> None,
              r_copy_mtime_unix_seconds := (case v of None \<Rightarrow> 0 | Some t \<Rightarrow> t)\<rparr>) type"
| "parse_request_member MEMBER_DESTINATION_POLICY p out type =
     member_value (parse_destination_policy p) (\<lambda>_. True)
       (\<lambda>v. out\<lparr>r_copy_destination_policy := v\<rparr>) type"

subsection \<open>Progress\<close>

lemma argv_loop_length: "argv_loop argv n p = Ok (r, q) \<Longrightarrow> length q < length p"
proof (induction argv n p rule: argv_loop.induct)
  case (1 argv n p)
  from "1.prems" obtain arg p1 fin p2 where
    room: "\<not> (length argv \<ge> MAX_ARGC \<or> n \<ge> MAX_ARG_STORAGE)" and
    str: "parse_json_string (MAX_ARG_STORAGE - n) p = Ok (arg, p1)" and
    nxt: "next_element (of_char CHR '']'') p1 = Ok (fin, p2)" and
    rest: "if fin then q = p2 else argv_loop (argv @ [arg]) (n + (length arg + 1)) p2 = Ok (r, q)"
    by (subst (asm) argv_loop.simps) (auto split: if_splits)
  have "length p2 < length p"
    using parse_json_string_length [OF str] next_element_length [OF nxt] by linarith
  with rest "1.IH" [OF room str refl nxt refl] show ?case by (cases fin) auto
qed

lemma env_loop_length: "env_loop envp p = Ok (r, q) \<Longrightarrow> length q < length p"
proof (induction envp p rule: env_loop.induct)
  case (1 envp p)
  from "1.prems" obtain var p1 fin p2 where
    room: "\<not> length envp \<ge> MAX_ENVC" and
    str: "parse_json_string MAX_ENV_LEN p = Ok (var, p1)" and
    nxt: "next_element (of_char CHR '']'') p1 = Ok (fin, p2)" and
    rest: "if fin then q = p2 else env_loop (envp @ [var]) p2 = Ok (r, q)"
    by (subst (asm) env_loop.simps) (auto split: if_splits)
  have "length p2 < length p"
    using parse_json_string_length [OF str] next_element_length [OF nxt] by linarith
  with rest "1.IH" [OF room str refl nxt refl] show ?case by (cases fin) auto
qed

lemma pairs_loop_length: "pairs_loop s1 s2 tgt limit es p = Ok (r, q) \<Longrightarrow> length q < length p"
proof (induction s1 s2 tgt limit es p rule: pairs_loop.induct)
  case (1 s1 s2 tgt limit es p)
  from "1.prems" obtain c e p1 fin p2 where
    room: "\<not> length es \<ge> limit" and
    c: "rd p 0 = Ok c" "\<not> c \<noteq> of_char CHR ''{''" and
    obj: "pair_object s1 s2 0 ([], []) (drop 1 p) = Ok (3, e, p1)" and
    ovl: "\<not> list_ex (\<lambda>prior. build_cache_targets_overlap (tgt prior) (tgt e)) es" and
    nxt: "next_element (of_char CHR '']'') p1 = Ok (fin, p2)" and
    rest: "if fin then q = p2 else pairs_loop s1 s2 tgt limit (es @ [e]) p2 = Ok (r, q)"
    by (subst (asm) pairs_loop.simps) (auto split: if_splits)
  have "length p2 < length p"
    using pair_object_length [OF obj] next_element_length [OF nxt] by simp
  with rest "1.IH" [OF room c obj refl refl _ ovl nxt refl] show ?case by (cases fin) auto
qed

lemma bracketed_length:
  assumes "bnd (rd p 0) (\<lambda>c. if c \<noteq> of_char CHR ''['' then Bad else
     bnd (skip_ws (drop 1 p)) (\<lambda>p.
     bnd (rd p 0) (\<lambda>c. if c = of_char CHR '']'' then Ok ([], drop 1 p) else f p))) = Ok (r, q)"
    and "\<And>p r. f p = Ok (r, q) \<Longrightarrow> length q < length p"
  shows "length q < length p"
  using assms by (cases p) (fastforce split: if_splits dest: skip_ws_length)+

lemma parse_exec_argv_value_length: "parse_exec_argv_value p = Ok (r, q) \<Longrightarrow> length q < length p"
  unfolding parse_exec_argv_value_def
  by (erule bracketed_length) (auto split: if_splits dest: argv_loop_length)

lemma parse_exec_env_value_length: "parse_exec_env_value p = Ok (r, q) \<Longrightarrow> length q < length p"
  unfolding parse_exec_env_value_def
  by (erule bracketed_length) (rule env_loop_length)

lemma pairs_value_length: "pairs_value s1 s2 tgt limit p = Ok (r, q) \<Longrightarrow> length q < length p"
  unfolding pairs_value_def
  by (erule bracketed_length) (rule pairs_loop_length)

lemma parse_json_optional_i64_length: "parse_json_optional_i64 p = Ok (v, q) \<Longrightarrow> length q \<le> length p"
  by (auto simp: parse_json_optional_i64_def Let_def split: if_splits dest!: parse_json_u64_length)

lemma parse_request_member_length:
  "parse_request_member m p out type = Ok (out', type', q) \<Longrightarrow> length q \<le> length p"
  by (cases m)
     (auto simp: member_value_def parse_terminal_dimension_def parse_stdio_def parse_source_kind_def
        parse_source_disk_def parse_destination_policy_def parse_build_cache_mounts_value_def
        parse_build_context_binds_value_def
      split: if_splits
      dest!: parse_json_string_length parse_json_u64_length parse_json_bool_length
        parse_exec_argv_value_length parse_exec_env_value_length pairs_value_length
        parse_json_optional_i64_length)

end
