(* ===== verification/Request_Safety.thy ===== *)
theory Request_Safety
  imports Parse_Request
begin

text \<open>
  Memory safety of the request parser and the invariants of what it stores. Each lemma
  gives both at once: on a NUL-terminated cursor the parser stays inside its buffers, and
  the value it returns has the bounds its C buffers impose.
\<close>

section \<open>Array values\<close>

lemma sat_next_element: "cstr p \<Longrightarrow> close \<noteq> 0 \<Longrightarrow> sat (next_element close p) (\<lambda>(b, q). cstr q)"
  unfolding next_element_def
  by (rule sat_seq, erule sat_skip_ws, rule sat_seq, erule sat_rd0)
     (auto intro!: sat_if sat_seq [OF sat_skip_ws] sat_seq [OF sat_rd0] simp del: sat_bnd)

text \<open>The strings of an argv, each with its NUL, fit the argument storage.\<close>

definition argv_ok :: "bytes list \<Rightarrow> bool" where
  "argv_ok argv \<longleftrightarrow> length argv \<le> MAX_ARGC \<and> list_all (\<lambda>s. 0 \<notin> set s) argv \<and>
     sum_list (map (\<lambda>s. length s + 1) argv) \<le> MAX_ARG_STORAGE"

definition envp_ok :: "bytes list \<Rightarrow> bool" where
  "envp_ok envp \<longleftrightarrow> length envp \<le> MAX_ENVC \<and> list_all (\<lambda>s. 0 \<notin> set s \<and> length s < MAX_ENV_LEN) envp"

lemma argv_ok_Nil [simp]: "argv_ok []"
  by (simp add: argv_ok_def)

lemma envp_ok_Nil [simp]: "envp_ok []"
  by (simp add: envp_ok_def)

lemma sat_argv_loop:
  "cstr p \<Longrightarrow> argv_ok argv \<Longrightarrow> n = sum_list (map (\<lambda>s. length s + 1) argv) \<Longrightarrow>
   sat (argv_loop argv n p) (\<lambda>(r, q). argv_ok r \<and> r \<noteq> [] \<and> cstr q)"
proof (induction argv n p rule: argv_loop.induct)
  case (1 argv n p)
  show ?case
  proof (subst argv_loop.simps, intro sat_if, simp)
    assume room: "\<not> (length argv \<ge> MAX_ARGC \<or> n \<ge> MAX_ARG_STORAGE)"
    then have cap: "0 < MAX_ARG_STORAGE - n" by simp
    show "sat (bnd (parse_json_string (MAX_ARG_STORAGE - n) p) (\<lambda>(arg, q).
        bnd (next_element (of_char CHR '']'') q) (\<lambda>(done, r).
        if done then Ok (argv @ [arg], r)
        else argv_loop (argv @ [arg]) (n + (length arg + 1)) r)))
      (\<lambda>(r, q). argv_ok r \<and> r \<noteq> [] \<and> cstr q)"
    proof (rule sat_seq [OF sat_parse_json_string [OF "1.prems"(1) cap]], goal_cases)
      case (1 x)
      then obtain arg q where x: "x = (arg, q)" "length arg < MAX_ARG_STORAGE - n" "0 \<notin> set arg" "cstr q"
        "parse_json_string (MAX_ARG_STORAGE - n) p = Ok (arg, q)"
        by (cases x) auto
      have ok: "argv_ok (argv @ [arg])"
        using "1.prems"(2,3) room x by (auto simp: argv_ok_def)
      have "sat (bnd (next_element (of_char CHR '']'') q) (\<lambda>(done, r).
          if done then Ok (argv @ [arg], r)
          else argv_loop (argv @ [arg]) (n + (length arg + 1)) r))
        (\<lambda>(r, q). argv_ok r \<and> r \<noteq> [] \<and> cstr q)"
        using ok "1.prems"(3) "1.IH" [OF room x(5) refl]
        by (intro sat_seq [OF sat_next_element [OF x(4)]]) (auto split: prod.splits)
      then show ?case by (simp add: x)
    qed
  qed
qed

lemma sat_env_loop:
  "cstr p \<Longrightarrow> envp_ok envp \<Longrightarrow> sat (env_loop envp p) (\<lambda>(r, q). envp_ok r \<and> cstr q)"
proof (induction envp p rule: env_loop.induct)
  case (1 envp p)
  show ?case
  proof (subst env_loop.simps, intro sat_if, simp)
    assume room: "\<not> length envp \<ge> MAX_ENVC"
    show "sat (bnd (parse_json_string MAX_ENV_LEN p) (\<lambda>(var, q).
        bnd (next_element (of_char CHR '']'') q) (\<lambda>(done, r).
        if done then Ok (envp @ [var], r) else env_loop (envp @ [var]) r)))
      (\<lambda>(r, q). envp_ok r \<and> cstr q)"
    proof (rule sat_seq [OF sat_parse_json_string [OF "1.prems"(1)]], simp add: MAX_ENV_LEN_def, goal_cases)
      case (1 x)
      then obtain var q where x: "x = (var, q)" "length var < MAX_ENV_LEN" "0 \<notin> set var" "cstr q"
        "parse_json_string MAX_ENV_LEN p = Ok (var, q)"
        by (cases x) auto
      have ok: "envp_ok (envp @ [var])"
        using "1.prems"(2) room x by (auto simp: envp_ok_def)
      have "sat (bnd (next_element (of_char CHR '']'') q) (\<lambda>(done, r).
          if done then Ok (envp @ [var], r) else env_loop (envp @ [var]) r))
        (\<lambda>(r, q). envp_ok r \<and> cstr q)"
        using ok "1.IH" [OF room x(5) refl]
        by (intro sat_seq [OF sat_next_element [OF x(4)]]) (auto split: prod.splits)
      then show ?case by (simp add: x)
    qed
  qed
qed

text \<open>The shared shape of the array parsers: a bracket, white space, an empty array or the loop.\<close>

lemma sat_bracketed:
  assumes "cstr p" "\<And>p. cstr p \<Longrightarrow> sat (f p) (\<lambda>(r, q). P r \<and> cstr q)" "P []"
  shows "sat (bnd (rd p 0) (\<lambda>c. if c \<noteq> of_char CHR ''['' then Bad else
     bnd (skip_ws (drop 1 p)) (\<lambda>p.
     bnd (rd p 0) (\<lambda>c. if c = of_char CHR '']'' then Ok ([], drop 1 p) else f p))))
     (\<lambda>(r, q). P r \<and> cstr q)"
  using assms
  by (intro sat_seq [OF sat_rd0] sat_if)
     (auto intro!: sat_seq [OF sat_skip_ws] sat_seq [OF sat_rd0] sat_if simp del: sat_bnd)

lemma sat_parse_exec_argv_value:
  "cstr p \<Longrightarrow> sat (parse_exec_argv_value p) (\<lambda>(r, q). argv_ok r \<and> (r \<noteq> [] \<longrightarrow> hd r \<noteq> []) \<and> cstr q)"
  unfolding parse_exec_argv_value_def
  by (rule sat_mono, rule sat_bracketed [where P = "\<lambda>r. argv_ok r \<and> (r \<noteq> [] \<longrightarrow> hd r \<noteq> [])"])
     (auto intro!: sat_seq [OF sat_argv_loop] sat_if simp: first_byte_def simp del: sat_bnd)

lemma sat_parse_exec_env_value: "cstr p \<Longrightarrow> sat (parse_exec_env_value p) (\<lambda>(r, q). envp_ok r \<and> cstr q)"
  unfolding parse_exec_env_value_def
  by (rule sat_bracketed) (auto intro!: sat_env_loop)

text \<open>
  The bits of \<open>seen\<close> tell which of the two strings of an entry passed its check.
\<close>

definition pair_seen :: "member_spec \<Rightarrow> member_spec \<Rightarrow> u32 \<Rightarrow> bytes \<times> bytes \<Rightarrow> bool" where
  "pair_seen s1 s2 seen e \<longleftrightarrow>
     seen \<in> {0, 1, 2, 3} \<and>
     (seen \<in> {1, 3} \<longrightarrow> ms_valid s1 (fst e) \<and> 0 \<notin> set (fst e)) \<and>
     (seen \<in> {2, 3} \<longrightarrow> ms_valid s2 (snd e) \<and> 0 \<notin> set (snd e))"

lemma sat_pair_member:
  assumes "cstr p" "pair_seen s1 s2 seen e" "0 < ms_cap s1" "0 < ms_cap s2"
  shows "sat (pair_member s1 s2 field e p)
    (\<lambda>(mb, e', q). (seen AND mb = 0 \<longrightarrow> pair_seen s1 s2 (seen OR mb) e') \<and> cstr q)"
  unfolding pair_member_def
proof (intro sat_if)
  show "sat (bnd (parse_json_string (ms_cap s1) p) (\<lambda>(v, q).
      if \<not> ms_valid s1 v then Bad else Ok (1, (v, snd e), q)))
    (\<lambda>(mb, e', q). (seen AND mb = 0 \<longrightarrow> pair_seen s1 s2 (seen OR mb) e') \<and> cstr q)"
    using assms(2)
    by (intro sat_seq [OF sat_parse_json_string [OF assms(1,3)]]) (auto simp: pair_seen_def)
  show "sat (bnd (parse_json_string (ms_cap s2) p) (\<lambda>(v, q).
      if \<not> ms_valid s2 v then Bad else Ok (2, (fst e, v), q)))
    (\<lambda>(mb, e', q). (seen AND mb = 0 \<longrightarrow> pair_seen s1 s2 (seen OR mb) e') \<and> cstr q)"
    using assms(2)
    by (intro sat_seq [OF sat_parse_json_string [OF assms(1,4)]]) (auto simp: pair_seen_def)
qed simp

lemma sat_pair_object:
  "cstr p \<Longrightarrow> pair_seen s1 s2 seen e \<Longrightarrow> 0 < ms_cap s1 \<Longrightarrow> 0 < ms_cap s2 \<Longrightarrow>
   sat (pair_object s1 s2 seen e p) (\<lambda>(seen', e', q). pair_seen s1 s2 seen' e' \<and> cstr q)"
proof (induction s1 s2 seen e p rule: pair_object.induct)
  case (1 s1 s2 seen e p)
  let ?Q = "\<lambda>(seen', e', q). pair_seen s1 s2 seen' e' \<and> cstr q"
  have next_member: "sat (bnd (parse_json_key 16 p1) (\<lambda>(field, p2).
      bnd (pair_member s1 s2 field e p2) (\<lambda>(mb, e', p3).
      if seen AND mb \<noteq> 0 then Bad
      else bnd (next_element (of_char CHR ''}'') p3) (\<lambda>(done, p4).
        if done then Ok (seen OR mb, e', p4) else pair_object s1 s2 (seen OR mb) e' p4)))) ?Q"
    if p1: "skip_ws p = Ok p1" "rd p1 0 = Ok c" "c \<noteq> of_char CHR ''}''" "cstr p1" for p1 c
  proof (rule sat_seq [OF sat_parse_json_key [OF p1(4)]], simp, goal_cases)
    case (1 x)
    then obtain field p2 where x: "x = (field, p2)" "parse_json_key 16 p1 = Ok (field, p2)" "cstr p2"
      by (cases x) auto
    have "sat (bnd (pair_member s1 s2 field e p2) (\<lambda>(mb, e', p3).
      if seen AND mb \<noteq> 0 then Bad
      else bnd (next_element (of_char CHR ''}'') p3) (\<lambda>(done, p4).
        if done then Ok (seen OR mb, e', p4) else pair_object s1 s2 (seen OR mb) e' p4))) ?Q"
    proof (rule sat_seq [OF sat_pair_member [OF x(3) "1.prems"(2,3,4)]], goal_cases)
      case (1 y)
      then obtain mb e' p3 where y: "y = (mb, e', p3)" "pair_member s1 s2 field e p2 = Ok (mb, e', p3)"
          "cstr p3" "seen AND mb = 0 \<Longrightarrow> pair_seen s1 s2 (seen OR mb) e'"
        by (cases y) auto
      have "sat (bnd (next_element (of_char CHR ''}'') p3) (\<lambda>(done, p4).
        if done then Ok (seen OR mb, e', p4) else pair_object s1 s2 (seen OR mb) e' p4)) ?Q"
        if "\<not> seen AND mb \<noteq> 0"
        using that y(4) "1.prems"(3,4) "1.IH" [OF p1(1,2,3) x(2) refl y(2) refl refl that]
        by (intro sat_seq [OF sat_next_element [OF y(3)]]) (auto split: prod.splits)
      then show ?case by (auto simp: y(1) simp del: sat_bnd)
    qed
    then show ?case by (simp add: x(1) del: sat_bnd)
  qed
  show ?case
    using "1.prems"(1,2) next_member
    by (subst pair_object.simps)
       (auto intro!: sat_seq [OF sat_skip_ws] sat_seq [OF sat_rd0] sat_if simp del: sat_bnd)
qed

text \<open>
  What an accepted array of pairs is: at most \<open>limit\<close> entries, each valid, and no two
  with overlapping targets.
\<close>

definition pairs_ok ::
  "member_spec \<Rightarrow> member_spec \<Rightarrow> (bytes \<times> bytes \<Rightarrow> bytes) \<Rightarrow> nat \<Rightarrow> (bytes \<times> bytes) list \<Rightarrow> bool" where
  "pairs_ok s1 s2 tgt limit es \<longleftrightarrow>
     length es \<le> limit \<and>
     list_all (\<lambda>e. ms_valid s1 (fst e) \<and> 0 \<notin> set (fst e) \<and> ms_valid s2 (snd e) \<and> 0 \<notin> set (snd e)) es \<and>
     sorted_wrt (\<lambda>a b. \<not> build_cache_targets_overlap (tgt a) (tgt b)) es"

lemma sat_pairs_loop:
  "cstr p \<Longrightarrow> pairs_ok s1 s2 tgt limit es \<Longrightarrow> 0 < ms_cap s1 \<Longrightarrow> 0 < ms_cap s2 \<Longrightarrow>
   sat (pairs_loop s1 s2 tgt limit es p) (\<lambda>(r, q). pairs_ok s1 s2 tgt limit r \<and> cstr q)"
proof (induction s1 s2 tgt limit es p rule: pairs_loop.induct)
  case (1 s1 s2 tgt limit es p)
  let ?Q = "\<lambda>(r, q). pairs_ok s1 s2 tgt limit r \<and> cstr q"
  have entry: "sat (bnd (pair_object s1 s2 0 ([], []) (drop 1 p)) (\<lambda>(seen, e, q).
      if seen \<noteq> 3 then Bad
      else if list_ex (\<lambda>prior. build_cache_targets_overlap (tgt prior) (tgt e)) es then Bad
      else bnd (next_element (of_char CHR '']'') q) (\<lambda>(done, r).
        if done then Ok (es @ [e], r) else pairs_loop s1 s2 tgt limit (es @ [e]) r))) ?Q"
    if room: "\<not> length es \<ge> limit" and c: "rd p 0 = Ok c" "\<not> c \<noteq> of_char CHR ''{''"
      and p: "cstr (drop 1 p)" for c
  proof (rule sat_seq [OF sat_pair_object [OF p _ "1.prems"(3,4)]], simp add: pair_seen_def, goal_cases)
    case (1 x)
    then obtain seen e q where x: "x = (seen, e, q)" "pair_object s1 s2 0 ([], []) (drop 1 p) = Ok (seen, e, q)"
        "pair_seen s1 s2 seen e" "cstr q"
      by (cases x) auto
    have "sat (bnd (next_element (of_char CHR '']'') q) (\<lambda>(done, r).
        if done then Ok (es @ [e], r) else pairs_loop s1 s2 tgt limit (es @ [e]) r)) ?Q"
      if seen: "\<not> seen \<noteq> 3"
        and free: "\<not> list_ex (\<lambda>prior. build_cache_targets_overlap (tgt prior) (tgt e)) es"
    proof -
      have "pairs_ok s1 s2 tgt limit (es @ [e])"
        using "1.prems"(2) room x(3) seen free
        by (auto simp: pairs_ok_def pair_seen_def sorted_wrt_append list_ex_iff)
      with "1.prems"(3,4) "1.IH" [OF room c x(2) refl refl seen free] show ?thesis
        by (intro sat_seq [OF sat_next_element [OF x(4)]]) (auto split: prod.splits)
    qed
    then show ?case by (auto simp: x(1) intro!: sat_if simp del: sat_bnd)
  qed
  show ?case
    using "1.prems"(1) entry
    by (subst pairs_loop.simps)
       (auto intro!: sat_seq [OF sat_rd0] sat_if simp del: sat_bnd)
qed

lemma sat_pairs_value:
  "cstr p \<Longrightarrow> 0 < ms_cap s1 \<Longrightarrow> 0 < ms_cap s2 \<Longrightarrow>
   sat (pairs_value s1 s2 tgt limit p) (\<lambda>(r, q). pairs_ok s1 s2 tgt limit r \<and> cstr q)"
  unfolding pairs_value_def
  by (rule sat_bracketed) (auto intro!: sat_pairs_loop simp: pairs_ok_def [of _ _ _ _ "[]"])

definition cache_mounts_ok :: "cache_mount list \<Rightarrow> bool" where
  "cache_mounts_ok ms \<longleftrightarrow>
     length ms \<le> MAX_BUILD_CACHE_MOUNTS \<and>
     list_all (\<lambda>m. valid_build_cache_target (cm_target m) \<and> valid_build_cache_key (cm_key m)) ms \<and>
     sorted_wrt (\<lambda>a b. \<not> build_cache_targets_overlap (cm_target a) (cm_target b)) ms"

definition context_binds_ok :: "context_bind list \<Rightarrow> bool" where
  "context_binds_ok bs \<longleftrightarrow>
     length bs \<le> MAX_BUILD_CONTEXT_BINDS \<and>
     list_all (\<lambda>b. valid_build_context_bind_source (cb_source b) \<and> valid_build_context_bind_target (cb_target b)) bs \<and>
     sorted_wrt (\<lambda>a b. \<not> build_cache_targets_overlap (cb_target a) (cb_target b)) bs"

lemma sat_parse_build_cache_mounts_value:
  "cstr p \<Longrightarrow> sat (parse_build_cache_mounts_value p) (\<lambda>(r, q). cache_mounts_ok r \<and> cstr q)"
  unfolding parse_build_cache_mounts_value_def
  by (rule sat_seq, erule sat_pairs_value)
     (auto simp: cache_target_spec_def cache_key_spec_def pairs_ok_def cache_mounts_ok_def list_all_iff
       sorted_wrt_map case_prod_beta)

lemma sat_parse_build_context_binds_value:
  "cstr p \<Longrightarrow> sat (parse_build_context_binds_value p) (\<lambda>(r, q). context_binds_ok r \<and> cstr q)"
  unfolding parse_build_context_binds_value_def
  by (rule sat_seq, erule sat_pairs_value)
     (auto simp: bind_source_spec_def bind_target_spec_def pairs_ok_def context_binds_ok_def list_all_iff
       sorted_wrt_map case_prod_beta)

section \<open>Requests\<close>

text \<open>A string that fits a buffer of \<open>cap\<close> bytes with its NUL.\<close>

definition fits :: "nat \<Rightarrow> bytes \<Rightarrow> bool" where
  "fits cap s \<longleftrightarrow> length s < cap \<and> 0 \<notin> set s"

lemma fits_Nil [simp]: "0 < cap \<Longrightarrow> fits cap []"
  by (simp add: fits_def)

text \<open>The invariant of \<^verbatim>\<open>struct run_request\<close> while it is filled in.\<close>

definition request_wf :: "run_request \<Rightarrow> bool" where
  "request_wf r \<longleftrightarrow>
     fits SESSION_ID_MAX (r_session_id r) \<and>
     fits GEN_PARAMS_MAX (r_generation_params r) \<and>
     fits (MAX_COPY_PATH_LEN + 1) (r_copy_path r) \<and>
     fits (MAX_COPY_PATH_LEN + 1) (r_copy_source r) \<and>
     fits (MAX_COPY_PATH_LEN + 1) (r_copy_dest r) \<and>
     fits MAX_WORKDIR_LEN (r_working_dir r) \<and>
     argv_ok (r_argv r) \<and> (r_argv r \<noteq> [] \<longrightarrow> hd (r_argv r) \<noteq> []) \<and>
     envp_ok (r_envp r) \<and>
     cache_mounts_ok (r_cache_mounts r) \<and>
     context_binds_ok (r_context_binds r) \<and>
     r_build_command_len r \<le> MAX_BUILD_RUN_COMMAND_LEN \<and>
     r_copy_entry_count r \<le> MAX_BUILD_CONTEXT_COPY_ENTRIES \<and>
     r_copy_input_index r < MAX_BUILD_INPUT_DISKS"

lemma request_wf_zero: "request_wf zero_request"
  by (simp add: request_wf_def zero_request_def cache_mounts_ok_def context_binds_ok_def
    SESSION_ID_MAX_def GEN_PARAMS_MAX_def MAX_WORKDIR_LEN_def MAX_BUILD_INPUT_DISKS_def)

lemma sat_string_fits:
  "cstr p \<Longrightarrow> 0 < cap \<Longrightarrow> sat (parse_json_string cap p) (\<lambda>(s, q). fits cap s \<and> cstr q)"
  by (rule sat_mono [OF sat_parse_json_string]) (auto simp: fits_def)

lemma sat_word_value: "cstr p \<Longrightarrow> sat (parse_json_u64 p) (\<lambda>(v, q). True \<and> cstr q)"
  by (rule sat_mono [OF sat_parse_json_u64]) auto

lemma sat_bool_value: "cstr p \<Longrightarrow> sat (parse_json_bool p) (\<lambda>(v, q). True \<and> cstr q)"
  by (rule sat_mono [OF sat_parse_json_bool]) auto

lemma sat_i64_value: "cstr p \<Longrightarrow> sat (parse_json_optional_i64 p) (\<lambda>(v, q). True \<and> cstr q)"
  by (rule sat_mono [OF sat_parse_json_optional_i64]) auto

lemma sat_keyword_values:
  assumes "cstr p"
  shows "sat (parse_terminal_dimension p) (\<lambda>(v, q). True \<and> cstr q)"
    and "sat (parse_stdio p) (\<lambda>(v, q). True \<and> cstr q)"
    and "sat (parse_source_kind p) (\<lambda>(v, q). True \<and> cstr q)"
    and "sat (parse_source_disk p) (\<lambda>(v, q). True \<and> cstr q)"
    and "sat (parse_destination_policy p) (\<lambda>(v, q). True \<and> cstr q)"
  unfolding parse_terminal_dimension_def parse_stdio_def parse_source_kind_def parse_source_disk_def
    parse_destination_policy_def
  by (rule sat_seq [OF sat_word_value [OF assms]] sat_seq [OF sat_parse_json_string [OF assms]]; auto)+

lemma sat_member_value:
  assumes "sat parsed (\<lambda>(v, q). P v \<and> cstr q)" "\<And>v. P v \<Longrightarrow> ok v \<Longrightarrow> request_wf (upd v)" "length type < n"
  shows "sat (member_value parsed ok upd type) (\<lambda>(out', type', q). request_wf out' \<and> length type' < n \<and> cstr q)"
  unfolding member_value_def using assms(2,3)
  by (intro sat_seq [OF assms(1)]) auto

lemmas sat_values = sat_string_fits sat_word_value sat_bool_value sat_i64_value sat_keyword_values
  sat_parse_exec_env_value sat_parse_build_cache_mounts_value sat_parse_build_context_binds_value

lemma sat_parse_request_member:
  assumes "cstr p" "request_wf out" "length type < 32"
  shows "sat (parse_request_member m p out type)
    (\<lambda>(out', type', q). request_wf out' \<and> length type' < 32 \<and> cstr q)"
proof (cases "m = MEMBER_TYPE \<or> m = MEMBER_ARGV")
  case True
  have "sat (parse_exec_argv_value p) (\<lambda>(r, q). (argv_ok r \<and> (r \<noteq> [] \<longrightarrow> hd r \<noteq> [])) \<and> cstr q)"
    by (rule sat_mono [OF sat_parse_exec_argv_value [OF assms(1)]]) auto
  from sat_member_value [OF this, where upd = "\<lambda>v. out\<lparr>r_argv := v\<rparr>" and type = type and n = 32]
  have "m = MEMBER_ARGV \<Longrightarrow> ?thesis"
    using assms(2,3) by (auto simp: request_wf_def)
  moreover have "m = MEMBER_TYPE \<Longrightarrow> ?thesis"
    using assms(2) sat_parse_json_string [OF assms(1), of 32]
    by (auto intro: sat_mono)
  ultimately show ?thesis using True by blast
next
  case False
  then show ?thesis
    using assms
    by (cases m; simp only: parse_request_member.simps; (simp; fail)?)
       (rule sat_member_value, rule sat_values;
        auto simp: request_wf_def not_le not_less SESSION_ID_MAX_def MAX_WORKDIR_LEN_def GEN_PARAMS_MAX_def)+
qed

lemma sat_request_loop:
  "cstr p \<Longrightarrow> request_wf out \<Longrightarrow> length type < 32 \<Longrightarrow>
   sat (request_loop seen out type p) (\<lambda>(seen', out', type', q). request_wf out' \<and> cstr q)"
proof (induction seen out type p rule: request_loop.induct)
  case (1 seen out type p)
  let ?Q = "\<lambda>(seen', out', type', q). request_wf out' \<and> cstr q"
  show ?case
  proof (subst request_loop.simps, rule sat_seq [OF sat_parse_json_key [OF "1.prems"(1)]], simp, goal_cases)
    case (1 x)
    then obtain key p1 where x: "x = (key, p1)" "parse_json_key 32 p = Ok (key, p1)" "cstr p1"
      by (cases x) auto
    have "sat (bnd (parse_request_member m p1 out type) (\<lambda>(out', type', p2).
        bnd (skip_ws p2) (\<lambda>p3. bnd (rd p3 0) (\<lambda>c.
        if c = of_char CHR ''}'' then Ok (seen OR member_bit m, out', type', drop 1 p3)
        else if c \<noteq> of_char CHR '','' then Bad
        else bnd (skip_ws (drop 1 p3)) (\<lambda>p4. request_loop (seen OR member_bit m) out' type' p4))))) ?Q"
      if m: "lookup_member key = Some m" "\<not> seen AND member_bit m \<noteq> 0" for m
    proof (rule sat_seq [OF sat_parse_request_member [OF x(3) "1.prems"(2,3)]], goal_cases)
      case (1 y)
      then obtain out' type' p2 where y: "y = (out', type', p2)" "request_wf out'" "length type' < 32" "cstr p2"
          "parse_request_member m p1 out type = Ok (out', type', p2)"
        by (cases y) auto
      note IH = "1.IH" [OF x(2) refl m y(5) refl refl]
      have "sat (bnd (skip_ws p2) (\<lambda>p3. bnd (rd p3 0) (\<lambda>c.
        if c = of_char CHR ''}'' then Ok (seen OR member_bit m, out', type', drop 1 p3)
        else if c \<noteq> of_char CHR '','' then Bad
        else bnd (skip_ws (drop 1 p3)) (\<lambda>p4. request_loop (seen OR member_bit m) out' type' p4)))) ?Q"
        using y IH
        by (intro sat_seq [OF sat_skip_ws [OF y(4)]] sat_seq [OF sat_rd0] sat_if)
           (auto intro!: sat_seq [OF sat_skip_ws] simp del: sat_bnd)
      then show ?case by (simp add: y(1) del: sat_bnd)
    qed
    then show ?case by (auto simp: x(1) intro!: sat_if split: option.split simp del: sat_bnd)
  qed
qed

lemma request_wf_apply_exec_stdio [simp]: "request_wf (apply_exec_stdio r) = request_wf r"
  by (simp add: request_wf_def apply_exec_stdio_def)

lemma request_wf_kind [simp]: "request_wf (r\<lparr>r_kind := k\<rparr>) = request_wf r"
  by (simp add: request_wf_def)

lemma request_wf_exec_form [simp]: "request_wf (r\<lparr>r_build_exec_form := b\<rparr>) = request_wf r"
  by (simp add: request_wf_def)

lemma sat_validate_build_run_request: "request_wf r \<Longrightarrow> sat (validate_build_run_request r) request_wf"
  unfolding validate_build_run_request_def Let_def by (intro sat_if) simp_all

lemma sat_validate_request: "request_wf r \<Longrightarrow> sat (validate_request r) request_wf"
  unfolding validate_request_def
  by (cases "r_kind r") (simp_all add: sat_validate_build_run_request)

lemma sat_spec_loop: "request_wf r \<Longrightarrow> sat (spec_loop specs type seen r) request_wf"
  by (induction specs type seen r rule: spec_loop.induct) (auto simp: sat_validate_request)

lemma length_takeWhile_eq: "length (takeWhile P xs) = length xs \<longleftrightarrow> list_all P xs"
  by (induction xs) auto

lemma sat_request_object:
  assumes "cstr req"
  shows "sat (bnd (skip_ws req) (\<lambda>p.
      bnd (rd p 0) (\<lambda>c. if c \<noteq> of_char CHR ''{'' then Bad else
      bnd (skip_ws (drop 1 p)) (\<lambda>p.
      bnd (request_loop 0 zero_request [] p) (\<lambda>(seen, out, type, p).
      bnd (skip_ws p) (\<lambda>p.
      bnd (rd p 0) (\<lambda>c. if c \<noteq> 0 then Bad
      else spec_loop request_specs type seen out))))))) request_wf"
proof -
  have tail: "sat (bnd (skip_ws q) (\<lambda>p. bnd (rd p 0) (\<lambda>c. if c \<noteq> 0 then Bad
      else spec_loop request_specs type seen out))) request_wf"
    if "cstr q" "request_wf out" for q out type seen
    using that by (intro sat_seq [OF sat_skip_ws] sat_seq [OF sat_rd0] sat_if sat_spec_loop) simp_all
  have body: "sat (bnd (request_loop 0 zero_request [] p) (\<lambda>(seen, out, type, p).
      bnd (skip_ws p) (\<lambda>p.
      bnd (rd p 0) (\<lambda>c. if c \<noteq> 0 then Bad else spec_loop request_specs type seen out)))) request_wf"
    if "cstr p" for p
    by (rule sat_seq [OF sat_request_loop [OF that request_wf_zero]]) (auto intro!: tail simp del: sat_bnd)
  show ?thesis
    by (rule sat_seq [OF sat_skip_ws [OF assms]], rule sat_seq, erule sat_rd0, rule sat_if, simp,
        rule sat_seq, rule sat_skip_ws) (auto intro!: body simp del: sat_bnd)
qed

lemma sat_parse_request: "sat (parse_request (line @ [0]) (length line)) request_wf"
proof (cases "line = [] \<or> 0 \<in> set line")
  case True
  then show ?thesis
    using length_takeWhile_eq [of "\<lambda>c. c \<noteq> 0" line]
    by (auto simp: parse_request_def strlen_line list_all_iff)
next
  case False
  then have req: "cstr (line @ [0])" and n: "strlen (line @ [0]) = Ok (length line)"
    using length_takeWhile_eq [of "\<lambda>c. c \<noteq> 0" line] by (auto simp: strlen_line list_all_iff)
  have rd: "rd (line @ [0]) (length line - 1) = Ok ((line @ [0]) ! (length line - 1))"
    by (simp add: rd_def)
  show ?thesis
    unfolding parse_request_def n rd bnd.simps
    by (intro sat_if sat_request_object [OF req]) simp_all
qed

text \<open>C3. Whatever bytes a request line holds, the parser stays inside the line and inside every
  buffer of \<^verbatim>\<open>struct run_request\<close>, and a request it accepts satisfies the bounds of those buffers.\<close>

theorem parse_request_safe: "sat (parse_request (line @ [0]) (length line)) request_wf"
  by (rule sat_parse_request)

end
