(* ===== verification/Request_Spec.thy ===== *)
theory Request_Spec
  imports Request_Safety
begin

text \<open>
  What the parser accepts, as a grammar: \<open>walk\<close> reads a comma-separated list of members
  off the cursor, and \<open>parse_request_iff\<close> shows that a line is accepted exactly when it is
  one object whose members are those of its type, each once. The rules of each request
  kind follow.
\<close>

section \<open>Member sets\<close>

lemma bit_member_bit: "bit (member_bit m) i \<longleftrightarrow> i = member_index m"
proof -
  have "member_index m < 64" by (cases m) simp_all
  then show ?thesis by (auto simp: member_bit_def bit_exp_iff)
qed

lemma member_index_inject [simp]: "member_index m = member_index n \<longleftrightarrow> m = n"
proof
  assume "member_index m = member_index n"
  moreover have "request_members ! member_index k = k" for k
    by (cases k) (simp_all add: request_members_def)
  ultimately show "m = n" by metis
qed simp

lemma bit_member_mask: "bit (member_mask ms) i \<longleftrightarrow> (\<exists>m\<in>set ms. i = member_index m)"
  by (induction ms) (auto simp: member_mask_def bit_or_iff bit_member_bit)

lemma member_mask_Nil [simp]: "member_mask [] = 0"
  by (simp add: member_mask_def)

lemma member_mask_Cons [simp]: "member_mask (m # ms) = member_bit m OR member_mask ms"
  by (simp add: member_mask_def)

lemma member_mask_append: "member_mask (xs @ ys) = member_mask xs OR member_mask ys"
  by (induction xs) (simp_all add: or.assoc)

lemma member_mask_eq_iff: "member_mask ms = member_mask ns \<longleftrightarrow> set ms = set ns"
proof
  assume "member_mask ms = member_mask ns"
  then have "(\<exists>m\<in>set ms. i = member_index m) \<longleftrightarrow> (\<exists>n\<in>set ns. i = member_index n)" for i
    by (simp flip: bit_member_mask)
  then show "set ms = set ns" by (metis member_index_inject subsetI subset_antisym)
qed (auto intro!: bit_eqI simp: bit_member_mask)

lemma member_mask_and_bit: "member_mask ms AND member_bit m = 0 \<longleftrightarrow> m \<notin> set ms"
proof
  assume *: "member_mask ms AND member_bit m = 0"
  have "\<not> bit (member_mask ms AND member_bit m) (member_index m)" by (simp add: *)
  then show "m \<notin> set ms" by (auto simp: bit_and_iff bit_member_mask bit_member_bit)
next
  assume "m \<notin> set ms"
  then show "member_mask ms AND member_bit m = 0"
    by (auto intro!: bit_eqI simp: bit_and_iff bit_member_mask bit_member_bit)
qed

lemma set_request_members: "set request_members = UNIV"
proof -
  have "m \<in> set request_members" for m
    by (cases m) (simp_all add: request_members_def)
  then show ?thesis by auto
qed

lemma distinct_request_member_names:
  "distinct (map (\<lambda>m. lit (request_member_name m)) request_members)"
  by code_simp

lemma foldl_last_match:
  "distinct (map f xs) \<Longrightarrow>
   foldl (\<lambda>found x. if key = f x then Some x else found) None xs = Some y \<longleftrightarrow> y \<in> set xs \<and> key = f y"
proof (induction xs arbitrary: y rule: rev_induct)
  case Nil
  then show ?case by simp
next
  case (snoc x xs)
  then show ?case by (auto simp: image_iff)
qed

lemma lookup_member_iff: "lookup_member key = Some m \<longleftrightarrow> key = lit (request_member_name m)"
  unfolding lookup_member_def
  by (simp add: foldl_last_match [OF distinct_request_member_names] set_request_members)

section \<open>The grammar of a request object\<close>

text \<open>
  \<open>walk p out type ms out' type' q\<close>: from \<open>p\<close> to \<open>q\<close> the text is the members \<open>ms\<close> in that
  order, separated by commas and ended by the closing brace. Reading their values takes the
  request from \<open>out\<close> to \<open>out'\<close> and the type string from \<open>type\<close> to \<open>type'\<close>.
\<close>

inductive walk :: "cur \<Rightarrow> run_request \<Rightarrow> bytes \<Rightarrow> request_member list \<Rightarrow> run_request \<Rightarrow> bytes \<Rightarrow> cur \<Rightarrow> bool" where
  walk_last:
    "parse_json_key 32 p = Ok (lit (request_member_name m), p1) \<Longrightarrow>
     parse_request_member m p1 out type = Ok (out', type', p2) \<Longrightarrow>
     skip_ws p2 = Ok (of_char CHR ''}'' # q) \<Longrightarrow>
     walk p out type [m] out' type' q"
| walk_more:
    "parse_json_key 32 p = Ok (lit (request_member_name m), p1) \<Longrightarrow>
     parse_request_member m p1 out type = Ok (out', type', p2) \<Longrightarrow>
     skip_ws p2 = Ok (of_char CHR '','' # p3) \<Longrightarrow>
     skip_ws p3 = Ok p4 \<Longrightarrow>
     walk p4 out' type' ms out'' type'' q \<Longrightarrow>
     walk p out type (m # ms) out'' type'' q"

lemma walk_request_loop:
  "walk p out type ms out' type' q \<Longrightarrow> distinct ms \<Longrightarrow> \<forall>m\<in>set ms. seen AND member_bit m = 0 \<Longrightarrow>
   request_loop seen out type p = Ok (seen OR member_mask ms, out', type', q)"
proof (induction arbitrary: seen rule: walk.induct)
  case (walk_last p m p1 out type out' type' p2 q)
  then show ?case
    by (subst request_loop.simps) (simp add: lookup_member_iff [THEN iffD2])
next
  case (walk_more p m p1 out type out' type' p2 p3 p4 ms out'' type'' q)
  have "\<forall>n\<in>set ms. (seen OR member_bit m) AND member_bit n = 0"
  proof
    fix n assume n: "n \<in> set ms"
    then have "m \<noteq> n" using walk_more.prems(1) by auto
    moreover have "seen AND member_bit n = 0" using walk_more.prems(2) n by simp
    ultimately show "(seen OR member_bit m) AND member_bit n = 0"
      using member_mask_and_bit [of "[m]" n] by (simp add: bit.conj_disj_distrib2)
  qed
  with walk_more show ?case
    by (subst request_loop.simps) (simp add: lookup_member_iff [THEN iffD2] or.assoc)
qed

lemma request_loop_walk:
  "request_loop seen out type p = Ok (seen', out', type', q) \<Longrightarrow>
   \<exists>ms. walk p out type ms out' type' q \<and> distinct ms \<and> (\<forall>m\<in>set ms. seen AND member_bit m = 0) \<and>
        seen' = seen OR member_mask ms"
proof (induction seen out type p rule: request_loop.induct)
  case (1 seen out type p)
  from "1.prems" obtain key p1 m o1 t1 p2 p3 c where
    key: "parse_json_key 32 p = Ok (key, p1)" and
    m: "lookup_member key = Some m" and
    fresh: "\<not> seen AND member_bit m \<noteq> 0" and
    val: "parse_request_member m p1 out type = Ok (o1, t1, p2)" and
    p3: "skip_ws p2 = Ok p3" and c: "rd p3 0 = Ok c" and
    rest: "if c = of_char CHR ''}'' then seen' = seen OR member_bit m \<and> out' = o1 \<and> type' = t1 \<and> q = drop 1 p3
           else c = of_char CHR '','' \<and>
             (\<exists>p4. skip_ws (drop 1 p3) = Ok p4 \<and>
               request_loop (seen OR member_bit m) o1 t1 p4 = Ok (seen', out', type', q))"
    by (subst (asm) request_loop.simps) (auto split: if_splits option.splits)
  from c obtain p3' where p3': "p3 = c # p3'" by (auto simp: rd_0_eq_Ok)
  from m have name: "key = lit (request_member_name m)" by (simp add: lookup_member_iff)
  show ?case
  proof (cases "c = of_char CHR ''}''")
    case True
    with rest have "seen' = seen OR member_bit m" "out' = o1" "type' = t1" "q = p3'" by (simp_all add: p3')
    moreover have "walk p out type [m] o1 t1 p3'"
      using key val p3 True by (intro walk_last) (auto simp: name p3')
    ultimately show ?thesis using fresh by (intro exI [of _ "[m]"]) simp
  next
    case False
    with rest obtain p4 where comma: "c = of_char CHR '',''" and p4: "skip_ws (drop 1 p3) = Ok p4" and
      run: "request_loop (seen OR member_bit m) o1 t1 p4 = Ok (seen', out', type', q)" by auto
    from "1.IH" [OF key refl m fresh val refl refl p3 c False _ p4 run] comma obtain ms where
      ms: "walk p4 o1 t1 ms out' type' q" "distinct ms"
        "\<forall>n\<in>set ms. (seen OR member_bit m) AND member_bit n = 0"
        "seen' = (seen OR member_bit m) OR member_mask ms" by auto
    have split: "seen AND member_bit n = 0 \<and> m \<noteq> n" if "n \<in> set ms" for n
    proof -
      have "(seen AND member_bit n) OR (member_bit m AND member_bit n) = 0"
        using ms(3) that by (simp add: bit.conj_disj_distrib2)
      then have "seen AND member_bit n = 0 \<and> member_bit m AND member_bit n = 0" by (simp add: or_eq_0_iff)
      then show ?thesis using member_mask_and_bit [of "[m]" n] by auto
    qed
    have "walk p out type (m # ms) out' type' q"
      using key val p3 p4 ms(1) comma by (intro walk_more) (auto simp: name p3')
    then show ?thesis
      using ms split fresh by (intro exI [of _ "m # ms"]) (auto simp: or.assoc)
  qed
qed

text \<open>The object starts at its brace and nothing but white space surrounds it.\<close>

definition object_text :: "bytes \<Rightarrow> request_member list \<Rightarrow> run_request \<Rightarrow> bytes \<Rightarrow> bool" where
  "object_text line ms out type \<longleftrightarrow>
     (\<exists>p p' q. skip_ws (line @ [0]) = Ok (of_char CHR ''{'' # p) \<and> skip_ws p = Ok p' \<and>
             walk p' zero_request [] ms out type q \<and> skip_ws q = Ok [0])"

lemma spec_loop_iff:
  "distinct (map (\<lambda>s. lit (fst s)) specs) \<Longrightarrow>
   spec_loop specs type seen out = Ok r \<longleftrightarrow>
     (\<exists>name kind ms. (name, kind, ms) \<in> set specs \<and> type = lit name \<and> seen = member_mask ms \<and>
        validate_request (out\<lparr>r_kind := kind\<rparr>) = Ok r)"
proof (induction specs type seen out rule: spec_loop.induct)
  case (2 name kind ms specs type seen out)
  then have "lit name \<noteq> lit n" if "(n, k, m) \<in> set specs" for n k m
    using that by (auto simp: image_iff)
  with 2 show ?case by (cases "type = lit name") auto
qed simp

lemma distinct_request_specs: "distinct (map (\<lambda>s. lit (fst s)) request_specs)"
  by code_simp

lemma rd_line_last: "line \<noteq> [] \<Longrightarrow> rd (line @ [0]) (length line - 1) = Ok (last line)"
  by (simp add: rd_def nth_append last_conv_nth)

text \<open>C4. A request line is accepted exactly when it is a newline-terminated line with no NUL
  holding one object, whose type is one of the known types, whose members are exactly the
  members of that type, each once, and whose values pass the validation of that type.\<close>

theorem parse_request_iff:
  "parse_request (line @ [0]) (length line) = Ok r \<longleftrightarrow>
     line \<noteq> [] \<and> 0 \<notin> set line \<and> last line = 10 \<and>
     (\<exists>ms out name kind members.
        object_text line ms out (lit name) \<and> (name, kind, members) \<in> set request_specs \<and>
        distinct ms \<and> set ms = set members \<and> validate_request (out\<lparr>r_kind := kind\<rparr>) = Ok r)"
  (is "?P \<longleftrightarrow> ?line \<and> ?nul \<and> ?nl \<and> ?E")
proof
  assume P: ?P
  then have ne: ?line by (auto simp: parse_request_def)
  with P have nul: ?nul
    using length_takeWhile_eq [of "\<lambda>c. c \<noteq> 0" line]
    by (auto simp: parse_request_def strlen_line list_all_iff split: if_splits)
  from P obtain p p' seen out type q where
    nl: "last line = 10" and p: "skip_ws (line @ [0]) = Ok (of_char CHR ''{'' # p)" "skip_ws p = Ok p'" and
    run: "request_loop 0 zero_request [] p' = Ok (seen, out, type, q)" and
    fin: "\<exists>t. skip_ws q = Ok (0 # t)" and
    spec: "spec_loop request_specs type seen out = Ok r"
    unfolding parse_request_def rd_line_last [OF ne]
    by (auto simp: ne rd_0_eq_Ok split: if_splits)
  have "sat (skip_ws (line @ [0])) cstr" using nul by (simp add: sat_skip_ws)
  with p(1) have "cstr p" by simp
  with p(2) have p': "cstr p'" using sat_skip_ws [of p] by simp
  have "cstr q"
    using sat_OkD [OF sat_request_loop [OF p' request_wf_zero] run] by simp
  with fin have q: "skip_ws q = Ok [0]" using sat_skip_ws [of q] by auto
  from request_loop_walk [OF run] obtain ms where
    ms: "walk p' zero_request [] ms out type q" "distinct ms" "seen = member_mask ms" by auto
  from spec ms(3) obtain name kind members where
    k: "(name, kind, members) \<in> set request_specs" "type = lit name" "set ms = set members"
       "validate_request (out\<lparr>r_kind := kind\<rparr>) = Ok r"
    by (auto simp: spec_loop_iff [OF distinct_request_specs] member_mask_eq_iff)
  with ms p q ne nul nl show "?line \<and> ?nul \<and> ?nl \<and> ?E"
    unfolding object_text_def by blast
next
  assume R: "?line \<and> ?nul \<and> ?nl \<and> ?E"
  then obtain ms out name kind members p p' q where
    k: "(name, kind, members) \<in> set request_specs" "distinct ms" "set ms = set members"
       "validate_request (out\<lparr>r_kind := kind\<rparr>) = Ok r" and
    p: "skip_ws (line @ [0]) = Ok (of_char CHR ''{'' # p)" "skip_ws p = Ok p'"
       "walk p' zero_request [] ms out (lit name) q" "skip_ws q = Ok [0]"
    unfolding object_text_def by blast
  have "request_loop 0 zero_request [] p' = Ok (member_mask ms, out, lit name, q)"
    using walk_request_loop [OF p(3) k(2), of 0] by simp
  moreover have "spec_loop request_specs (lit name) (member_mask ms) out = Ok r"
    using k by (auto simp: spec_loop_iff [OF distinct_request_specs] member_mask_eq_iff)
  moreover have "strlen (line @ [0]) = Ok (length line)"
    using R length_takeWhile_eq [of "\<lambda>c. c \<noteq> 0" line] by (auto simp: strlen_line list_all_iff)
  ultimately show ?P
    unfolding parse_request_def using R p by (simp add: rd_line_last [unfolded One_nat_def])
qed

section \<open>The rules of each request kind\<close>

lemma parse_request_validated:
  assumes "parse_request (line @ [0]) (length line) = Ok r"
  shows "\<exists>out. validate_request out = Ok r \<and> request_wf r"
proof -
  have "spec_loop specs type seen out = Ok r \<Longrightarrow> \<exists>out. validate_request out = Ok r" for specs type seen out
    by (induction specs type seen out rule: spec_loop.induct) (auto split: if_splits)
  with assms have "\<exists>out. validate_request out = Ok r"
    by (auto simp: parse_request_def split: if_splits)
  moreover have "request_wf r"
    using sat_OkD [OF sat_parse_request assms] .
  ultimately show ?thesis by blast
qed

lemma overlap_sym: "build_cache_targets_overlap a b = build_cache_targets_overlap b a"
  by (auto simp: build_cache_targets_overlap_def)

lemma validate_build_run_Ok:
  assumes "validate_build_run_request out = Ok r"
  shows "r_kind r = r_kind out \<and> (r_build_exec_form r \<longleftrightarrow> r_argv r \<noteq> []) \<and>
    first_byte (r_working_dir r) = slash \<and> r_stdio r = REQUEST_STDIO_PIPE \<and>
    0 < r_nofile_soft r \<and> r_nofile_soft r \<le> r_nofile_hard r \<and> r_nofile_hard r \<le> MAX_BUILD_NOFILE \<and>
    sum_list (map length (r_argv r)) \<le> MAX_BUILD_EXEC_ARGS_BYTES \<and>
    (r_build_exec_form r \<longrightarrow> r_build_command_len r = 0 \<and> r_context_binds r = []) \<and>
    (\<not> r_build_exec_form r \<longrightarrow> 0 < r_build_command_len r) \<and>
    (\<forall>b\<in>set (r_context_binds r). \<forall>m\<in>set (r_cache_mounts r).
       \<not> build_cache_targets_overlap (cb_target b) (cm_target m))"
proof -
  have "r = out\<lparr>r_build_exec_form := (r_argv out \<noteq> [])\<rparr>"
    using assms unfolding validate_build_run_request_def Let_def by (simp split: if_split_asm)
  with assms show ?thesis
    unfolding validate_build_run_request_def Let_def
    by (simp add: list_ex_iff word_gt_0 not_less split: if_split_asm) blast
qed

lemma r_kind_apply_exec_stdio [simp]: "r_kind (apply_exec_stdio out) = r_kind out"
  by (simp add: apply_exec_stdio_def)

lemma validate_request_kind: "validate_request out = Ok r \<Longrightarrow> r_kind r = r_kind out"
  using validate_build_run_Ok [of out r]
  by (cases "r_kind out") (auto simp add: validate_request_def split: if_split_asm)

text \<open>C5. An accepted build RUN has either an exec form (argv, no streamed command, no context
  binds) or a shell form (no argv, a streamed command of 1 to 65536 bytes), file limits within
  bounds, an absolute working directory, and mount targets of which no two overlap, cache mounts
  and context binds taken together.\<close>

theorem parse_request_build_run:
  assumes "parse_request (line @ [0]) (length line) = Ok r" "r_kind r = REQUEST_BUILD_RUN"
  shows "(r_build_exec_form r \<longleftrightarrow> r_argv r \<noteq> []) \<and>
    (if r_build_exec_form r then r_build_command_len r = 0 \<and> r_context_binds r = [] \<and> hd (r_argv r) \<noteq> []
     else 0 < r_build_command_len r \<and> r_build_command_len r \<le> MAX_BUILD_RUN_COMMAND_LEN) \<and>
    first_byte (r_working_dir r) = slash \<and>
    0 < r_nofile_soft r \<and> r_nofile_soft r \<le> r_nofile_hard r \<and> r_nofile_hard r \<le> MAX_BUILD_NOFILE \<and>
    length (r_cache_mounts r) + length (r_context_binds r) \<le> 16 \<and>
    list_all valid_build_cache_target (map cm_target (r_cache_mounts r) @ map cb_target (r_context_binds r)) \<and>
    sorted_wrt (\<lambda>a b. \<not> build_cache_targets_overlap a b)
      (map cm_target (r_cache_mounts r) @ map cb_target (r_context_binds r))"
proof -
  from parse_request_validated [OF assms(1)] obtain out where
    v: "validate_request out = Ok r" and wf: "request_wf r" by blast
  have "validate_build_run_request out = Ok r"
    using v validate_request_kind [OF v] assms(2) by (simp add: validate_request_def)
  note run = validate_build_run_Ok [OF this]
  from wf have ok: "cache_mounts_ok (r_cache_mounts r)" "context_binds_ok (r_context_binds r)"
      "r_argv r \<noteq> [] \<longrightarrow> hd (r_argv r) \<noteq> []" "r_build_command_len r \<le> MAX_BUILD_RUN_COMMAND_LEN"
    by (auto simp: request_wf_def)
  have apart: "sorted_wrt (\<lambda>a b. \<not> build_cache_targets_overlap a b)
      (map cm_target (r_cache_mounts r) @ map cb_target (r_context_binds r))"
  proof -
    have "\<not> build_cache_targets_overlap (cm_target m) (cb_target b)"
      if "m \<in> set (r_cache_mounts r)" "b \<in> set (r_context_binds r)" for m b
      using run that overlap_sym [of "cm_target m" "cb_target b"] by simp
    with ok show ?thesis
      by (auto simp: cache_mounts_ok_def context_binds_ok_def sorted_wrt_append sorted_wrt_map)
  qed
  have valid: "list_all valid_build_cache_target (map cm_target (r_cache_mounts r) @ map cb_target (r_context_binds r))"
    using ok by (auto simp: cache_mounts_ok_def context_binds_ok_def list_all_iff valid_build_context_bind_target_def)
  have "length (r_cache_mounts r) + length (r_context_binds r) \<le> 16"
    using ok by (simp add: cache_mounts_ok_def context_binds_ok_def MAX_BUILD_CACHE_MOUNTS_def
        MAX_BUILD_CONTEXT_BINDS_def)
  with run ok apart valid show ?thesis by (cases "r_build_exec_form r") simp_all
qed

text \<open>A shell-form build RUN with one cache mount and one context bind.\<close>

definition build_run_line :: bytes where
  "build_run_line = lit (
     ''{\"type\":\"spore-build-run-v4\",\"session_id\":\"s\",\"resume_time_unix_ns\":0,\"command_len\":5,'' @
     ''\"argv\":[],\"env\":[\"A=b\"],\"working_dir\":\"/w\",'' @
     ''\"cache_mounts\":[{\"target\":\"/c\",\"key\":\"'' @
     ''0123456789abcdef0123456789abcdef0123456789abcdef0123456789abcdef\"}],'' @
     ''\"context_binds\":[{\"source\":\"a/b\",\"target\":\"/d\"}],\"stdio\":\"pipe\",\"terminal_rows\":24,'' @
     ''\"terminal_cols\":80,\"term\":\"xterm\",\"memory_pressure\":false,\"nofile_soft\":1024,'' @
     ''\"nofile_hard\":1024,\"closed_env\":true}'') @ [10]"

lemma build_run_line_accepted:
  "case parse_request (build_run_line @ [0]) (length build_run_line) of
     Ok r \<Rightarrow> r_kind r = REQUEST_BUILD_RUN \<and> length (r_cache_mounts r) = 1 \<and> length (r_context_binds r) = 1
   | _ \<Rightarrow> False"
  by code_simp

theorem parse_request_build_run_witness:
  "\<exists>r. parse_request (build_run_line @ [0]) (length build_run_line) = Ok r \<and> r_kind r = REQUEST_BUILD_RUN \<and>
       length (r_cache_mounts r) = 1 \<and> length (r_context_binds r) = 1 \<and> 0 < r_nofile_soft r \<and>
       sorted_wrt (\<lambda>a b. \<not> build_cache_targets_overlap a b)
         (map cm_target (r_cache_mounts r) @ map cb_target (r_context_binds r))"
proof -
  from build_run_line_accepted obtain r where
    r: "parse_request (build_run_line @ [0]) (length build_run_line) = Ok r" "r_kind r = REQUEST_BUILD_RUN"
       "length (r_cache_mounts r) = 1" "length (r_context_binds r) = 1"
    by (auto split: cres.splits)
  from r parse_request_build_run [OF r(1,2)] show ?thesis by blast
qed

text \<open>C6. An accepted start or attach request selects exactly one of null, pipe and terminal
  stdio. A start has a command with a non-empty first word, an empty or absolute working
  directory, retains output only when detached, and is detached only with null stdio. An attach
  with a pipe is interactive, one with null stdio is not.\<close>

theorem parse_request_exec:
  assumes "parse_request (line @ [0]) (length line) = Ok r" "r_kind r \<in> {REQUEST_START, REQUEST_ATTACH}"
  shows "(r_stdin_enabled r \<longleftrightarrow> r_stdio r = REQUEST_STDIO_PIPE) \<and> (r_tty r \<longleftrightarrow> r_stdio r = REQUEST_STDIO_TTY) \<and>
    (if r_kind r = REQUEST_START then
       r_argv r \<noteq> [] \<and> hd (r_argv r) \<noteq> [] \<and>
       (r_working_dir r = [] \<or> first_byte (r_working_dir r) = slash) \<and>
       (r_retain_output r \<longrightarrow> r_detached r) \<and> (r_detached r \<longrightarrow> \<not> r_stdin_enabled r \<and> \<not> r_tty r)
     else (r_stdin_enabled r \<longrightarrow> r_interactive r) \<and> (r_interactive r \<longrightarrow> r_stdin_enabled r \<or> r_tty r))"
proof -
  from parse_request_validated [OF assms(1)] obtain out where
    v: "validate_request out = Ok r" and wf: "request_wf r" by blast
  have kind: "r_kind out = r_kind r" by (simp add: validate_request_kind [OF v])
  have r: "r = apply_exec_stdio out"
  proof (cases "r_kind r = REQUEST_START")
    case True
    then have k: "r_kind out = REQUEST_START" by (simp add: kind)
    from v show ?thesis
      by (simp add: validate_request_def k split: if_split_asm)
  next
    case False
    with assms(2) have k: "r_kind out = REQUEST_ATTACH" by (simp add: kind)
    from v show ?thesis
      by (simp add: validate_request_def k split: if_split_asm)
  qed
  have flags: "(r_stdin_enabled r \<longleftrightarrow> r_stdio r = REQUEST_STDIO_PIPE) \<and> (r_tty r \<longleftrightarrow> r_stdio r = REQUEST_STDIO_TTY)"
    by (simp add: r apply_exec_stdio_def)
  have same: "r_argv r = r_argv out" "r_working_dir r = r_working_dir out" "r_retain_output r = r_retain_output out"
      "r_detached r = r_detached out" "r_stdio r = r_stdio out" "r_interactive r = r_interactive out"
    by (simp_all add: r apply_exec_stdio_def)
  have wd: "first_byte s = 0 \<Longrightarrow> 0 \<notin> set s \<Longrightarrow> s = []" for s
    by (cases s) (auto simp: first_byte_def)
  have nz: "0 \<notin> set (r_working_dir r)" and hd: "r_argv r \<noteq> [] \<longrightarrow> hd (r_argv r) \<noteq> []"
    using wf by (simp_all add: request_wf_def fits_def)
  show ?thesis
  proof (cases "r_kind r = REQUEST_START")
    case True
    then have k: "r_kind out = REQUEST_START" by (simp add: kind)
    from v have "r_argv out \<noteq> []" "first_byte (r_working_dir out) = 0 \<or> first_byte (r_working_dir out) = slash"
        "r_retain_output out \<longrightarrow> r_detached out" "r_detached out \<longrightarrow> r_stdio out = REQUEST_STDIO_NULL"
      by (simp_all add: validate_request_def k split: if_split_asm)
    with True flags hd wd [OF _ nz] show ?thesis by (simp add: same) blast
  next
    case False
    with assms(2) have "r_kind r = REQUEST_ATTACH" by simp
    then have k: "r_kind out = REQUEST_ATTACH" by (simp add: kind)
    from v have "r_stdio out = REQUEST_STDIO_PIPE \<longrightarrow> r_interactive out"
        "r_stdio out = REQUEST_STDIO_NULL \<longrightarrow> \<not> r_interactive out"
      by (simp_all add: validate_request_def k split: if_split_asm)
    with False flags show ?thesis by (cases "r_stdio out") (simp_all add: same)
  qed
qed

definition attach_line :: bytes where
  "attach_line = lit (
     ''{\"type\":\"attach-v1\",\"session_id\":\"s\",\"stdout_offset\":7,\"stderr_offset\":0,'' @
     ''\"stdio\":\"pipe\",\"terminal_rows\":24,\"terminal_cols\":80,\"interactive\":true,\"params_json\":\"\"}'') @ [10]"

lemma attach_line_accepted:
  "case parse_request (attach_line @ [0]) (length attach_line) of
     Ok r \<Rightarrow> r_kind r = REQUEST_ATTACH \<and> r_stdio r = REQUEST_STDIO_PIPE
   | _ \<Rightarrow> False"
  by code_simp

theorem parse_request_exec_witness:
  "\<exists>r. parse_request (attach_line @ [0]) (length attach_line) = Ok r \<and> r_kind r = REQUEST_ATTACH \<and>
       r_stdin_enabled r \<and> r_interactive r \<and> \<not> r_tty r"
proof -
  from attach_line_accepted obtain r where
    r: "parse_request (attach_line @ [0]) (length attach_line) = Ok r" "r_kind r = REQUEST_ATTACH"
       "r_stdio r = REQUEST_STDIO_PIPE"
    by (auto split: cres.splits)
  from parse_request_exec [OF r(1)] r(2,3) show ?thesis by (simp add: r(1))
qed

end
