(* ===== verification/Json_Spec.thy ===== *)
theory Json_Spec
  imports Json
begin

text \<open>
  What the JSON primitives accept and return: numbers are the canonical decimals of their
  values, strings decode to well-formed UTF-8 and the decoder inverts the quoting of a
  JSON writer.
\<close>

section \<open>Unsigned numbers\<close>

definition digit_value :: "u8 \<Rightarrow> nat" where
  "digit_value c = unat c - 48"

definition decimal_value :: "nat \<Rightarrow> bytes \<Rightarrow> nat" where
  "decimal_value v ds = foldl (\<lambda>v d. v * 10 + digit_value d) v ds"

lemma decimal_value_simps [simp]:
  "decimal_value v [] = v" "decimal_value v (d # ds) = decimal_value (v * 10 + digit_value d) ds"
  "decimal_value v (ds @ es) = decimal_value (decimal_value v ds) es"
  by (simp_all add: decimal_value_def)

lemma is_digit_iff: "is_digit c \<longleftrightarrow> 48 \<le> unat c \<and> unat c \<le> 57"
  by (simp add: is_digit_def word_le_nat_alt)

lemma digit_value_less: "is_digit c \<Longrightarrow> digit_value c < 10"
  by (auto simp: is_digit_iff digit_value_def)

lemma digit_of_value: "is_digit c \<Longrightarrow> 48 + of_nat (digit_value c) = c"
  by (simp add: is_digit_iff digit_value_def word_unat_eq_iff unat_word_ariths unat_of_nat)

lemma decimal_value_ge: "v \<le> decimal_value v ds"
proof (induction ds arbitrary: v)
  case (Cons d ds)
  have "v \<le> v * 10 + digit_value d" by simp
  also have "\<dots> \<le> decimal_value (v * 10 + digit_value d) ds" by (rule Cons)
  finally show ?case by simp
qed simp

lemma unat_digit: "is_digit c \<Longrightarrow> unat (ucast (c - of_char CHR ''0'') :: u64) = digit_value c"
  by (auto simp: is_digit_iff digit_value_def unat_ucast_u64 unat_sub_if' word_le_nat_alt)

lemma u64_overflow_iff:
  fixes v d :: u64
  assumes "unat d < 10"
  shows "v > (- 1 - d) div 10 \<longleftrightarrow> unat v * 10 + unat d \<ge> 2 ^ 64"
proof -
  have "unat (- 1 - d) = 2 ^ 64 - 1 - unat d"
    using assms by (simp add: unat_sub_if' unsigned_minus_1_eq_mask mask_eq_exp_minus_1 word_le_nat_alt)
  then have "unat ((- 1 - d) div 10) = (2 ^ 64 - 1 - unat d) div 10"
    by (simp add: unat_div)
  then show ?thesis
    using assms by (simp add: word_less_nat_alt) linarith
qed

lemma u64_loop_digits:
  assumes "list_all is_digit ds" "ds \<noteq> []" "q \<noteq> []" "\<not> is_digit (hd q)"
  shows "u64_loop v (ds @ q) =
    (if decimal_value (unat v) ds < 2 ^ 64 then Ok (of_nat (decimal_value (unat v) ds), q) else Bad)"
  using assms
proof (induction ds arbitrary: v)
  case Nil
  then show ?case by simp
next
  case (Cons d ds)
  let ?d = "ucast (d - of_char CHR ''0'') :: u64"
  have d: "unat ?d = digit_value d" "digit_value d < 10"
    using Cons.prems by (simp_all add: unat_digit digit_value_less del: of_char_Char)
  obtain c r where cr: "ds @ q = c # r" using Cons.prems by (cases ds; cases q) auto
  have c: "is_digit c \<longleftrightarrow> ds \<noteq> []"
    using cr Cons.prems by (cases ds) auto
  show ?case
  proof (cases "unat v * 10 + digit_value d < 2 ^ 64")
    case False
    then have "decimal_value (unat v) (d # ds) \<ge> 2 ^ 64"
      using decimal_value_ge [of "unat v * 10 + digit_value d" ds] by simp
    with False show ?thesis
      using u64_overflow_iff [of ?d v] d by (simp add: Let_def del: of_char_Char)
  next
    case True
    then have next_v: "unat (v * 10 + ?d) = unat v * 10 + digit_value d"
      using d by (simp add: unat_word_ariths)
    have digit: "?d = of_nat (digit_value d)" unfolding d(1) [symmetric] by simp
    have "u64_loop v ((d # ds) @ q) =
        (if is_digit c then u64_loop (v * 10 + ?d) (ds @ q) else Ok (v * 10 + ?d, ds @ q))"
      using True u64_overflow_iff [of ?d v] d by (simp add: Let_def cr del: of_char_Char)
    then show ?thesis
      using Cons.IH [of "v * 10 + ?d"] Cons.prems c True next_v
      by (cases "ds = []") (simp_all add: digit [simplified] del: u64_loop.simps)
  qed
qed

lemma dec_digits: "list_all is_digit (dec n) \<and> dec n \<noteq> []"
proof (induction n rule: dec.induct)
  case (1 n)
  have "is_digit (48 + of_nat m)" if "m < 10" for m
    using that by (simp add: is_digit_iff unat_word_ariths unat_of_nat)
  with 1 show ?case by (subst (1 2) dec.simps) simp
qed

lemma decimal_value_dec: "decimal_value 0 (dec n) = n"
proof (induction n rule: dec.induct)
  case (1 n)
  have "digit_value (48 + of_nat m) = m" if "m < 10" for m
    using that by (simp add: digit_value_def unat_word_ariths unat_of_nat)
  with 1 show ?case by (subst dec.simps) simp
qed

text \<open>A digit string is canonical when it does not start with a superfluous zero.\<close>

definition canonical :: "bytes \<Rightarrow> bool" where
  "canonical ds \<longleftrightarrow> list_all is_digit ds \<and> ds \<noteq> [] \<and> (hd ds = 48 \<longrightarrow> tl ds = [])"

lemma canonical_dec: "canonical (dec n)"
proof -
  have "hd (dec n) = 48 \<longrightarrow> n = 0"
  proof (induction n rule: dec.induct)
    case (1 n)
    show ?case
    proof (cases "n < 10")
      case True
      then show ?thesis by (simp add: dec.simps [of n] word_unat_eq_iff unat_word_ariths unat_of_nat)
    next
      case False
      with 1 dec_digits [of "n div 10"] show ?thesis by (auto simp: dec.simps [of n] div_eq_0_iff)
    qed
  qed
  moreover have "dec 0 = [48]" by (simp add: dec.simps)
  ultimately show ?thesis using dec_digits [of n] by (auto simp: canonical_def)
qed

lemma decimal_value_pos: "list_all is_digit ds \<Longrightarrow> ds \<noteq> [] \<Longrightarrow> hd ds \<noteq> 48 \<Longrightarrow> 0 < decimal_value v ds"
proof (cases ds)
  case (Cons d r)
  assume "list_all is_digit ds" "hd ds \<noteq> 48"
  then have "0 < digit_value d"
    using digit_of_value [of d] by (cases "digit_value d = 0") (auto simp: Cons)
  then show ?thesis
    using decimal_value_ge [of "v * 10 + digit_value d" r] by (simp add: Cons)
qed simp

lemma dec_decimal_value: "canonical ds \<Longrightarrow> dec (decimal_value 0 ds) = ds"
proof (induction ds rule: rev_induct)
  case Nil
  then show ?case by (simp add: canonical_def)
next
  case (snoc d ds)
  then have d: "is_digit d" "digit_value d < 10" by (auto simp: canonical_def digit_value_less)
  show ?case
  proof (cases "ds = []")
    case True
    with d digit_of_value [of d] show ?thesis by (simp add: dec.simps)
  next
    case False
    with snoc.prems have c: "canonical ds" "hd ds \<noteq> 48" by (auto simp: canonical_def)
    then have "0 < decimal_value 0 ds"
      using decimal_value_pos [of ds 0] False by (simp add: canonical_def)
    with d digit_of_value [of d] snoc.IH [OF c(1)] show ?thesis
      by (simp add: dec.simps [of "decimal_value 0 ds * 10 + digit_value d"])
  qed
qed

lemma u64_loop_terminated: "u64_loop v p = Ok (n, q) \<Longrightarrow> q \<noteq> [] \<and> \<not> is_digit (hd q)"
proof (induction v p rule: u64_loop.induct)
  case (2 v c p)
  then show ?case by (cases p) (auto simp: Let_def split: if_splits)
qed simp

lemma u64_loop_Cons_Ok:
  "u64_loop v (c # p) = Ok (n, q) \<Longrightarrow> q = p \<or> is_digit (hd p) \<and> (\<exists>v'. u64_loop v' p = Ok (n, q))"
  by (subst (asm) u64_loop.simps)
     (auto simp: Let_def rd_0_eq_Ok simp del: u64_loop.simps split: if_split_asm)

lemma u64_loop_split:
  assumes "u64_loop v p = Ok (n, q)" "is_digit (hd p)"
  shows "\<exists>ds. ds \<noteq> [] \<and> list_all is_digit ds \<and> p = ds @ q"
  using assms
proof (induction p arbitrary: v)
  case Nil
  then show ?case by simp
next
  case (Cons c p)
  from u64_loop_Cons_Ok [OF Cons.prems(1)] show ?case
  proof
    assume "q = p"
    with Cons.prems(2) show ?thesis by (intro exI [of _ "[c]"]) simp
  next
    assume "is_digit (hd p) \<and> (\<exists>v'. u64_loop v' p = Ok (n, q))"
    with Cons.IH obtain ds where "ds \<noteq> []" "list_all is_digit ds" "p = ds @ q" by blast
    with Cons.prems(2) show ?thesis by (intro exI [of _ "c # ds"]) simp
  qed
qed

text \<open>C7. The number parser accepts exactly the canonical decimals of the 64-bit unsigned
  integers, followed by a byte that is not a digit: no leading zero, no sign, no overflow, and the
  value is the number written.\<close>

theorem parse_json_u64_iff:
  "parse_json_u64 p = Ok (v, q) \<longleftrightarrow> p = dec (unat v) @ q \<and> q \<noteq> [] \<and> \<not> is_digit (hd q)"
proof
  assume *: "parse_json_u64 p = Ok (v, q)"
  then have hd: "is_digit (hd p)" and run: "u64_loop 0 p = Ok (v, q)"
    by (auto simp: parse_json_u64_def rd_0_eq_Ok split: if_splits)
  from u64_loop_split [OF run hd] obtain ds where ds: "ds \<noteq> []" "list_all is_digit ds" "p = ds @ q" by blast
  have q: "q \<noteq> []" "\<not> is_digit (hd q)" using u64_loop_terminated [OF run] by auto
  have val: "unat v = decimal_value 0 ds"
    using run u64_loop_digits [OF ds(2,1) q, of 0]
    by (auto simp: ds(3) unat_of_nat split: if_splits)
  have "canonical ds"
    using * ds by (cases ds; cases "tl ds") (auto simp: parse_json_u64_def canonical_def split: if_splits)
  with val ds q show "p = dec (unat v) @ q \<and> q \<noteq> [] \<and> \<not> is_digit (hd q)"
    by (simp add: dec_decimal_value)
next
  assume *: "p = dec (unat v) @ q \<and> q \<noteq> [] \<and> \<not> is_digit (hd q)"
  have "decimal_value 0 (dec (unat v)) < 2 ^ 64"
    using unsigned_less [of v] by (simp add: decimal_value_dec)
  then have run: "u64_loop 0 p = Ok (v, q)"
    using * u64_loop_digits [of "dec (unat v)" q 0] dec_digits [of "unat v"]
    by (simp add: decimal_value_dec)
  have "canonical (dec (unat v))" by (rule canonical_dec)
  then obtain d r where d: "dec (unat v) = d # r" "is_digit d" "d = 48 \<longrightarrow> r = []"
    by (cases "dec (unat v)") (auto simp: canonical_def)
  with * run show "parse_json_u64 p = Ok (v, q)"
    by (cases q) (auto simp: parse_json_u64_def simp del: u64_loop.simps)
qed

section \<open>Strings\<close>

text \<open>The Unicode scalar values other than NUL, which is what a C string can hold.\<close>

definition scalar :: "u32 \<Rightarrow> bool" where
  "scalar cp \<longleftrightarrow> cp \<noteq> 0 \<and> cp \<le> 0x10ffff \<and> \<not> (0xd800 \<le> cp \<and> cp \<le> 0xdfff)"

definition utf8 :: "u32 list \<Rightarrow> bytes" where
  "utf8 cps = concat (map utf8_encode cps)"

text \<open>The bits of a lead or continuation byte do not overlap, so \<^verbatim>\<open>|\<close> is addition.\<close>

lemma unat_lead:
  fixes h w :: u32
  assumes "h = push_bit k g" "unat w < 2 ^ k" "unat h + unat w < 256"
  shows "unat (ucast (h OR w) :: u8) = unat h + unat w"
proof -
  have "int (unat w) < int (2 ^ k)" using assms(2) by (simp only: of_nat_less_iff)
  then have "uint w < 2 ^ k" by simp
  then have w: "w AND mask k = w" by (simp add: mask_eq_iff)
  have "k \<le> n \<Longrightarrow> \<not> bit w n" for n
    using arg_cong [OF w, of "\<lambda>x. bit x n"] by (auto simp: bit_and_iff bit_mask_iff)
  then have "h + w = h OR w"
    by (intro disjunctive_add) (auto simp: assms(1) bit_push_bit_iff)
  moreover have "unat (h + w) = unat h + unat w"
    using assms(3) by (simp add: unat_word_ariths)
  ultimately show ?thesis using assms(3) by (simp add: unat_ucast_u8)
qed

lemma unat_and_63: "unat (w AND 0x3f :: u32) = unat w mod 64"
proof -
  have "w AND 0x3f = take_bit 6 w"
    by (simp add: take_bit_eq_mask mask_eq_exp_minus_1)
  then show ?thesis by (simp only: unsigned_take_bit_eq) (simp add: take_bit_eq_mod)
qed

lemma unat_continuation: "unat (ucast (0x80 OR (w AND 0x3f) :: u32) :: u8) = 128 + unat w mod 64"
proof -
  have lead: "0x80 = push_bit 6 (2 :: u32)" by simp
  have "unat w mod 64 < 64" by simp
  then have "unat (ucast (0x80 OR (w AND 0x3f) :: u32) :: u8) = unat (0x80 :: u32) + unat (w AND 0x3f)"
    by (intro unat_lead [OF lead]) (simp_all add: unat_and_63)
  then show ?thesis by (simp add: unat_and_63)
qed

lemma unat_drop_bit_u32: "unat (drop_bit n w :: u32) = unat w div 2 ^ n"
  unfolding unat_drop_bit_eq by (rule drop_bit_eq_div)

text \<open>The encoding in numbers, by the size of the code point.\<close>

lemma utf8_encode_1: "unat cp < 0x80 \<Longrightarrow> map unat (utf8_encode cp) = [unat cp]"
  by (simp add: utf8_encode_def word_le_nat_alt unat_ucast_u8)

lemma utf8_encode_2:
  assumes "0x80 \<le> unat cp" "unat cp < 0x800"
  shows "map unat (utf8_encode cp) =
    [192 + unat cp div 64, 128 + unat cp mod 64]"
proof -
  have lead: "0xc0 = push_bit 5 (6 :: u32)" by simp
  have "unat cp div 64 < 32" using assms by simp
  then have "unat (ucast (0xc0 OR drop_bit 6 cp :: u32) :: u8) = unat (0xc0 :: u32) + unat (drop_bit 6 cp)"
    by (intro unat_lead [OF lead]) (simp_all add: unat_drop_bit_u32)
  moreover have "utf8_encode cp =
      [ucast (0xc0 OR drop_bit 6 cp), ucast (0x80 OR (cp AND 0x3f))]"
    using assms by (simp add: utf8_encode_def word_le_nat_alt)
  ultimately show ?thesis
    using assms by (simp add: unat_continuation unat_drop_bit_u32)
qed

lemma utf8_encode_3:
  assumes "0x800 \<le> unat cp" "unat cp < 0x10000"
  shows "map unat (utf8_encode cp) =
    [224 + unat cp div 4096, 128 + unat cp div 64 mod 64, 128 + unat cp mod 64]"
proof -
  have lead: "0xe0 = push_bit 4 (14 :: u32)" by simp
  have "unat cp div 4096 < 16" using assms by simp
  then have "unat (ucast (0xe0 OR drop_bit 12 cp :: u32) :: u8) = unat (0xe0 :: u32) + unat (drop_bit 12 cp)"
    by (intro unat_lead [OF lead]) (simp_all add: unat_drop_bit_u32)
  moreover have "utf8_encode cp =
      [ucast (0xe0 OR drop_bit 12 cp), ucast (0x80 OR (drop_bit 6 cp AND 0x3f)),
       ucast (0x80 OR (cp AND 0x3f))]"
    using assms by (simp add: utf8_encode_def word_le_nat_alt)
  ultimately show ?thesis
    using assms by (simp add: unat_continuation unat_drop_bit_u32)
qed

lemma utf8_encode_4:
  assumes "0x10000 \<le> unat cp" "unat cp < 0x110000"
  shows "map unat (utf8_encode cp) =
    [240 + unat cp div 262144, 128 + unat cp div 4096 mod 64, 128 + unat cp div 64 mod 64,
     128 + unat cp mod 64]"
proof -
  have lead: "0xf0 = push_bit 3 (30 :: u32)" by simp
  have "unat cp div 262144 < 8" using assms by simp
  then have "unat (ucast (0xf0 OR drop_bit 18 cp :: u32) :: u8) = unat (0xf0 :: u32) + unat (drop_bit 18 cp)"
    by (intro unat_lead [OF lead]) (simp_all add: unat_drop_bit_u32)
  moreover have "utf8_encode cp =
      [ucast (0xf0 OR drop_bit 18 cp), ucast (0x80 OR (drop_bit 12 cp AND 0x3f)),
       ucast (0x80 OR (drop_bit 6 cp AND 0x3f)), ucast (0x80 OR (cp AND 0x3f))]"
    using assms by (simp add: utf8_encode_def word_le_nat_alt)
  ultimately show ?thesis
    using assms by (simp add: unat_continuation unat_drop_bit_u32)
qed

lemma scalar_iff:
  "scalar cp \<longleftrightarrow> 0 < unat cp \<and> unat cp \<le> 0x10ffff \<and> \<not> (0xd800 \<le> unat cp \<and> unat cp \<le> 0xdfff)"
  unfolding scalar_def word_le_nat_alt by (simp add: unat_gt_0)

lemma scalar_size:
  assumes "scalar cp"
  obtains (one) "0 < unat cp" "unat cp < 0x80"
    | (two) "0x80 \<le> unat cp" "unat cp < 0x800"
    | (three) "0x800 \<le> unat cp" "unat cp < 0x10000" "\<not> (0xd800 \<le> unat cp \<and> unat cp \<le> 0xdfff)"
    | (four) "0x10000 \<le> unat cp" "unat cp < 0x110000"
proof -
  have *: "0 < unat cp" "unat cp < 0x110000" "\<not> (0xd800 \<le> unat cp \<and> unat cp \<le> 0xdfff)"
    using assms unfolding scalar_iff by linarith+
  consider "unat cp < 0x80" | "0x80 \<le> unat cp" "unat cp < 0x800"
    | "0x800 \<le> unat cp" "unat cp < 0x10000" | "0x10000 \<le> unat cp"
    by linarith
  then show thesis
    using * by cases (rule one two three four; assumption)+
qed

lemma raw_utf8_sequence_len_2:
  assumes "194 \<le> unat a" "unat a \<le> 223" "128 \<le> unat b" "unat b \<le> 191"
  shows "raw_utf8_sequence_len (a # b # p) = Ok 2"
  using assms by (simp add: raw_utf8_sequence_len_def word_le_nat_alt)

lemma raw_utf8_sequence_len_3:
  assumes "224 \<le> unat a" "unat a \<le> 239" "128 \<le> unat b" "unat b \<le> 191" "128 \<le> unat c" "unat c \<le> 191"
    and "unat a = 224 \<Longrightarrow> 160 \<le> unat b" "unat a = 237 \<Longrightarrow> unat b \<le> 159"
  shows "raw_utf8_sequence_len (a # b # c # p) = Ok 3"
proof -
  have "b \<noteq> 0" "a = 0xe0 \<longleftrightarrow> unat a = 224" "a = 0xed \<longleftrightarrow> unat a = 237"
    using assms(3) by (auto simp: word_unat_eq_iff)
  with assms show ?thesis
    by (simp add: raw_utf8_sequence_len_def word_le_nat_alt word_less_nat_alt)
qed

lemma raw_utf8_sequence_len_4:
  assumes "240 \<le> unat a" "unat a \<le> 244" "128 \<le> unat b" "unat b \<le> 191" "128 \<le> unat c" "unat c \<le> 191"
    and "128 \<le> unat d" "unat d \<le> 191" "unat a = 240 \<Longrightarrow> 144 \<le> unat b" "unat a = 244 \<Longrightarrow> unat b \<le> 143"
  shows "raw_utf8_sequence_len (a # b # c # d # p) = Ok 4"
proof -
  have "b \<noteq> 0" "c \<noteq> 0" "a = 0xf0 \<longleftrightarrow> unat a = 240" "a = 0xf4 \<longleftrightarrow> unat a = 244"
    using assms(3,5) by (auto simp: word_unat_eq_iff)
  with assms show ?thesis
    by (simp add: raw_utf8_sequence_len_def word_le_nat_alt word_less_nat_alt)
qed

lemma raw_utf8_sequence_len_encode:
  assumes "scalar cp" "0x80 \<le> unat cp"
  shows "raw_utf8_sequence_len (utf8_encode cp @ p) = Ok (length (utf8_encode cp))"
  using assms(1)
proof (cases rule: scalar_size)
  case one
  with assms(2) show ?thesis by simp
next
  case two
  from utf8_encode_2 [OF two] obtain a b where
    ab: "utf8_encode cp = [a, b]" "unat a = 192 + unat cp div 64" "unat b = 128 + unat cp mod 64"
    by (auto simp: map_eq_Cons_conv)
  have "2 \<le> unat cp div 64" "unat cp div 64 < 32" "unat cp mod 64 < 64" using two by simp_all
  then have "raw_utf8_sequence_len (a # b # p) = Ok 2"
    by (intro raw_utf8_sequence_len_2) (simp_all add: ab)
  then show ?thesis by (simp add: ab(1))
next
  case three
  from utf8_encode_3 [OF three(1,2)] obtain a b c where
    abc: "utf8_encode cp = [a, b, c]" "unat a = 224 + unat cp div 4096"
      "unat b = 128 + unat cp div 64 mod 64" "unat c = 128 + unat cp mod 64"
    by (auto simp: map_eq_Cons_conv)
  have m: "unat cp div 4096 < 16" "unat cp div 64 mod 64 < 64" "unat cp mod 64 < 64" using three by simp_all
  have q: "unat cp div 64 = unat cp div 4096 * 64 + unat cp div 64 mod 64"
    using div_mult_mod_eq [of "unat cp div 64" 64] by (simp add: div_mult2_eq [symmetric])
  have lo: "32 \<le> unat cp div 64" using three by simp
  have sur: "unat cp div 4096 = 13 \<Longrightarrow> unat cp div 64 mod 64 < 32"
    using q three by linarith
  have "raw_utf8_sequence_len (a # b # c # p) = Ok 3"
    using m lo q sur by (intro raw_utf8_sequence_len_3) (simp_all add: abc)
  then show ?thesis by (simp add: abc(1))
next
  case four
  from utf8_encode_4 [OF four] obtain a b c d where
    abcd: "utf8_encode cp = [a, b, c, d]" "unat a = 240 + unat cp div 262144"
      "unat b = 128 + unat cp div 4096 mod 64" "unat c = 128 + unat cp div 64 mod 64" "unat d = 128 + unat cp mod 64"
    by (auto simp: map_eq_Cons_conv)
  have m: "unat cp div 262144 < 5" "unat cp div 4096 mod 64 < 64" "unat cp div 64 mod 64 < 64" "unat cp mod 64 < 64"
    using four by simp_all
  have q: "unat cp div 4096 = unat cp div 262144 * 64 + unat cp div 4096 mod 64"
    using div_mult_mod_eq [of "unat cp div 4096" 64] by (simp add: div_mult2_eq [symmetric])
  have lo: "16 \<le> unat cp div 4096" "unat cp div 4096 < 272" using four by simp_all
  have "raw_utf8_sequence_len (a # b # c # d # p) = Ok 4"
    using m lo q by (intro raw_utf8_sequence_len_4) (simp_all add: abcd)
  then show ?thesis by (simp add: abcd(1))
qed

lemma utf8_encodeI: "map unat (utf8_encode cp) = map unat bs \<Longrightarrow> utf8_encode cp = bs"
  by (rule map_injective [of unat]) (auto intro!: injI simp: word_unat_eq_iff)

lemma base64: "y < 64 \<Longrightarrow> (x * 64 + y) div 64 = x" "y < 64 \<Longrightarrow> (x * 64 + y) mod 64 = (y :: nat)"
  by simp_all

lemma utf8_2_decode:
  fixes a b :: u8
  assumes "194 \<le> unat a" "unat a \<le> 223" "128 \<le> unat b" "unat b \<le> 191"
  shows "\<exists>cp. scalar cp \<and> 0x80 \<le> unat cp \<and> utf8_encode cp = [a, b]"
proof -
  define n where "n = (unat a - 192) * 64 + (unat b - 128)"
  have "unat b - 128 < 64" using assms by linarith
  from base64 [OF this] have n: "n div 64 = unat a - 192" "n mod 64 = unat b - 128"
    unfolding n_def by blast+
  have size: "0x80 \<le> n" "n < 0x800" using assms unfolding n_def by linarith+
  have cp: "unat (of_nat n :: u32) = n" using size by (simp add: unat_of_nat)
  have "utf8_encode (of_nat n) = [a, b]"
    by (rule utf8_encodeI, unfold utf8_encode_2 [of "of_nat n", unfolded cp, OF size] n)
       (simp add: assms(1,3) order_trans [OF _ assms(1)])
  moreover have "scalar (of_nat n)" using size by (simp add: scalar_iff cp)
  ultimately show ?thesis using size by (intro exI [of _ "of_nat n"]) (simp add: cp)
qed

lemma utf8_3_decode:
  fixes a b c :: u8
  assumes "224 \<le> unat a" "unat a \<le> 239" "128 \<le> unat b" "unat b \<le> 191" "128 \<le> unat c" "unat c \<le> 191"
    and "unat a = 224 \<longrightarrow> 160 \<le> unat b" "unat a = 237 \<longrightarrow> unat b \<le> 159"
  shows "\<exists>cp. scalar cp \<and> 0x80 \<le> unat cp \<and> utf8_encode cp = [a, b, c]"
proof -
  define m where "m = (unat a - 224) * 64 + (unat b - 128)"
  define n where "n = m * 64 + (unat c - 128)"
  have d: "unat b - 128 < 64" "unat c - 128 < 64" using assms by linarith+
  from base64 [OF d(1)] have m: "m div 64 = unat a - 224" "m mod 64 = unat b - 128"
    unfolding m_def by blast+
  from base64 [OF d(2)] have n: "n div 64 = m" "n mod 64 = unat c - 128"
    unfolding n_def by blast+
  have n2: "n div 4096 = m div 64"
    using div_mult2_eq [of n 64 64] by (simp add: n)
  have mb: "32 \<le> m" "m < 1024" using assms unfolding m_def by linarith+
  have sur: "m < 864 \<or> 896 \<le> m"
  proof -
    consider "unat a - 224 \<le> 12" | "unat a = 237" | "14 \<le> unat a - 224" by linarith
    then show ?thesis
    proof cases
      case 1
      then show ?thesis using d unfolding m_def by linarith
    next
      case 2
      then show ?thesis using assms(3,8) by (simp add: m_def)
    next
      case 3
      then show ?thesis unfolding m_def by linarith
    qed
  qed
  have size: "0x800 \<le> n" "n < 0x10000" using mb d unfolding n_def by linarith+
  have cp: "unat (of_nat n :: u32) = n" using size by (simp add: unat_of_nat)
  have "utf8_encode (of_nat n) = [a, b, c]"
    by (rule utf8_encodeI, unfold utf8_encode_3 [of "of_nat n", unfolded cp, OF size] n n2 m)
       (simp add: assms(1,3,5))
  moreover have "\<not> (0xd800 \<le> n \<and> n \<le> 0xdfff)" using sur d unfolding n_def by linarith
  then have "scalar (of_nat n)" using size by (simp add: scalar_iff cp)
  ultimately show ?thesis using size by (intro exI [of _ "of_nat n"]) (simp add: cp)
qed

lemma utf8_4_decode:
  fixes a b c d :: u8
  assumes "240 \<le> unat a" "unat a \<le> 244" "128 \<le> unat b" "unat b \<le> 191" "128 \<le> unat c" "unat c \<le> 191"
    and "128 \<le> unat d" "unat d \<le> 191" "unat a = 240 \<longrightarrow> 144 \<le> unat b" "unat a = 244 \<longrightarrow> unat b \<le> 143"
  shows "\<exists>cp. scalar cp \<and> 0x80 \<le> unat cp \<and> utf8_encode cp = [a, b, c, d]"
proof -
  define l where "l = (unat a - 240) * 64 + (unat b - 128)"
  define m where "m = l * 64 + (unat c - 128)"
  define n where "n = m * 64 + (unat d - 128)"
  have d: "unat b - 128 < 64" "unat c - 128 < 64" "unat d - 128 < 64" using assms by linarith+
  from base64 [OF d(1)] have l: "l div 64 = unat a - 240" "l mod 64 = unat b - 128"
    unfolding l_def by blast+
  have lb: "16 \<le> l" "l < 272" using assms unfolding l_def by linarith+
  from base64 [OF d(2)] have m: "m div 64 = l" "m mod 64 = unat c - 128"
    unfolding m_def by blast+
  from base64 [OF d(3)] have n: "n div 64 = m" "n mod 64 = unat d - 128"
    unfolding n_def by blast+
  have n2: "n div 4096 = l" using div_mult2_eq [of n 64 64] by (simp add: n m)
  have n3: "n div 262144 = l div 64" using div_mult2_eq [of n 4096 64] by (simp add: n2)
  have mb: "1024 \<le> m" "m < 17408" using lb d unfolding m_def by linarith+
  have size: "0x10000 \<le> n" "n < 0x110000" using mb d unfolding n_def by linarith+
  have cp: "unat (of_nat n :: u32) = n" using size by (simp add: unat_of_nat)
  have "utf8_encode (of_nat n) = [a, b, c, d]"
    by (rule utf8_encodeI, unfold utf8_encode_4 [of "of_nat n", unfolded cp, OF size] n n2 n3 m l)
       (simp add: assms(1,3,5,7))
  moreover have "scalar (of_nat n)" using size by (simp add: scalar_iff cp)
  ultimately show ?thesis using size by (intro exI [of _ "of_nat n"]) (simp add: cp)
qed

lemma raw_utf8_sequence_len_Ok:
  assumes "raw_utf8_sequence_len p = Ok n"
  shows "\<exists>cp. scalar cp \<and> 0x80 \<le> unat cp \<and> utf8_encode cp = take n p"
proof -
  from assms obtain a q where p: "p = a # q"
    by (cases p) (simp_all add: raw_utf8_sequence_len_def)
  consider (two) "194 \<le> unat a" "unat a \<le> 223" | (three) "224 \<le> unat a" "unat a \<le> 239"
    | (four) "240 \<le> unat a" "unat a \<le> 244"
    | (none) "\<not> (194 \<le> unat a \<and> unat a \<le> 223)" "\<not> (224 \<le> unat a \<and> unat a \<le> 239)"
        "\<not> (240 \<le> unat a \<and> unat a \<le> 244)"
    by linarith
  then show ?thesis
  proof cases
    case two
    with assms obtain b r where q: "q = b # r" and n: "n = 2" and b: "128 \<le> unat b" "unat b \<le> 191"
      by (cases q) (auto simp: p raw_utf8_sequence_len_def word_le_nat_alt split: if_split_asm)
    show ?thesis using utf8_2_decode [OF two b] by (simp add: p q n)
  next
    case three
    then have a: "\<not> (0xc2 \<le> a \<and> a \<le> 0xdf)" "0xe0 \<le> a \<and> a \<le> 0xef" by (simp_all add: word_le_nat_alt)
    from assms a obtain b c r where q: "q = b # c # r"
      by (cases q; cases "tl q") (auto simp: p raw_utf8_sequence_len_def split: if_split_asm)
    have n: "n = 3" "128 \<le> unat c" "unat c \<le> 191" "128 \<le> unat b" "unat b \<le> 191"
      and e: "unat a = 224 \<longrightarrow> 160 \<le> unat b" "unat a = 237 \<longrightarrow> unat b \<le> 159"
      using assms a unfolding p q raw_utf8_sequence_len_def
      by (simp_all add: word_le_nat_alt word_less_nat_alt word_unat_eq_iff split: if_split_asm)
    show ?thesis using utf8_3_decode [OF three n(4,5,2,3) e] by (simp add: p q n)
  next
    case four
    then have a: "\<not> (0xc2 \<le> a \<and> a \<le> 0xdf)" "\<not> (0xe0 \<le> a \<and> a \<le> 0xef)" "0xf0 \<le> a \<and> a \<le> 0xf4"
      by (simp_all add: word_le_nat_alt)
    from assms a obtain b c d r where q: "q = b # c # d # r"
      by (cases q; cases "tl q"; cases "tl (tl q)") (auto simp: p raw_utf8_sequence_len_def split: if_split_asm)
    have n: "n = 4" "128 \<le> unat c" "unat c \<le> 191" "128 \<le> unat d" "unat d \<le> 191" "128 \<le> unat b" "unat b \<le> 191"
      and e: "unat a = 240 \<longrightarrow> 144 \<le> unat b" "unat a = 244 \<longrightarrow> unat b \<le> 143"
      using assms a unfolding p q raw_utf8_sequence_len_def
      by (simp_all add: word_le_nat_alt word_less_nat_alt word_unat_eq_iff split: if_split_asm)
    show ?thesis using utf8_4_decode [OF four n(6,7,2,3,4,5) e] by (simp add: p q n)
  next
    case none
    with assms show ?thesis by (auto simp: p raw_utf8_sequence_len_def word_le_nat_alt)
  qed
qed

lemma utf8_simps [simp]:
  "utf8 [] = []" "utf8 (cp # cps) = utf8_encode cp @ utf8 cps" "utf8 (xs @ ys) = utf8 xs @ utf8 ys"
  by (simp_all add: utf8_def)

lemma utf8_encode_ascii: "c < 0x80 \<Longrightarrow> utf8_encode (ucast c) = [c]"
  by (rule utf8_encodeI) (simp add: utf8_encode_1 unat_ucast_u32 word_less_nat_alt)

lemma scalar_ascii: "c < 0x80 \<Longrightarrow> c \<noteq> 0 \<Longrightarrow> scalar (ucast (c :: u8))"
  by (simp add: scalar_iff unat_ucast_u32 word_less_nat_alt unat_gt_0)

text \<open>A byte string is well-formed UTF-8 without NUL.\<close>

definition utf8_text :: "bytes \<Rightarrow> bool" where
  "utf8_text s \<longleftrightarrow> (\<exists>cps. list_all scalar cps \<and> s = utf8 cps)"

lemma utf8_text_Nil: "utf8_text []"
  by (auto simp: utf8_text_def intro: exI [of _ "[]"])

lemma utf8_text_snoc: "utf8_text s \<Longrightarrow> scalar cp \<Longrightarrow> utf8_text (s @ utf8_encode cp)"
proof -
  assume "utf8_text s" "scalar cp"
  then obtain cps where "list_all scalar cps" "s = utf8 cps" by (auto simp: utf8_text_def)
  with \<open>scalar cp\<close> show ?thesis unfolding utf8_text_def by (intro exI [of _ "cps @ [cp]"]) simp
qed

lemma utf8_text_snoc_ascii: "utf8_text s \<Longrightarrow> c < 0x80 \<Longrightarrow> c \<noteq> 0 \<Longrightarrow> utf8_text (s @ [c])"
  using utf8_text_snoc [of s "ucast c"] by (simp add: utf8_encode_ascii scalar_ascii)

lemma simple_escape_ascii: "simple_escape e = Some b \<Longrightarrow> b < 0x80 \<and> b \<noteq> 0"
  by (auto simp: simple_escape_def split: if_split_asm)

lemma append_json_codepoint_Ok:
  "append_json_codepoint cap out cp = Ok out' \<Longrightarrow> scalar cp \<and> out' = out @ utf8_encode cp"
  by (auto simp: append_json_codepoint_def scalar_def store_def split: if_split_asm)

lemma store_Ok: "store cap out bs = Ok out' \<Longrightarrow> out' = out @ bs"
  by (simp add: store_def split: if_split_asm)

lemma json_string_loop_utf8:
  "json_string_loop cap out p = Ok (s, q) \<Longrightarrow> utf8_text out \<Longrightarrow> utf8_text s"
proof (induction cap out p rule: json_string_loop.induct)
  case (1 cap out)
  then show ?case by simp
next
  case (2 cap out c p)
  consider (zero) "c = 0" | (quote) "c = of_char CHR ''\"''" | (esc) "c = 0x5c"
    | (ctl) "c \<noteq> 0" "c \<noteq> of_char CHR ''\"''" "c \<noteq> 0x5c" "c < 0x20"
    | (utf) "c \<noteq> 0" "c \<noteq> of_char CHR ''\"''" "c \<noteq> 0x5c" "\<not> c < 0x20" "c \<ge> 0x80"
    | (plain) "c \<noteq> 0" "c \<noteq> of_char CHR ''\"''" "c \<noteq> 0x5c" "\<not> c < 0x20" "\<not> c \<ge> 0x80"
    by blast
  then show ?case
  proof cases
    case zero
    with "2.prems" show ?thesis by simp
  next
    case quote
    with "2.prems" show ?thesis by simp
  next
    case esc
    then obtain e r where p: "p = e # r" using "2.prems"(1) by (cases p) auto
    show ?thesis
    proof (cases "e = of_char CHR ''u''")
      case True
      with esc p "2.prems"(1) obtain cp n out' where
        u: "unicode_escape r = Ok (cp, n)" "append_json_codepoint cap out cp = Ok out'"
           "json_string_loop cap out' (drop n r) = Ok (s, q)"
        by auto
      from append_json_codepoint_Ok [OF u(2)] "2.prems"(2) have "utf8_text out'" by (auto intro: utf8_text_snoc)
      with u esc p True show ?thesis by (intro "2.IH"(1)) auto
    next
      case False
      with esc p "2.prems"(1) obtain b out' where
        b: "simple_escape e = Some b" "\<not> length out + 1 \<ge> cap" "store cap out [b] = Ok out'"
           "json_string_loop cap out' r = Ok (s, q)"
        by (auto split: option.splits if_split_asm)
      from store_Ok [OF b(3)] simple_escape_ascii [OF b(1)] "2.prems"(2) have "utf8_text out'"
        by (auto intro: utf8_text_snoc_ascii)
      with b esc p False show ?thesis by (intro "2.IH"(2)) auto
    qed
  next
    case ctl
    with "2.prems" show ?thesis by simp
  next
    case utf
    with "2.prems"(1) obtain n out' where
      n: "raw_utf8_sequence_len (c # p) = Ok n" "\<not> n \<ge> size_sub cap (length out)"
         "store cap out (take n (c # p)) = Ok out'" "json_string_loop cap out' (drop (n - 1) p) = Ok (s, q)"
      by (auto split: if_split_asm)
    from raw_utf8_sequence_len_Ok [OF n(1)] obtain cp where "scalar cp" "utf8_encode cp = take n (c # p)" by blast
    with store_Ok [OF n(3)] "2.prems"(2) utf8_text_snoc [of out cp] have "utf8_text out'" by simp
    with n utf show ?thesis by (intro "2.IH"(3)) auto
  next
    case plain
    with "2.prems"(1) obtain out' where
      n: "\<not> length out + 1 \<ge> cap" "store cap out [c] = Ok out'" "json_string_loop cap out' p = Ok (s, q)"
      by (auto split: if_split_asm)
    from store_Ok [OF n(2)] plain "2.prems"(2) have "utf8_text out'"
      by (auto intro: utf8_text_snoc_ascii simp: not_le)
    with n plain show ?thesis by (intro "2.IH"(4)) auto
  qed
qed

text \<open>C8. Whatever the parser accepts as a string decodes to well-formed UTF-8 without NUL that
  fits the buffer with its terminator.\<close>

theorem parse_json_string_utf8:
  "cstr p \<Longrightarrow> 0 < cap \<Longrightarrow> sat (parse_json_string cap p) (\<lambda>(s, q). utf8_text s \<and> length s < cap \<and> cstr q)"
  by (rule sat_mono [OF sat_parse_json_string])
     (auto simp: parse_json_string_def utf8_text_Nil split: if_split_asm dest: json_string_loop_utf8)

text \<open>A JSON writer's quoting of a byte string.\<close>

definition hex_char :: "u8 \<Rightarrow> u8" where
  "hex_char d = (if d < 10 then 48 + d else 87 + d)"

definition json_escape :: "u8 \<Rightarrow> bytes" where
  "json_escape c =
     (if c = 0x22 \<or> c = 0x5c then [0x5c, c]
      else if c = 10 then [0x5c, 0x6e]
      else if c < 0x20 then [0x5c, 0x75, 0x30, 0x30, hex_char (c div 16), hex_char (c mod 16)]
      else [c])"

definition json_quote :: "bytes \<Rightarrow> bytes" where
  "json_quote s = 0x22 # concat (map json_escape s) @ [0x22]"

lemma control_cases: "c < (0x20 :: u8) \<Longrightarrow> \<exists>n<32. c = of_nat n"
  by (intro exI [of _ "unat c"]) (simp add: word_less_nat_alt)

lemma hex_loop_numeral:
  "hex_loop (numeral k) v (c # p) =
     (case hex_digit c of None \<Rightarrow> Bad | Some digit \<Rightarrow> hex_loop (pred_numeral k) (push_bit 4 v OR digit) p)"
  by (simp add: numeral_eq_Suc)

lemma hex_quad_control:
  assumes "c < 0x20"
  shows "json_hex_quad (0x30 # 0x30 # hex_char (c div 16) # hex_char (c mod 16) # p) = Ok (ucast c)"
proof -
  have "\<forall>n\<in>set [0..<32]. json_hex_quad (0x30 # 0x30 # hex_char (of_nat n div 16) # hex_char (of_nat n mod 16) # p)
      = Ok (of_nat n)"
    by (simp add: upt_rec json_hex_quad_def hex_char_def hex_digit_def hex_loop_numeral)
  moreover from control_cases [OF assms] obtain n where "n < 32" "c = of_nat n" by blast
  moreover from this have "ucast c = (of_nat n :: u32)"
    by (simp add: word_unat_eq_iff unat_ucast_u32 unat_of_nat)
  ultimately show ?thesis by simp
qed

lemma high_not_special: "c \<ge> 0x80 \<Longrightarrow> json_escape c = [c]"
  by (auto simp: json_escape_def word_le_nat_alt word_less_nat_alt)

lemma utf8_encode_high:
  assumes "scalar cp" "0x80 \<le> unat cp"
  shows "list_all (\<lambda>c. c \<ge> 0x80) (utf8_encode cp)"
proof -
  have "list_all (\<lambda>n. 128 \<le> n) (map unat (utf8_encode cp))"
    using assms(1)
  proof (cases rule: scalar_size)
    case one
    with assms(2) show ?thesis by simp
  next
    case two
    show ?thesis unfolding utf8_encode_2 [OF two] by simp
  next
    case three
    show ?thesis unfolding utf8_encode_3 [OF three(1,2)] by simp
  next
    case four
    show ?thesis unfolding utf8_encode_4 [OF four] by simp
  qed
  then show ?thesis by (simp add: list.pred_map comp_def word_le_nat_alt)
qed

lemma json_string_loop_escape:
  assumes "c < 0x80" "c \<noteq> 0" "length out + 1 < cap"
  shows "json_string_loop cap out (json_escape c @ p) = json_string_loop cap (out @ [c]) p"
proof -
  consider (quote) "c = 0x22 \<or> c = 0x5c" | (nl) "c = 10"
    | (ctl) "c \<noteq> 0x22" "c \<noteq> 0x5c" "c \<noteq> 10" "c < 0x20"
    | (plain) "c \<noteq> 0x22" "c \<noteq> 0x5c" "c \<noteq> 10" "\<not> c < 0x20"
    by blast
  then show ?thesis
  proof cases
    case quote
    with assms(3) show ?thesis
      by (auto simp: json_escape_def simple_escape_def store_def)
  next
    case nl
    with assms(3) show ?thesis
      by (simp add: json_escape_def simple_escape_def store_def)
  next
    case ctl
    have uc: "ucast c < (0x20 :: u32)" "ucast c \<noteq> (0 :: u32)"
      using ctl(4) assms(2) by (simp_all add: word_less_nat_alt unat_ucast_u32 word_unat_eq_iff)
    then have "unicode_escape (0x30 # 0x30 # hex_char (c div 16) # hex_char (c mod 16) # p) = Ok (ucast c, 4)"
      by (simp add: unicode_escape_def hex_quad_control [OF ctl(4)] word_le_nat_alt word_less_nat_alt)
    moreover have "append_json_codepoint cap out (ucast c) = Ok (out @ [c])"
      using uc assms
      by (simp add: append_json_codepoint_def utf8_encode_ascii store_def size_sub_def word_le_nat_alt word_less_nat_alt)
    moreover have "json_escape c = [0x5c, 0x75, 0x30, 0x30, hex_char (c div 16), hex_char (c mod 16)]"
      using ctl by (simp add: json_escape_def)
    ultimately show ?thesis by simp
  next
    case plain
    with assms show ?thesis
      by (simp add: json_escape_def store_def not_le [symmetric])
  qed
qed

lemma concat_escape_high: "list_all (\<lambda>c. c \<ge> 0x80) bs \<Longrightarrow> concat (map json_escape bs) = bs"
  by (induction bs) (auto simp: high_not_special)

lemma json_string_loop_raw:
  assumes "scalar cp" "0x80 \<le> unat cp" "length out + length (utf8_encode cp) < cap"
  shows "json_string_loop cap out (utf8_encode cp @ p) = json_string_loop cap (out @ utf8_encode cp) p"
proof -
  have high: "list_all (\<lambda>c. c \<ge> 0x80) (utf8_encode cp)" by (rule utf8_encode_high [OF assms(1,2)])
  obtain a r where e: "utf8_encode cp = a # r" using utf8_encode_length [of cp] by (cases "utf8_encode cp") auto
  have a: "a \<ge> 0x80" using high by (simp add: e)
  then have "a \<noteq> 0" "a \<noteq> of_char CHR ''\"''" "a \<noteq> 0x5c" "\<not> a < 0x20"
    by (auto simp: word_le_nat_alt word_less_nat_alt)
  moreover have "raw_utf8_sequence_len (a # r @ p) = Ok (Suc (length r))"
    using raw_utf8_sequence_len_encode [OF assms(1,2), of p] by (simp add: e)
  moreover have "\<not> Suc (length r) \<ge> size_sub cap (length out)"
    using assms(3) by (simp add: e size_sub_def)
  ultimately show ?thesis
    using assms(3) a by (simp add: e store_def)
qed

lemma json_string_loop_quote:
  "list_all scalar cps \<Longrightarrow> length out + length (utf8 cps) < cap \<Longrightarrow>
   json_string_loop cap out (concat (map json_escape (utf8 cps)) @ 0x22 # rest) = Ok (out @ utf8 cps, rest)"
proof (induction cps arbitrary: out)
  case Nil
  then show ?case by (simp add: store_def)
next
  case (Cons cp cps)
  note IH = Cons.IH [of "out @ utf8_encode cp"]
  show ?case
  proof (cases "unat cp < 0x80")
    case True
    define c where "c = (ucast cp :: u8)"
    have c: "c < 0x80" "c \<noteq> 0" "utf8_encode cp = [c]"
      using True Cons.prems(1)
      by (auto simp: c_def word_less_nat_alt unat_ucast_u8 scalar_iff word_unat_eq_iff utf8_encode_def word_le_nat_alt)
    show ?thesis
      using IH Cons.prems json_string_loop_escape [OF c(1,2), of out cap] by (simp add: c(3))
  next
    case False
    then have high: "0x80 \<le> unat cp" by simp
    have sc: "scalar cp" using Cons.prems(1) by simp
    show ?thesis
      using IH Cons.prems json_string_loop_raw [OF sc high, of out cap]
      by (simp add: concat_escape_high [OF utf8_encode_high [OF sc high]])
  qed
qed

text \<open>C9. The string parser inverts a JSON writer: quoting any well-formed UTF-8 text that fits the
  buffer and parsing it gives the text back, whatever follows the closing quote.\<close>

theorem parse_json_string_quote:
  assumes "utf8_text s" "length s < cap"
  shows "parse_json_string cap (json_quote s @ rest) = Ok (s, rest)"
proof -
  from assms(1) obtain cps where "list_all scalar cps" "s = utf8 cps" by (auto simp: utf8_text_def)
  with assms(2) json_string_loop_quote [of cps "[]" cap rest] show ?thesis
    by (simp add: parse_json_string_def json_quote_def)
qed

text \<open>An accented letter, written raw and as an escape.\<close>

lemma utf8_text_e_acute: "utf8_text [0xc3, 0xa9]"
  unfolding utf8_text_def
  by (rule exI [of _ "[0xe9]"]) (simp add: scalar_def utf8_encode_def)

theorem parse_json_string_quote_witness:
  "parse_json_string 8 (json_quote [0xc3, 0xa9] @ [0x2c]) = Ok ([0xc3, 0xa9], [0x2c])"
  using parse_json_string_quote [OF utf8_text_e_acute, of 8 "[0x2c]"] by simp

theorem parse_json_string_utf8_witness:
  "parse_json_string 8 [0x22, 0x5c, 0x75, 0x30, 0x30, 0x65, 0x39, 0x22, 0] = Ok ([0xc3, 0xa9], [0]) \<and>
   utf8_text [0xc3, 0xa9]"
proof -
  have run: "parse_json_string 8 [0x22, 0x5c, 0x75, 0x30, 0x30, 0x65, 0x39, 0x22, 0] = Ok ([0xc3, 0xa9], [0])"
    by code_simp
  show ?thesis
    using parse_json_string_utf8 [of "[0x22, 0x5c, 0x75, 0x30, 0x30, 0x65, 0x39, 0x22, 0]" 8]
    unfolding run by simp
qed

end
