(* ===== verification/Params.thy ===== *)
theory Params
  imports Json
begin

text \<open>
  Generation params: \<^verbatim>\<open>struct generation_params\<close> and \<^verbatim>\<open>enum generation_member\<close> of
  \<^verbatim>\<open>agent.h\<close>, and \<open>parse_generation_params\<close> of \<^verbatim>\<open>request.c\<close>. The C code reaches a field
  through its offset in the structure; here each member has its update function.
\<close>

section \<open>Definitions\<close>

definition GENERATION_TEXT_MAX :: nat where "GENERATION_TEXT_MAX = 128"

datatype generation_member =
    GENERATION_FORK_INDEX | GENERATION_FORK_COUNT | GENERATION_PARALLEL_INDEX | GENERATION_PARALLEL_COUNT | GENERATION_PARENT_GENERATION | GENERATION_GENERATION
  | GENERATION_RESUME_TIME | GENERATION_VM_ID | GENERATION_FORK_BATCH_ID | GENERATION_HOSTNAME | GENERATION_RESUME_ENTROPY_SEED

definition generation_members :: "generation_member list" where
  "generation_members = [
     GENERATION_FORK_INDEX, GENERATION_FORK_COUNT, GENERATION_PARALLEL_INDEX, GENERATION_PARALLEL_COUNT, GENERATION_PARENT_GENERATION, GENERATION_GENERATION,
     GENERATION_RESUME_TIME, GENERATION_VM_ID, GENERATION_FORK_BATCH_ID, GENERATION_HOSTNAME, GENERATION_RESUME_ENTROPY_SEED]"

fun generation_member_name :: "generation_member \<Rightarrow> string" where
  "generation_member_name GENERATION_FORK_INDEX = ''fork_index''"
| "generation_member_name GENERATION_FORK_COUNT = ''fork_count''"
| "generation_member_name GENERATION_PARALLEL_INDEX = ''parallel_index''"
| "generation_member_name GENERATION_PARALLEL_COUNT = ''parallel_count''"
| "generation_member_name GENERATION_PARENT_GENERATION = ''parent_generation''"
| "generation_member_name GENERATION_GENERATION = ''generation''"
| "generation_member_name GENERATION_RESUME_TIME = ''resume_time_unix_ns''"
| "generation_member_name GENERATION_VM_ID = ''vm_id''"
| "generation_member_name GENERATION_FORK_BATCH_ID = ''fork_batch_id''"
| "generation_member_name GENERATION_HOSTNAME = ''hostname''"
| "generation_member_name GENERATION_RESUME_ENTROPY_SEED = ''resume_entropy_seed''"

fun generation_member_index :: "generation_member \<Rightarrow> nat" where
  "generation_member_index GENERATION_FORK_INDEX = 0"
| "generation_member_index GENERATION_FORK_COUNT = 1"
| "generation_member_index GENERATION_PARALLEL_INDEX = 2"
| "generation_member_index GENERATION_PARALLEL_COUNT = 3"
| "generation_member_index GENERATION_PARENT_GENERATION = 4"
| "generation_member_index GENERATION_GENERATION = 5"
| "generation_member_index GENERATION_RESUME_TIME = 6"
| "generation_member_index GENERATION_VM_ID = 7"
| "generation_member_index GENERATION_FORK_BATCH_ID = 8"
| "generation_member_index GENERATION_HOSTNAME = 9"
| "generation_member_index GENERATION_RESUME_ENTROPY_SEED = 10"

text \<open>\<^verbatim>\<open>spec->text\<close>: the member is a string, else an unsigned number.\<close>

definition generation_member_text :: "generation_member \<Rightarrow> bool" where
  "generation_member_text m \<longleftrightarrow>
     m \<in> {GENERATION_VM_ID, GENERATION_FORK_BATCH_ID, GENERATION_HOSTNAME, GENERATION_RESUME_ENTROPY_SEED}"

record generation_params =
  g_present :: u32
  g_fork_index :: u64
  g_fork_count :: u64
  g_parallel_index :: u64
  g_parallel_count :: u64
  g_parent_generation :: u64
  g_generation :: u64
  g_resume_time_unix_ns :: u64
  g_vm_id :: bytes
  g_fork_batch_id :: bytes
  g_hostname :: bytes
  g_resume_entropy_seed :: bytes

definition zero_params :: generation_params where
  "zero_params = \<lparr>g_present = 0, g_fork_index = 0, g_fork_count = 0, g_parallel_index = 0, g_parallel_count = 0,
     g_parent_generation = 0, g_generation = 0, g_resume_time_unix_ns = 0, g_vm_id = [], g_fork_batch_id = [],
     g_hostname = [], g_resume_entropy_seed = []\<rparr>"

text \<open>The store of a number or of a text through the offset of the member.\<close>

fun set_number :: "generation_member \<Rightarrow> u64 \<Rightarrow> generation_params \<Rightarrow> generation_params" where
  "set_number GENERATION_FORK_INDEX v g = g\<lparr>g_fork_index := v\<rparr>"
| "set_number GENERATION_FORK_COUNT v g = g\<lparr>g_fork_count := v\<rparr>"
| "set_number GENERATION_PARALLEL_INDEX v g = g\<lparr>g_parallel_index := v\<rparr>"
| "set_number GENERATION_PARALLEL_COUNT v g = g\<lparr>g_parallel_count := v\<rparr>"
| "set_number GENERATION_PARENT_GENERATION v g = g\<lparr>g_parent_generation := v\<rparr>"
| "set_number GENERATION_GENERATION v g = g\<lparr>g_generation := v\<rparr>"
| "set_number GENERATION_RESUME_TIME v g = g\<lparr>g_resume_time_unix_ns := v\<rparr>"
| "set_number _ v g = g"

fun set_text :: "generation_member \<Rightarrow> bytes \<Rightarrow> generation_params \<Rightarrow> generation_params" where
  "set_text GENERATION_VM_ID s g = g\<lparr>g_vm_id := s\<rparr>"
| "set_text GENERATION_FORK_BATCH_ID s g = g\<lparr>g_fork_batch_id := s\<rparr>"
| "set_text GENERATION_HOSTNAME s g = g\<lparr>g_hostname := s\<rparr>"
| "set_text GENERATION_RESUME_ENTROPY_SEED s g = g\<lparr>g_resume_entropy_seed := s\<rparr>"
| "set_text _ s g = g"

definition lookup_generation_member :: "bytes \<Rightarrow> generation_member option" where
  "lookup_generation_member key =
     foldl (\<lambda>found m. if key = lit (generation_member_name m) then Some m else found) None generation_members"

definition generation_bit :: "generation_member \<Rightarrow> u32" where
  "generation_bit m = push_bit (generation_member_index m) 1"

definition parse_generation_member :: "bytes \<Rightarrow> generation_params \<Rightarrow> cur \<Rightarrow> (generation_params \<times> cur) cres" where
  "parse_generation_member key g p =
     (case lookup_generation_member key of
        None \<Rightarrow> bnd (skip_json_value GEN_PARAMS_MAX p) (\<lambda>q. Ok (g, q))
      | Some m \<Rightarrow>
          if g_present g AND generation_bit m \<noteq> 0 then Bad
          else
          bnd (if generation_member_text m
               then bnd (parse_json_string GENERATION_TEXT_MAX p) (\<lambda>(s, q). Ok (set_text m s g, q))
               else bnd (parse_json_u64 p) (\<lambda>(v, q). Ok (set_number m v g, q))) (\<lambda>(g', q).
          Ok (g'\<lparr>g_present := g_present g' OR generation_bit m\<rparr>, q)))"

lemma skip_value_loop_length: "skip_value_loop cap opened p = Ok q \<Longrightarrow> length q \<le> length p"
proof (induction cap opened p rule: skip_value_loop.induct)
  case (1 cap opened p)
  from "1.prems" obtain entered st p1 where step: "value_step cap opened p = Ok (entered, st, p1)"
    by (subst (asm) skip_value_loop.simps) auto
  have p1: "length p1 < length p" by (rule value_step_length [OF step])
  show ?case
  proof (cases entered)
    case True
    with "1.prems" step have "skip_value_loop cap st p1 = Ok q"
      by (subst (asm) skip_value_loop.simps) simp
    with "1.IH"(1) [OF step refl refl True] p1 show ?thesis by simp
  next
    case False
    with "1.prems" step obtain st' p2 where aft: "after_value cap st p1 = Ok (st', p2)"
      and rest: "if st' = [] then q = p2 else skip_value_loop cap st' p2 = Ok q"
      by (subst (asm) skip_value_loop.simps) (auto split: if_split_asm)
    have p2: "length p2 \<le> length p1" by (rule after_value_length [OF aft])
    show ?thesis
    proof (cases "st' = []")
      case True
      with rest p1 p2 show ?thesis by simp
    next
      case ne: False
      with rest have "skip_value_loop cap st' p2 = Ok q" by simp
      with "1.IH"(2) [OF step refl refl False aft refl ne] p1 p2 show ?thesis by simp
    qed
  qed
qed

lemma parse_generation_member_length: "parse_generation_member key g p = Ok (g', q) \<Longrightarrow> length q \<le> length p"
proof (cases "lookup_generation_member key")
  case None
  then show "parse_generation_member key g p = Ok (g', q) \<Longrightarrow> length q \<le> length p"
    by (auto simp: parse_generation_member_def skip_json_value_def simp del: skip_value_loop.simps
        dest: skip_value_loop_length)
next
  case (Some m)
  then show "parse_generation_member key g p = Ok (g', q) \<Longrightarrow> length q \<le> length p"
    by (cases "generation_member_text m")
       (auto simp: parse_generation_member_def split: if_split_asm
         dest!: parse_json_string_length parse_json_u64_length)
qed

function params_loop :: "generation_params \<Rightarrow> cur \<Rightarrow> (generation_params \<times> cur) cres" where
  "params_loop g p =
     bnd (parse_json_key GEN_PARAMS_MAX p) (\<lambda>(key, p1).
     bnd (parse_generation_member key g p1) (\<lambda>(g', p2).
     bnd (skip_ws p2) (\<lambda>p3.
     bnd (rd p3 0) (\<lambda>c.
     if c = of_char CHR ''}'' then Ok (g', p3)
     else if c \<noteq> of_char CHR '','' then Bad
     else bnd (skip_ws (drop 1 p3)) (\<lambda>p4. params_loop g' p4)))))"
  by pat_completeness auto
termination
  by (relation "measure (\<lambda>(g, p). length p)")
     (auto dest!: parse_json_key_length parse_generation_member_length skip_ws_length)

declare params_loop.simps [simp del]

definition ends_object :: "cur \<Rightarrow> generation_params \<Rightarrow> generation_params cres" where
  "ends_object p g = bnd (skip_ws (drop 1 p)) (\<lambda>q. bnd (rd q 0) (\<lambda>c. if c = 0 then Ok g else Bad))"

definition parse_generation_params :: "cur \<Rightarrow> generation_params cres" where
  "parse_generation_params params =
     bnd (strlen params) (\<lambda>n. if n \<ge> GEN_PARAMS_MAX then Bad else
     bnd (skip_ws params) (\<lambda>p.
     bnd (rd p 0) (\<lambda>c. if c \<noteq> of_char CHR ''{'' then Bad else
     bnd (skip_ws (drop 1 p)) (\<lambda>p.
     bnd (rd p 0) (\<lambda>c. if c = of_char CHR ''}'' then ends_object p zero_params else
     bnd (params_loop zero_params p) (\<lambda>(g, q). ends_object q g))))))"

section \<open>Safety and the presence bits\<close>

text \<open>The value of a member's field.\<close>

fun number_of :: "generation_member \<Rightarrow> generation_params \<Rightarrow> u64" where
  "number_of GENERATION_FORK_INDEX g = g_fork_index g"
| "number_of GENERATION_FORK_COUNT g = g_fork_count g"
| "number_of GENERATION_PARALLEL_INDEX g = g_parallel_index g"
| "number_of GENERATION_PARALLEL_COUNT g = g_parallel_count g"
| "number_of GENERATION_PARENT_GENERATION g = g_parent_generation g"
| "number_of GENERATION_GENERATION g = g_generation g"
| "number_of GENERATION_RESUME_TIME g = g_resume_time_unix_ns g"
| "number_of _ g = 0"

fun text_of :: "generation_member \<Rightarrow> generation_params \<Rightarrow> bytes" where
  "text_of GENERATION_VM_ID g = g_vm_id g"
| "text_of GENERATION_FORK_BATCH_ID g = g_fork_batch_id g"
| "text_of GENERATION_HOSTNAME g = g_hostname g"
| "text_of GENERATION_RESUME_ENTROPY_SEED g = g_resume_entropy_seed g"
| "text_of _ g = []"

definition present_bit :: "generation_member \<Rightarrow> generation_params \<Rightarrow> bool" where
  "present_bit m g \<longleftrightarrow> bit (g_present g) (generation_member_index m)"

text \<open>
  Each text fits its buffer, and a member whose presence bit is clear still has the zero
  value the structure started with.
\<close>

definition params_wf :: "generation_params \<Rightarrow> bool" where
  "params_wf g \<longleftrightarrow>
     (\<forall>m. length (text_of m g) < GENERATION_TEXT_MAX \<and> 0 \<notin> set (text_of m g)) \<and>
     (\<forall>m. \<not> present_bit m g \<longrightarrow> number_of m g = 0 \<and> text_of m g = [])"

lemma generation_member_index_inject: "generation_member_index m = generation_member_index n \<longleftrightarrow> m = n"
proof
  assume "generation_member_index m = generation_member_index n"
  moreover have "generation_members ! generation_member_index k = k" for k
    by (cases k) (simp_all add: generation_members_def)
  ultimately show "m = n" by metis
qed simp

lemma bit_generation_bit: "bit (generation_bit m) i \<longleftrightarrow> i = generation_member_index m"
proof -
  have "generation_member_index m < 32" by (cases m) simp_all
  then show ?thesis by (auto simp: generation_bit_def bit_exp_iff)
qed

lemma number_of_set_number:
  "\<not> generation_member_text m \<Longrightarrow> number_of k (set_number m v g) = (if k = m then v else number_of k g)"
  by (cases m; cases k) (simp_all add: generation_member_text_def)

lemma text_of_set_number [simp]: "text_of k (set_number m v g) = text_of k g"
  by (cases m; cases k) simp_all

lemma text_of_set_text:
  "generation_member_text m \<Longrightarrow> text_of k (set_text m t g) = (if k = m then t else text_of k g)"
  by (cases m; cases k) (simp_all add: generation_member_text_def)

lemma number_of_set_text [simp]: "number_of k (set_text m t g) = number_of k g"
  by (cases m; cases k) simp_all

lemma g_present_set [simp]:
  "g_present (set_number m v g) = g_present g" "g_present (set_text m t g) = g_present g"
  by (cases m; simp)+

lemma fields_present_update [simp]:
  "number_of k (g\<lparr>g_present := b\<rparr>) = number_of k g" "text_of k (g\<lparr>g_present := b\<rparr>) = text_of k g"
  by (cases k; simp)+

lemma present_bit_or:
  "present_bit k (g\<lparr>g_present := b OR generation_bit m\<rparr>) \<longleftrightarrow> k = m \<or> bit b (generation_member_index k)"
  by (auto simp: present_bit_def bit_or_iff bit_generation_bit generation_member_index_inject)

lemma params_wf_set_number:
  assumes "params_wf g" "\<not> generation_member_text m"
  shows "params_wf ((set_number m v g)\<lparr>g_present := g_present g OR generation_bit m\<rparr>)"
  using assms unfolding params_wf_def
  by (auto simp: present_bit_or number_of_set_number) (auto simp: present_bit_def)

lemma params_wf_set_text:
  assumes "params_wf g" "generation_member_text m" "length t < GENERATION_TEXT_MAX" "0 \<notin> set t"
  shows "params_wf ((set_text m t g)\<lparr>g_present := g_present g OR generation_bit m\<rparr>)"
  using assms unfolding params_wf_def
  by (auto simp: present_bit_or text_of_set_text) (auto simp: present_bit_def)

lemma params_wf_zero: "params_wf zero_params"
proof -
  have "number_of m zero_params = 0" "text_of m zero_params = []" for m
    by (cases m; simp add: zero_params_def)+
  then show ?thesis by (simp add: params_wf_def GENERATION_TEXT_MAX_def)
qed

lemma sat_parse_generation_member:
  assumes "cstr p" "params_wf g"
  shows "sat (parse_generation_member key g p) (\<lambda>(g', q). params_wf g' \<and> cstr q)"
proof (cases "lookup_generation_member key")
  case None
  then show ?thesis
    using assms by (auto simp: parse_generation_member_def GEN_PARAMS_MAX_def intro: sat_mono [OF sat_skip_json_value])
next
  case (Some m)
  show ?thesis
  proof (cases "generation_member_text m")
    case True
    have "sat (parse_json_string GENERATION_TEXT_MAX p) (\<lambda>(t, q). length t < GENERATION_TEXT_MAX \<and> 0 \<notin> set t \<and> cstr q)"
      by (rule sat_parse_json_string [OF assms(1)]) (simp add: GENERATION_TEXT_MAX_def)
    then show ?thesis
      using Some True assms(2)
      by (auto simp: parse_generation_member_def params_wf_set_text elim!: sat_mono)
  next
    case False
    then show ?thesis
      using Some assms(2) sat_parse_json_u64 [OF assms(1)]
      by (auto simp: parse_generation_member_def params_wf_set_number elim!: sat_mono)
  qed
qed

lemma sat_params_loop:
  "cstr p \<Longrightarrow> params_wf g \<Longrightarrow>
   sat (params_loop g p) (\<lambda>(g', q). params_wf g' \<and> (\<exists>r. q = of_char CHR ''}'' # r) \<and> cstr q)"
proof (induction g p rule: params_loop.induct)
  case (1 g p)
  let ?Q = "\<lambda>(g', q). params_wf g' \<and> (\<exists>r. q = of_char CHR ''}'' # r) \<and> cstr q"
  have cap: "0 < GEN_PARAMS_MAX" by (simp add: GEN_PARAMS_MAX_def)
  show ?case
  proof (subst params_loop.simps, rule sat_seq [OF sat_parse_json_key [OF "1.prems"(1) cap]], goal_cases)
    case (1 x)
    then obtain key p1 where x: "x = (key, p1)" "parse_json_key GEN_PARAMS_MAX p = Ok (key, p1)" "cstr p1"
      by (cases x) auto
    have "sat (bnd (parse_generation_member key g p1) (\<lambda>(g', p2).
        bnd (skip_ws p2) (\<lambda>p3. bnd (rd p3 0) (\<lambda>c.
        if c = of_char CHR ''}'' then Ok (g', p3) else if c \<noteq> of_char CHR '','' then Bad
        else bnd (skip_ws (drop 1 p3)) (\<lambda>p4. params_loop g' p4))))) ?Q"
    proof (rule sat_seq [OF sat_parse_generation_member [OF x(3) "1.prems"(2)]], goal_cases)
      case (1 y)
      then obtain g' p2 where y: "y = (g', p2)" "parse_generation_member key g p1 = Ok (g', p2)" "params_wf g'" "cstr p2"
        by (cases y) auto
      note IH = "1.IH" [OF x(2) refl y(2) refl]
      have "sat (bnd (skip_ws p2) (\<lambda>p3. bnd (rd p3 0) (\<lambda>c.
        if c = of_char CHR ''}'' then Ok (g', p3) else if c \<noteq> of_char CHR '','' then Bad
        else bnd (skip_ws (drop 1 p3)) (\<lambda>p4. params_loop g' p4)))) ?Q"
        using y IH
        by (intro sat_seq [OF sat_skip_ws [OF y(4)]] sat_seq [OF sat_rd0] sat_if)
           (auto simp: rd_0_eq_Ok intro!: sat_seq [OF sat_skip_ws] simp del: sat_bnd)
      then show ?case by (simp add: y(1) del: sat_bnd)
    qed
    then show ?case by (simp add: x(1) del: sat_bnd)
  qed
qed

lemma sat_ends_object:
  "params_wf g \<Longrightarrow> cstr r \<Longrightarrow> sat (ends_object (0x7d # r) g) params_wf"
  unfolding ends_object_def
  by (auto intro!: sat_seq [OF sat_skip_ws] sat_seq [OF sat_rd0] simp del: sat_bnd)

lemma sat_parse_generation_params:
  "0 \<notin> set s \<Longrightarrow> sat (parse_generation_params (s @ [0])) params_wf"
proof -
  assume "0 \<notin> set s"
  then have s: "cstr (s @ [0])" by simp
  have body: "sat (bnd (params_loop zero_params p) (\<lambda>(g, q). ends_object q g)) params_wf" if "cstr p" for p
    by (rule sat_seq [OF sat_params_loop [OF that params_wf_zero]]) (auto intro!: sat_ends_object)
  have inner: "sat (bnd (rd p 0) (\<lambda>c. if c = 0x7d then ends_object p zero_params else
      bnd (params_loop zero_params p) (\<lambda>(g, q). ends_object q g))) params_wf" if "cstr p" for p
    using that
    by (intro sat_seq [OF sat_rd0] sat_if body)
       (auto simp: rd_0_eq_Ok intro!: sat_ends_object params_wf_zero)
  show ?thesis
    unfolding parse_generation_params_def
    by (rule sat_seq [OF sat_strlen [OF s]], rule sat_if, simp, rule sat_seq [OF sat_skip_ws [OF s]],
        rule sat_seq, erule sat_rd0, rule sat_if, simp, rule sat_seq, rule sat_skip_ws)
       (auto intro!: inner simp del: sat_bnd)
qed


text \<open>Two known members around an unknown one with a nested value.\<close>

definition params_example :: bytes where
  "params_example = lit ''{\"generation\":7,\"run_id\":[1,{\"a\":null}],\"vm_id\":\"x\"}''"


end
