(* ===== verification/Sys.thy ===== *)
theory Sys
  imports Prelude
begin

text \<open>
  The effects of the agent. The kernel is the environment: it answers each system call, in
  order, from a list that is arbitrary up to what the manual pages promise (\<open>conforms\<close>).
  A computation maps a world to an outcome and a world. The world holds the answers still
  to come, the trace of calls made with the answers they got, and the global variables of
  the agent. A call with no answer left has not returned: the outcome is \<open>Blocked\<close>, and the
  trace still shows everything done before it. Statements about all lists of answers are
  statements about all behaviours of the kernel.
\<close>

section \<open>System calls and their answers\<close>

text \<open>Error numbers, and the ones the code tells apart (\<^verbatim>\<open>EWOULDBLOCK\<close> is \<^verbatim>\<open>EAGAIN\<close>).\<close>

type_synonym errno = nat

abbreviation (input) "ENOENT \<equiv> (2 :: errno)"
abbreviation (input) "ESRCH \<equiv> (3 :: errno)"
abbreviation (input) "EINTR \<equiv> (4 :: errno)"
abbreviation (input) "ECHILD \<equiv> (10 :: errno)"
abbreviation (input) "EAGAIN \<equiv> (11 :: errno)"
abbreviation (input) "EBUSY \<equiv> (16 :: errno)"
abbreviation (input) "EEXIST \<equiv> (17 :: errno)"
abbreviation (input) "ENOSPC \<equiv> (28 :: errno)"
abbreviation (input) "ENOTEMPTY \<equiv> (39 :: errno)"

datatype wstatus = Exited nat | Signaled nat | OtherStatus

text \<open>User and system time of a reaped child, in seconds and microseconds.\<close>

record rusage =
  ru_utime_sec :: int
  ru_utime_usec :: int
  ru_stime_sec :: int
  ru_stime_usec :: int

text \<open>
  \<open>Recv\<close> is \<^verbatim>\<open>recv\<close> with \<^verbatim>\<open>MSG_DONTWAIT\<close>, \<open>Clock\<close> is \<^verbatim>\<open>clock_gettime(CLOCK_MONOTONIC)\<close>,
  \<open>Wait pid nohang\<close> is \<^verbatim>\<open>wait4\<close> or \<^verbatim>\<open>waitpid\<close>, and \<open>Sys\<close> any other call by its name, its
  integer arguments and its string arguments; \<open>Fetch\<close> is such a call that fills a buffer of
  the given size.
\<close>

datatype call =
    Read int nat
  | Recv int nat
  | Write int bytes
  | Close int
  | Clock
  | Wait int bool
  | Poll "(int \<times> u16) list" int
  | Pipe int
  | Sys string "int list" "bytes list"
  | Fetch string nat "int list" "bytes list"

datatype answer =
    Data bytes
  | Num int
  | Err errno
  | Time int int
  | Status int wstatus rusage
  | Revents "u16 list"
  | Fds int int

text \<open>The process a wait may report: the one asked for, any child for -1, none (0) without hanging.\<close>

definition waited :: "int \<Rightarrow> bool \<Rightarrow> int \<Rightarrow> bool" where
  "waited pid nohang p \<longleftrightarrow> p = pid \<or> pid < 0 \<and> 0 < p \<or> nohang \<and> p = 0"

fun conforms :: "call \<Rightarrow> answer \<Rightarrow> bool" where
  "conforms _ (Err e) = True"
| "conforms (Read fd n) (Data bs) = (length bs \<le> n)"
| "conforms (Recv fd n) (Data bs) = (length bs \<le> n)"
| "conforms (Write fd bs) (Num n) = (0 \<le> n \<and> n \<le> int (length bs))"
| "conforms (Close fd) (Num n) = (n = 0)"
| "conforms Clock (Time s ns) = (0 \<le> s \<and> 0 \<le> ns \<and> ns < 1000000000)"
| "conforms (Wait pid nohang) (Status p st ru) = waited pid nohang p"
| "conforms (Poll fds timeout) (Revents rs) = (length rs = length fds)"
| "conforms (Pipe flags) (Fds a b) = (0 \<le> a \<and> 0 \<le> b \<and> a \<noteq> b)"
| "conforms (Sys name is ss) (Num n) = (0 \<le> n)"
| "conforms (Fetch name cap is ss) (Data bs) = (length bs \<le> cap)"
| "conforms _ _ = False"

section \<open>Worlds and computations\<close>

type_synonym event = "call \<times> answer"

record world =
  w_answers :: "answer list"
  w_trace :: "event list"
  w_console_mirror :: bool
  w_t_init_start :: i64
  w_t_listen_ready :: i64
  w_t_request_accept :: i64
  w_t_request_decode :: i64
  w_t_command_start :: i64
  w_t_command_exit :: i64
  w_t_command_user_us :: i64
  w_t_command_system_us :: i64
  w_mount_cleanup_poisoned :: bool
  w_sigchld_pipe :: "int \<times> int"
  w_proc_dir_fd :: int

text \<open>
  \<open>Undef\<close> is an access outside a buffer. \<open>Exit\<close> ends the process.
\<close>

datatype 'a outcome = Ret 'a | Blocked | Undef | Exit nat

type_synonym 'a io = "world \<Rightarrow> 'a outcome \<times> world"

definition ret :: "'a \<Rightarrow> 'a io" where
  "ret x w = (Ret x, w)"

definition iob :: "'a io \<Rightarrow> ('a \<Rightarrow> 'b io) \<Rightarrow> 'b io" where
  "iob m f w =
     (case m w of
        (Ret x, w') \<Rightarrow> f x w'
      | (Blocked, w') \<Rightarrow> (Blocked, w')
      | (Undef, w') \<Rightarrow> (Undef, w')
      | (Exit c, w') \<Rightarrow> (Exit c, w'))"

definition undef :: "'a io" where
  "undef w = (Undef, w)"

definition exit_process :: "nat \<Rightarrow> 'a io" where
  "exit_process c w = (Exit c, w)"

definition sys :: "call \<Rightarrow> answer io" where
  "sys c w =
     (case w_answers w of
        [] \<Rightarrow> (Blocked, w)
      | a # as \<Rightarrow>
          if conforms c a then (Ret a, w\<lparr>w_answers := as, w_trace := w_trace w @ [(c, a)]\<rparr>)
          else (Blocked, w))"

definition gets :: "(world \<Rightarrow> 'a) \<Rightarrow> 'a io" where
  "gets f w = (Ret (f w), w)"

definition modify :: "(world \<Rightarrow> world) \<Rightarrow> unit io" where
  "modify f w = (Ret (), f w)"

lemma iob_cong [fundef_cong]:
  "w = w' \<Longrightarrow> m w' = m' w' \<Longrightarrow> (\<And>x w''. m' w' = (Ret x, w'') \<Longrightarrow> f x w'' = g x w'') \<Longrightarrow>
   iob m f w = iob m' g w'"
  by (auto simp: iob_def split: prod.splits outcome.splits)

lemma iob_Ret [simp]: "m w = (Ret x, w') \<Longrightarrow> iob m f w = f x w'"
  by (simp add: iob_def)

lemma iob_assoc: "iob (iob m f) g = iob m (\<lambda>x. iob (f x) g)"
  by (rule ext) (auto simp: iob_def split: prod.splits outcome.splits)

lemma iob_ret [simp]: "iob (ret x) f = f x"
  by (rule ext) (simp add: iob_def ret_def)

lemma iob_if: "iob (if b then m else n) f = (if b then iob m f else iob n f)"
  by simp

lemma iob_eq_Ret:
  "iob m f w = (Ret y, w') \<longleftrightarrow> (\<exists>x w1. m w = (Ret x, w1) \<and> f x w1 = (Ret y, w'))"
  by (auto simp: iob_def split: prod.splits outcome.splits)

section \<open>A Hoare logic\<close>

text \<open>
  \<open>holds r Q E\<close>: the run is defined; a return satisfies \<open>Q\<close> of the value and the world, and
  a run that is blocked or has ended the process satisfies \<open>E\<close> of the world it left.
\<close>

fun holds :: "'a outcome \<times> world \<Rightarrow> ('a \<Rightarrow> world \<Rightarrow> bool) \<Rightarrow> (world \<Rightarrow> bool) \<Rightarrow> bool" where
  "holds (Ret x, w) Q E = Q x w"
| "holds (Blocked, w) Q E = E w"
| "holds (Exit c, w) Q E = E w"
| "holds (Undef, w) Q E = False"

lemma holds_bind:
  assumes "holds (m w) P E" "\<And>x w'. m w = (Ret x, w') \<Longrightarrow> P x w' \<Longrightarrow> holds (f x w') Q E"
  shows "holds (iob m f w) Q E"
  using assms by (cases "m w" rule: holds.cases [of "(a, b, c)" for a b c]) (auto simp: iob_def)

lemma holds_iob: "holds (iob m f w) Q E = holds (m w) (\<lambda>x w'. holds (f x w') Q E) E"
  by (cases "m w" rule: holds.cases [of "(a, b, c)" for a b c]) (auto simp: iob_def)

lemma holds_mono:
  assumes "holds r P E" "\<And>x w. r = (Ret x, w) \<Longrightarrow> P x w \<Longrightarrow> Q x w" "\<And>w. E w \<Longrightarrow> F w"
  shows "holds r Q F"
  using assms by (cases r rule: holds.cases [of "(a, b, c)" for a b c]) auto

lemma holds_if: "(b \<Longrightarrow> holds (m w) Q E) \<Longrightarrow> (\<not> b \<Longrightarrow> holds (n w) Q E) \<Longrightarrow> holds ((if b then m else n) w) Q E"
  by simp

lemma holds_ret [simp]: "holds (ret x w) Q E = Q x w"
  by (simp add: ret_def)

lemma holds_gets [simp]: "holds (gets f w) Q E = Q (f w) w"
  by (simp add: gets_def)

lemma holds_modify [simp]: "holds (modify f w) Q E = Q () (f w)"
  by (simp add: modify_def)

lemma holds_exit [simp]: "holds (exit_process c w) Q E = E w"
  by (simp add: exit_process_def)

lemma holds_undef [simp]: "holds (undef w) Q E = False"
  by (simp add: undef_def)

lemma holds_RetD: "holds r Q E \<Longrightarrow> r = (Ret x, w) \<Longrightarrow> Q x w"
  by simp

text \<open>One call: the answer conforms, the trace grows by the event.\<close>

definition answered :: "call \<Rightarrow> answer \<Rightarrow> world \<Rightarrow> world \<Rightarrow> bool" where
  "answered c a w w' \<longleftrightarrow> conforms c a \<and>
     w' = w\<lparr>w_answers := tl (w_answers w), w_trace := w_trace w @ [(c, a)]\<rparr> \<and> w_answers w = a # tl (w_answers w)"

lemma sys_Ret: "sys c w = (Ret a, w') \<longleftrightarrow> answered c a w w'"
  by (cases "w_answers w") (auto simp: sys_def answered_def)

lemma holds_sys:
  "(\<And>a w'. answered c a w w' \<Longrightarrow> Q a w') \<Longrightarrow> E w \<Longrightarrow> holds (sys c w) Q E"
  by (cases "w_answers w") (auto simp: sys_def answered_def)

section \<open>Every computation consumes answers\<close>

text \<open>
  \<open>shrinks m\<close>: \<open>m\<close> never adds answers, so a loop whose body makes a call runs out of them.
\<close>

definition shrinks :: "'a io \<Rightarrow> bool" where
  "shrinks m \<longleftrightarrow> (\<forall>w x w'. m w = (Ret x, w') \<longrightarrow> length (w_answers w') \<le> length (w_answers w))"

named_theorems shrinks_intro "computations that only consume answers"

lemma shrinksD: "shrinks m \<Longrightarrow> m w = (Ret x, w') \<Longrightarrow> length (w_answers w') \<le> length (w_answers w)"
  by (auto simp: shrinks_def)

lemma sys_less: "sys c w = (Ret a, w') \<Longrightarrow> length (w_answers w') < length (w_answers w)"
  by (cases "w_answers w") (auto simp: sys_def split: if_split_asm)

lemma shrinks_sys [shrinks_intro]: "shrinks (sys c)"
  by (auto simp: shrinks_def dest: sys_less)

lemma shrinks_ret [shrinks_intro]: "shrinks (ret x)"
  by (simp add: shrinks_def ret_def)

lemma shrinks_undef [shrinks_intro]: "shrinks undef"
  by (simp add: shrinks_def undef_def)

lemma shrinks_exit [shrinks_intro]: "shrinks (exit_process c)"
  by (simp add: shrinks_def exit_process_def)

lemma shrinks_gets [shrinks_intro]: "shrinks (gets f)"
  by (simp add: shrinks_def gets_def)

lemma shrinks_modify [shrinks_intro]: "(\<And>w. w_answers (f w) = w_answers w) \<Longrightarrow> shrinks (modify f)"
  by (simp add: shrinks_def modify_def)

lemma shrinks_iob [shrinks_intro]: "shrinks m \<Longrightarrow> (\<And>x. shrinks (f x)) \<Longrightarrow> shrinks (iob m f)"
  by (fastforce simp: shrinks_def iob_eq_Ret intro: order_trans)

lemma shrinks_if [shrinks_intro]: "shrinks m \<Longrightarrow> shrinks n \<Longrightarrow> shrinks (if b then m else n)"
  by simp

section \<open>What a trace shows\<close>

text \<open>The bytes a trace wrote to a descriptor, and the bytes it read from one.\<close>

fun written :: "int \<Rightarrow> event \<Rightarrow> bytes" where
  "written fd (Write g bs, Num n) = (if g = fd then take (nat n) bs else [])"
| "written fd _ = []"

definition wire :: "int \<Rightarrow> event list \<Rightarrow> bytes" where
  "wire fd tr = concat (map (written fd) tr)"

fun got :: "int \<Rightarrow> event \<Rightarrow> bytes" where
  "got fd (Read g n, Data bs) = (if g = fd then bs else [])"
| "got fd (Recv g n, Data bs) = (if g = fd then bs else [])"
| "got fd _ = []"

definition input :: "int \<Rightarrow> event list \<Rightarrow> bytes" where
  "input fd tr = concat (map (got fd) tr)"

lemma wire_append [simp]: "wire fd (a @ b) = wire fd a @ wire fd b"
  by (simp add: wire_def)

lemma wire_Nil [simp]: "wire fd [] = []"
  by (simp add: wire_def)

lemma wire_Cons [simp]: "wire fd (e # tr) = written fd e @ wire fd tr"
  by (simp add: wire_def)

lemma input_append [simp]: "input fd (a @ b) = input fd a @ input fd b"
  by (simp add: input_def)

lemma input_Nil [simp]: "input fd [] = []"
  by (simp add: input_def)

lemma input_Cons [simp]: "input fd (e # tr) = got fd e @ input fd tr"
  by (simp add: input_def)

section \<open>The calls by their results\<close>

text \<open>
  A C call that returns -1 with \<^verbatim>\<open>errno\<close> set is \<open>Inl errno\<close>, else \<open>Inr\<close> of its result. An answer of
  another shape conforms to no such call, so the third branch of each is never taken.
\<close>

definition block :: "'a io" where
  "block w = (Blocked, w)"

type_synonym 'a sysret = "errno + 'a"

definition sys_read :: "int \<Rightarrow> nat \<Rightarrow> bytes sysret io" where
  "sys_read fd n = iob (sys (Read fd n)) (\<lambda>a. case a of Data bs \<Rightarrow> ret (Inr bs) | Err e \<Rightarrow> ret (Inl e) | _ \<Rightarrow> block)"

definition sys_recv :: "int \<Rightarrow> nat \<Rightarrow> bytes sysret io" where
  "sys_recv fd n = iob (sys (Recv fd n)) (\<lambda>a. case a of Data bs \<Rightarrow> ret (Inr bs) | Err e \<Rightarrow> ret (Inl e) | _ \<Rightarrow> block)"

definition sys_write :: "int \<Rightarrow> bytes \<Rightarrow> nat sysret io" where
  "sys_write fd bs = iob (sys (Write fd bs)) (\<lambda>a. case a of Num n \<Rightarrow> ret (Inr (nat n)) | Err e \<Rightarrow> ret (Inl e) | _ \<Rightarrow> block)"

definition sys_close :: "int \<Rightarrow> bool io" where
  "sys_close fd = iob (sys (Close fd)) (\<lambda>a. case a of Num n \<Rightarrow> ret True | Err e \<Rightarrow> ret False | _ \<Rightarrow> block)"

definition sys_clock :: "(int \<times> int) option io" where
  "sys_clock = iob (sys Clock) (\<lambda>a. case a of Time s ns \<Rightarrow> ret (Some (s, ns)) | Err e \<Rightarrow> ret None | _ \<Rightarrow> block)"

definition sys_wait :: "int \<Rightarrow> bool \<Rightarrow> (int \<times> wstatus \<times> rusage) sysret io" where
  "sys_wait pid nohang = iob (sys (Wait pid nohang))
     (\<lambda>a. case a of Status p st ru \<Rightarrow> ret (Inr (p, st, ru)) | Err e \<Rightarrow> ret (Inl e) | _ \<Rightarrow> block)"

definition sys_poll :: "(int \<times> u16) list \<Rightarrow> int \<Rightarrow> u16 list sysret io" where
  "sys_poll fds timeout = iob (sys (Poll fds timeout))
     (\<lambda>a. case a of Revents rs \<Rightarrow> ret (Inr rs) | Err e \<Rightarrow> ret (Inl e) | _ \<Rightarrow> block)"

definition sys_pipe2 :: "int \<Rightarrow> (int \<times> int) sysret io" where
  "sys_pipe2 flags = iob (sys (Pipe flags)) (\<lambda>a. case a of Fds x y \<Rightarrow> ret (Inr (x, y)) | Err e \<Rightarrow> ret (Inl e) | _ \<Rightarrow> block)"

definition sys_num :: "string \<Rightarrow> int list \<Rightarrow> bytes list \<Rightarrow> int sysret io" where
  "sys_num name is ss = iob (sys (Sys name is ss)) (\<lambda>a. case a of Num n \<Rightarrow> ret (Inr n) | Err e \<Rightarrow> ret (Inl e) | _ \<Rightarrow> block)"

definition sys_data :: "string \<Rightarrow> nat \<Rightarrow> int list \<Rightarrow> bytes list \<Rightarrow> bytes sysret io" where
  "sys_data name cap is ss = iob (sys (Fetch name cap is ss)) (\<lambda>a. case a of Data bs \<Rightarrow> ret (Inr bs) | Err e \<Rightarrow> ret (Inl e) | _ \<Rightarrow> block)"

lemmas sys_defs = sys_read_def sys_recv_def sys_write_def sys_close_def sys_clock_def sys_wait_def
  sys_poll_def sys_pipe2_def sys_num_def sys_data_def

text \<open>The world after an answered call.\<close>

definition log :: "call \<Rightarrow> answer \<Rightarrow> world \<Rightarrow> world" where
  "log c a w = w\<lparr>w_answers := tl (w_answers w), w_trace := w_trace w @ [(c, a)]\<rparr>"

lemma log_simps [simp]:
  "w_trace (log c a w) = w_trace w @ [(c, a)]" "w_answers (log c a w) = tl (w_answers w)"
  "w_console_mirror (log c a w) = w_console_mirror w"
  "w_mount_cleanup_poisoned (log c a w) = w_mount_cleanup_poisoned w"
  by (simp_all add: log_def)

lemma answered_log: "answered c a w w' \<Longrightarrow> w' = log c a w \<and> conforms c a"
  by (auto simp: answered_def log_def)

lemma holds_block [simp]: "holds (block w) Q E = E w"
  by (simp add: block_def)

lemma holds_sys_case:
  assumes "\<And>a. w_answers w \<noteq> [] \<Longrightarrow> conforms c a \<Longrightarrow> holds (f a (log c a w)) Q E" "E w"
  shows "holds (iob (sys c) f w) Q E"
  by (rule holds_bind [where P = "\<lambda>a w'. w' = log c a w \<and> conforms c a \<and> w_answers w \<noteq> []"])
     (auto intro!: holds_sys assms dest: answered_log simp: answered_def)

lemma holds_read:
  assumes "\<And>bs. w_answers w \<noteq> [] \<Longrightarrow> length bs \<le> n \<Longrightarrow> Q (Inr bs) (log (Read fd n) (Data bs) w)"
    "\<And>e. w_answers w \<noteq> [] \<Longrightarrow> Q (Inl e) (log (Read fd n) (Err e) w)" "E w"
  shows "holds (sys_read fd n w) Q E"
  unfolding sys_read_def
proof (rule holds_sys_case)
  fix a assume ne: "w_answers w \<noteq> []" and "conforms (Read fd n) a"
  then show "holds ((case a of Data bs \<Rightarrow> ret (Inr bs) | Err e \<Rightarrow> ret (Inl e) | _ \<Rightarrow> block) (log (Read fd n) a w)) Q E"
    using ne assms by (cases a) simp_all
qed (rule assms(3))

lemma holds_recv:
  assumes "\<And>bs. w_answers w \<noteq> [] \<Longrightarrow> length bs \<le> n \<Longrightarrow> Q (Inr bs) (log (Recv fd n) (Data bs) w)"
    "\<And>e. w_answers w \<noteq> [] \<Longrightarrow> Q (Inl e) (log (Recv fd n) (Err e) w)" "E w"
  shows "holds (sys_recv fd n w) Q E"
  unfolding sys_recv_def
proof (rule holds_sys_case)
  fix a assume ne: "w_answers w \<noteq> []" and "conforms (Recv fd n) a"
  then show "holds ((case a of Data bs \<Rightarrow> ret (Inr bs) | Err e \<Rightarrow> ret (Inl e) | _ \<Rightarrow> block) (log (Recv fd n) a w)) Q E"
    using ne assms by (cases a) simp_all
qed (rule assms(3))

lemma holds_write:
  assumes "\<And>n. w_answers w \<noteq> [] \<Longrightarrow> n \<le> length bs \<Longrightarrow> Q (Inr n) (log (Write fd bs) (Num (int n)) w)"
    "\<And>e. w_answers w \<noteq> [] \<Longrightarrow> Q (Inl e) (log (Write fd bs) (Err e) w)" "E w"
  shows "holds (sys_write fd bs w) Q E"
  unfolding sys_write_def
proof (rule holds_sys_case)
  fix a assume ne: "w_answers w \<noteq> []" and "conforms (Write fd bs) a"
  show "holds ((case a of Num n \<Rightarrow> ret (Inr (nat n)) | Err e \<Rightarrow> ret (Inl e) | _ \<Rightarrow> block) (log (Write fd bs) a w)) Q E"
  proof (cases a)
    case (Num n)
    with \<open>conforms (Write fd bs) a\<close> ne assms(1) [of "nat n"] show ?thesis by (simp add: nat_le_iff)
  qed (use \<open>conforms (Write fd bs) a\<close> ne assms(2,3) in simp_all)
qed (rule assms(3))

lemma holds_close:
  assumes "w_answers w \<noteq> [] \<Longrightarrow> Q True (log (Close fd) (Num 0) w)" "\<And>e. Q False (log (Close fd) (Err e) w)" "E w"
  shows "holds (sys_close fd w) Q E"
  unfolding sys_close_def
proof (rule holds_sys_case)
  fix a assume ne: "w_answers w \<noteq> []" and "conforms (Close fd) a"
  then show "holds ((case a of Num n \<Rightarrow> ret True | Err e \<Rightarrow> ret False | _ \<Rightarrow> block) (log (Close fd) a w)) Q E"
    using ne assms by (cases a) simp_all
qed (rule assms(3))

lemma holds_clock:
  assumes "\<And>s ns. w_answers w \<noteq> [] \<Longrightarrow> 0 \<le> s \<Longrightarrow> 0 \<le> ns \<Longrightarrow> ns < 1000000000 \<Longrightarrow> Q (Some (s, ns)) (log Clock (Time s ns) w)"
    "\<And>e. w_answers w \<noteq> [] \<Longrightarrow> Q None (log Clock (Err e) w)" "E w"
  shows "holds (sys_clock w) Q E"
  unfolding sys_clock_def
proof (rule holds_sys_case)
  fix a assume ne: "w_answers w \<noteq> []" and "conforms Clock a"
  then show "holds ((case a of Time s ns \<Rightarrow> ret (Some (s, ns)) | Err e \<Rightarrow> ret None | _ \<Rightarrow> block) (log Clock a w)) Q E"
    using ne assms by (cases a) simp_all
qed (rule assms(3))

lemma holds_wait:
  assumes "\<And>p st ru. w_answers w \<noteq> [] \<Longrightarrow> waited pid nohang p \<Longrightarrow>
      Q (Inr (p, st, ru)) (log (Wait pid nohang) (Status p st ru) w)"
    "\<And>e. w_answers w \<noteq> [] \<Longrightarrow> Q (Inl e) (log (Wait pid nohang) (Err e) w)" "E w"
  shows "holds (sys_wait pid nohang w) Q E"
  unfolding sys_wait_def
proof (rule holds_sys_case)
  fix a assume ne: "w_answers w \<noteq> []" and "conforms (Wait pid nohang) a"
  then show "holds ((case a of Status p st ru \<Rightarrow> ret (Inr (p, st, ru)) | Err e \<Rightarrow> ret (Inl e) | _ \<Rightarrow> block)
      (log (Wait pid nohang) a w)) Q E"
    using ne assms by (cases a) simp_all
qed (rule assms(3))

lemma holds_num:
  assumes "\<And>n. w_answers w \<noteq> [] \<Longrightarrow> 0 \<le> n \<Longrightarrow> Q (Inr n) (log (Sys name is ss) (Num n) w)"
    "\<And>e. w_answers w \<noteq> [] \<Longrightarrow> Q (Inl e) (log (Sys name is ss) (Err e) w)" "E w"
  shows "holds (sys_num name is ss w) Q E"
  unfolding sys_num_def
proof (rule holds_sys_case)
  fix a assume ne: "w_answers w \<noteq> []" and "conforms (Sys name is ss) a"
  then show "holds ((case a of Num n \<Rightarrow> ret (Inr n) | Err e \<Rightarrow> ret (Inl e) | _ \<Rightarrow> block) (log (Sys name is ss) a w)) Q E"
    using ne assms by (cases a) simp_all
qed (rule assms(3))

lemma holds_data:
  assumes "\<And>bs. w_answers w \<noteq> [] \<Longrightarrow> length bs \<le> cap \<Longrightarrow> Q (Inr bs) (log (Fetch name cap is ss) (Data bs) w)"
    "\<And>e. w_answers w \<noteq> [] \<Longrightarrow> Q (Inl e) (log (Fetch name cap is ss) (Err e) w)" "E w"
  shows "holds (sys_data name cap is ss w) Q E"
  unfolding sys_data_def
proof (rule holds_sys_case)
  fix a assume ne: "w_answers w \<noteq> []" and "conforms (Fetch name cap is ss) a"
  then show "holds ((case a of Data bs \<Rightarrow> ret (Inr bs) | Err e \<Rightarrow> ret (Inl e) | _ \<Rightarrow> block) (log (Fetch name cap is ss) a w)) Q E"
    using ne assms by (cases a) simp_all
qed (rule assms(3))

lemma holds_poll:
  assumes "\<And>rs. w_answers w \<noteq> [] \<Longrightarrow> length rs = length fds \<Longrightarrow> Q (Inr rs) (log (Poll fds timeout) (Revents rs) w)"
    "\<And>e. w_answers w \<noteq> [] \<Longrightarrow> Q (Inl e) (log (Poll fds timeout) (Err e) w)" "E w"
  shows "holds (sys_poll fds timeout w) Q E"
  unfolding sys_poll_def
proof (rule holds_sys_case)
  fix a assume ne: "w_answers w \<noteq> []" and "conforms (Poll fds timeout) a"
  then show "holds ((case a of Revents rs \<Rightarrow> ret (Inr rs) | Err e \<Rightarrow> ret (Inl e) | _ \<Rightarrow> block) (log (Poll fds timeout) a w)) Q E"
    using ne assms by (cases a) simp_all
qed (rule assms(3))

lemma holds_pipe2:
  assumes "\<And>x y. w_answers w \<noteq> [] \<Longrightarrow> 0 \<le> x \<Longrightarrow> 0 \<le> y \<Longrightarrow> x \<noteq> y \<Longrightarrow> Q (Inr (x, y)) (log (Pipe flags) (Fds x y) w)"
    "\<And>e. w_answers w \<noteq> [] \<Longrightarrow> Q (Inl e) (log (Pipe flags) (Err e) w)" "E w"
  shows "holds (sys_pipe2 flags w) Q E"
  unfolding sys_pipe2_def
proof (rule holds_sys_case)
  fix a assume ne: "w_answers w \<noteq> []" and "conforms (Pipe flags) a"
  then show "holds ((case a of Fds x y \<Rightarrow> ret (Inr (x, y)) | Err e \<Rightarrow> ret (Inl e) | _ \<Rightarrow> block) (log (Pipe flags) a w)) Q E"
    using ne assms by (cases a) simp_all
qed (rule assms(3))

lemma shrinks_block [shrinks_intro]: "shrinks block"
  by (simp add: shrinks_def block_def)

lemma shrinks_calls [shrinks_intro]:
  "shrinks (sys_read fd n)" "shrinks (sys_recv fd n)" "shrinks (sys_write fd bs)" "shrinks (sys_close fd)"
  "shrinks sys_clock" "shrinks (sys_wait pid nohang)" "shrinks (sys_poll fds timeout)"
  "shrinks (sys_pipe2 flags)" "shrinks (sys_num name is ss)" "shrinks (sys_data name cap is ss)"
  unfolding sys_defs by (auto intro!: shrinks_intro split: answer.split)

lemma iob_sys_less:
  "(\<And>a. shrinks (f a)) \<Longrightarrow> iob (sys c) f w = (Ret y, w') \<Longrightarrow> length (w_answers w') < length (w_answers w)"
  by (fastforce simp: iob_eq_Ret dest: sys_less shrinksD)

lemma calls_less:
  "sys_read fd n w = (Ret r, w') \<Longrightarrow> length (w_answers w') < length (w_answers w)"
  "sys_recv fd n w = (Ret r, w') \<Longrightarrow> length (w_answers w') < length (w_answers w)"
  "sys_write fd bs w = (Ret k, w') \<Longrightarrow> length (w_answers w') < length (w_answers w)"
  "sys_wait pid nohang w = (Ret s, w') \<Longrightarrow> length (w_answers w') < length (w_answers w)"
  "sys_num name is ss w = (Ret i, w') \<Longrightarrow> length (w_answers w') < length (w_answers w)"
  "sys_poll fds timeout w = (Ret p, w') \<Longrightarrow> length (w_answers w') < length (w_answers w)"
  "sys_data name cap is ss w = (Ret r, w') \<Longrightarrow> length (w_answers w') < length (w_answers w)"
  unfolding sys_defs by (auto intro!: shrinks_intro split: answer.split elim!: iob_sys_less [rotated])

lemma shrinks_cases [shrinks_intro]:
  "(\<And>e. shrinks (f e)) \<Longrightarrow> (\<And>x. shrinks (g x)) \<Longrightarrow> shrinks (case_sum f g r)"
  "shrinks m \<Longrightarrow> (\<And>x. shrinks (h x)) \<Longrightarrow> shrinks (case_option m h o')"
  "(\<And>a b. shrinks (k a b)) \<Longrightarrow> shrinks (case_prod k p)"
  "shrinks (l y) \<Longrightarrow> shrinks (Let y l)"
  "(\<And>x. shrinks (i x)) \<Longrightarrow> shrinks n \<Longrightarrow> shrinks n' \<Longrightarrow> shrinks (case_cres i n n' q)"
  by (auto split: sum.split option.split prod.split cres.split)

lemma iob_calls_less:
  "iob (sys_read fd n) f w = (Ret y, w') \<Longrightarrow> (\<And>r. shrinks (f r)) \<Longrightarrow> length (w_answers w') < length (w_answers w)"
  "iob (sys_recv fd n) f w = (Ret y, w') \<Longrightarrow> (\<And>r. shrinks (f r)) \<Longrightarrow> length (w_answers w') < length (w_answers w)"
  "iob (sys_write fd bs) g w = (Ret z, w') \<Longrightarrow> (\<And>r. shrinks (g r)) \<Longrightarrow> length (w_answers w') < length (w_answers w)"
  by (auto simp: iob_eq_Ret dest!: calls_less dest: shrinksD intro: le_less_trans)

section \<open>What a computation adds to the trace\<close>

text \<open>\<open>extends P w w'\<close>: the trace grew by events that satisfy \<open>P\<close>.\<close>

definition extends :: "(event list \<Rightarrow> bool) \<Rightarrow> world \<Rightarrow> world \<Rightarrow> bool" where
  "extends P w w' \<longleftrightarrow> (\<exists>tr. w_trace w' = w_trace w @ tr \<and> P tr)"

lemma extends_refl: "P [] \<Longrightarrow> extends P w w"
  unfolding extends_def by (intro exI [of _ "[]"]) simp

lemma extends_log: "P [(c, a)] \<Longrightarrow> extends P w (log c a w)"
  unfolding extends_def by (intro exI [of _ "[(c, a)]"]) simp

lemma extends_trans:
  "extends P w w1 \<Longrightarrow> extends Q w1 w2 \<Longrightarrow> (\<And>a b. P a \<Longrightarrow> Q b \<Longrightarrow> R (a @ b)) \<Longrightarrow> extends R w w2"
  by (auto simp: extends_def)

lemma extends_mono: "extends P w w' \<Longrightarrow> (\<And>tr. P tr \<Longrightarrow> Q tr) \<Longrightarrow> extends Q w w'"
  by (auto simp: extends_def)

lemma extends_log_trans: "extends Q (log c a w) w' \<Longrightarrow> (\<And>tr. Q tr \<Longrightarrow> R ((c, a) # tr)) \<Longrightarrow> extends R w w'"
  by (rule extends_trans [OF extends_log [of "\<lambda>tr. tr = [(c, a)]", OF refl], of Q]) auto

text \<open>
  \<open>adds m P F\<close>: a run of \<open>m\<close> is defined and adds events that satisfy \<open>P\<close> of the result when it
  returns and \<open>F\<close> when it is blocked or the process ends.
\<close>

definition adds :: "'a io \<Rightarrow> ('a \<Rightarrow> event list \<Rightarrow> bool) \<Rightarrow> (event list \<Rightarrow> bool) \<Rightarrow> bool" where
  "adds m P F \<longleftrightarrow> (\<forall>w. holds (m w) (\<lambda>x. extends (P x) w) (extends F w))"

lemma addsD: "adds m P F \<Longrightarrow> holds (m w) (\<lambda>x. extends (P x) w) (extends F w)"
  by (simp add: adds_def)

lemma adds_mono:
  "adds m P F \<Longrightarrow> (\<And>x tr. P x tr \<Longrightarrow> Q x tr) \<Longrightarrow> (\<And>tr. F tr \<Longrightarrow> G tr) \<Longrightarrow> adds m Q G"
  unfolding adds_def by (blast intro: holds_mono extends_mono)

lemma adds_ret: "P x [] \<Longrightarrow> adds (ret x) P F"
  by (simp add: adds_def extends_refl)

lemma adds_exit: "F [] \<Longrightarrow> adds (exit_process c) P F"
  by (simp add: adds_def extends_refl)

lemma adds_if: "(b \<Longrightarrow> adds m P F) \<Longrightarrow> (\<not> b \<Longrightarrow> adds n P F) \<Longrightarrow> adds (if b then m else n) P F"
  by simp

lemma adds_iob:
  assumes "adds m P F" "\<And>x a. P x a \<Longrightarrow> adds (f x) (\<lambda>y b. R y (a @ b)) (\<lambda>b. G (a @ b))"
    "\<And>tr. F tr \<Longrightarrow> G tr"
  shows "adds (iob m f) R G"
  unfolding adds_def
proof
  fix w
  show "holds (iob m f w) (\<lambda>y. extends (R y) w) (extends G w)"
  proof (rule holds_bind)
    show "holds (m w) (\<lambda>x. extends (P x) w) (extends G w)"
      using addsD [OF assms(1)] by (rule holds_mono) (auto intro: extends_mono assms(3))
  next
    fix x w'
    assume "extends (P x) w w'"
    then obtain tr where "w_trace w' = w_trace w @ tr" and P: "P x tr"
      by (auto simp: extends_def)
    then have e: "extends (\<lambda>t. t = tr) w w'" by (auto simp: extends_def)
    show "holds (f x w') (\<lambda>y. extends (R y) w) (extends G w)"
      using addsD [OF assms(2) [OF P]]
      by (rule holds_mono) (auto elim: extends_trans [OF e])
  qed
qed

lemma holds_log:
  assumes "holds r (\<lambda>x. extends (P x) (log c a w)) (extends F (log c a w))"
    "\<And>x tr. P x tr \<Longrightarrow> Q x ((c, a) # tr)" "\<And>tr. F tr \<Longrightarrow> G ((c, a) # tr)"
  shows "holds r (\<lambda>x. extends (Q x) w) (extends G w)"
  using assms(1) by (rule holds_mono) (auto elim: extends_log_trans intro: assms(2,3))

text \<open>
  A loop whose turns each make a call: the induction is on the answers left, and the
  hypothesis is about the rest of the loop after one call.
\<close>

lemma adds_loop:
  assumes step: "\<And>s w. \<lbrakk>I s;
      \<And>s' c a Q G. \<lbrakk>w_answers w \<noteq> []; I s'; \<And>x tr. P s' x tr \<Longrightarrow> Q x ((c, a) # tr); \<And>tr. F s' tr \<Longrightarrow> G ((c, a) # tr)\<rbrakk>
        \<Longrightarrow> holds (f s' (log c a w)) (\<lambda>x. extends (Q x) w) (extends G w)\<rbrakk>
      \<Longrightarrow> holds (f s w) (\<lambda>x. extends (P s x) w) (extends (F s) w)"
    and "I s"
  shows "adds (f s) (P s) (F s)"
  unfolding adds_def
proof
  show "holds (f s w) (\<lambda>x. extends (P s x) w) (extends (F s) w)" for w
    using \<open>I s\<close>
  proof (induction w arbitrary: s rule: measure_induct_rule [where f = "\<lambda>w. length (w_answers w)"])
    case (less w)
    show ?case
    proof (rule step [OF \<open>I s\<close>])
      fix s' c a Q G
      assume ne: "w_answers w \<noteq> []" and "I s'"
        and Q: "\<And>x tr. P s' x tr \<Longrightarrow> Q x ((c, a) # tr)" and G: "\<And>tr. F s' tr \<Longrightarrow> G ((c, a) # tr)"
      from ne have "length (w_answers (log c a w)) < length (w_answers w)" by simp
      from less.IH [OF this \<open>I s'\<close>]
      show "holds (f s' (log c a w)) (\<lambda>x. extends (Q x) w) (extends G w)"
        by (rule holds_log) (auto intro: Q G)
    qed
  qed
qed

text \<open>
  Loops written as turns: a turn gives the next state or the result. The induction is on a measure of
  the state and the world that every turn lowers.
\<close>

lemma adds_iterate:
  fixes m :: "'s \<Rightarrow> world \<Rightarrow> nat"
  assumes eq: "\<And>s w. f s w = iob (turn s) (\<lambda>r w'. case r of Inl s' \<Rightarrow> f s' w' | Inr x \<Rightarrow> ret x w') w"
    and less: "\<And>s w s' w'. turn s w = (Ret (Inl s'), w') \<Longrightarrow> m s' w' < m s w"
    and step: "\<And>s. I s \<Longrightarrow> adds (turn s)
      (\<lambda>r tr. case r of Inl s' \<Rightarrow> I s' \<and> (\<forall>x tr'. P s' x tr' \<longrightarrow> P s x (tr @ tr')) \<and> (\<forall>tr'. F s' tr' \<longrightarrow> F s (tr @ tr'))
        | Inr x \<Rightarrow> P s x tr) (F s)"
    and "I s"
  shows "adds (f s) (P s) (F s)"
  unfolding adds_def
proof
  show "holds (f s w) (\<lambda>x. extends (P s x) w) (extends (F s) w)" for w
    using \<open>I s\<close>
  proof (induction "m s w" arbitrary: s w rule: less_induct)
    case less': less
    show ?case
      unfolding eq [of s w]
    proof (rule holds_bind [OF addsD [OF step [OF \<open>I s\<close>]]])
      fix r w'
      assume run: "turn s w = (Ret r, w')" and e: "extends (\<lambda>tr. case r of
        Inl s' \<Rightarrow> I s' \<and> (\<forall>x tr'. P s' x tr' \<longrightarrow> P s x (tr @ tr')) \<and> (\<forall>tr'. F s' tr' \<longrightarrow> F s (tr @ tr'))
        | Inr x \<Rightarrow> P s x tr) w w'"
      show "holds (case r of Inl s' \<Rightarrow> f s' w' | Inr x \<Rightarrow> ret x w') (\<lambda>x. extends (P s x) w) (extends (F s) w)"
      proof (cases r)
        case (Inl s')
        with e obtain tr where tr: "extends (\<lambda>t. t = tr) w w'" "I s'"
            "\<And>x tr'. P s' x tr' \<Longrightarrow> P s x (tr @ tr')" "\<And>tr'. F s' tr' \<Longrightarrow> F s (tr @ tr')"
          by (auto simp: extends_def)
        from less'.hyps [OF less [OF run [unfolded Inl]] tr(2)]
        have "holds (f s' w') (\<lambda>x. extends (P s x) w) (extends (F s) w)"
          by (rule holds_mono) (auto elim: extends_trans [OF tr(1)] intro: tr(3,4))
        then show ?thesis by (simp add: Inl)
      next
        case (Inr x)
        with e show ?thesis by simp
      qed
    qed
  qed
qed

lemma shrinks_iterate:
  fixes m :: "'s \<Rightarrow> world \<Rightarrow> nat"
  assumes eq: "\<And>s w. f s w = iob (turn s) (\<lambda>r w'. case r of Inl s' \<Rightarrow> f s' w' | Inr x \<Rightarrow> ret x w') w"
    and less: "\<And>s w s' w'. turn s w = (Ret (Inl s'), w') \<Longrightarrow> m s' w' < m s w"
    and "\<And>s. shrinks (turn s)"
  shows "shrinks (f s)"
proof -
  have "length (w_answers w') \<le> length (w_answers w)" if "f s w = (Ret x, w')" for x w w'
    using that
  proof (induction "m s w" arbitrary: s w rule: less_induct)
    case less': less
    from less'.prems obtain r w1 where r: "turn s w = (Ret r, w1)"
        "(case r of Inl s' \<Rightarrow> f s' w1 | Inr x \<Rightarrow> ret x w1) = (Ret x, w')"
      unfolding eq [of s w] iob_eq_Ret by blast
    from shrinksD [OF assms(3) r(1)] have le: "length (w_answers w1) \<le> length (w_answers w)" .
    show ?case
    proof (cases r)
      case (Inl s')
      with less'.hyps [OF less [OF r(1) [unfolded Inl]]] r(2) le show ?thesis by fastforce
    next
      case (Inr x)
      with r(2) le show ?thesis by (simp add: ret_def)
    qed
  qed
  then show ?thesis by (simp add: shrinks_def)
qed

lemma adds_read:
  assumes "\<And>bs. length bs \<le> n \<Longrightarrow> P (Inr bs) [(Read fd n, Data bs)]" "\<And>e. P (Inl e) [(Read fd n, Err e)]" "F []"
  shows "adds (sys_read fd n) P F"
  using assms by (auto simp: adds_def intro!: holds_read extends_log extends_refl)

lemma adds_recv:
  assumes "\<And>bs. length bs \<le> n \<Longrightarrow> P (Inr bs) [(Recv fd n, Data bs)]" "\<And>e. P (Inl e) [(Recv fd n, Err e)]" "F []"
  shows "adds (sys_recv fd n) P F"
  using assms by (auto simp: adds_def intro!: holds_recv extends_log extends_refl)

lemma adds_write:
  assumes "\<And>n. n \<le> length bs \<Longrightarrow> P (Inr n) [(Write fd bs, Num (int n))]" "\<And>e. P (Inl e) [(Write fd bs, Err e)]" "F []"
  shows "adds (sys_write fd bs) P F"
  using assms by (auto simp: adds_def intro!: holds_write extends_log extends_refl)

lemma adds_close:
  assumes "P True [(Close fd, Num 0)]" "\<And>e. P False [(Close fd, Err e)]" "F []"
  shows "adds (sys_close fd) P F"
  using assms by (auto simp: adds_def intro!: holds_close extends_log extends_refl)

lemma adds_num:
  assumes "\<And>n. 0 \<le> n \<Longrightarrow> P (Inr n) [(Sys name is ss, Num n)]" "\<And>e. P (Inl e) [(Sys name is ss, Err e)]" "F []"
  shows "adds (sys_num name is ss) P F"
  using assms by (auto simp: adds_def intro!: holds_num extends_log extends_refl)

lemma adds_data:
  assumes "\<And>bs. length bs \<le> cap \<Longrightarrow> P (Inr bs) [(Fetch name cap is ss, Data bs)]" "\<And>e. P (Inl e) [(Fetch name cap is ss, Err e)]" "F []"
  shows "adds (sys_data name cap is ss) P F"
  using assms by (auto simp: adds_def intro!: holds_data extends_log extends_refl)

lemma adds_clock:
  assumes "\<And>s ns. P (Some (s, ns)) [(Clock, Time s ns)]" "\<And>e. P None [(Clock, Err e)]" "F []"
  shows "adds sys_clock P F"
  using assms by (auto simp: adds_def intro!: holds_clock extends_log extends_refl)

text \<open>One call and then the rest: the rest is judged with the event in front.\<close>

named_theorems adds_step "rules for a call followed by the rest of a computation"

lemma adds_wait:
  assumes "\<And>p st ru. waited pid nohang p \<Longrightarrow> P (Inr (p, st, ru)) [(Wait pid nohang, Status p st ru)]"
    "\<And>e. P (Inl e) [(Wait pid nohang, Err e)]" "F []"
  shows "adds (sys_wait pid nohang) P F"
  using assms by (auto simp: adds_def intro!: holds_wait extends_log extends_refl)

lemma adds_poll:
  assumes "\<And>rs. length rs = length fds \<Longrightarrow> P (Inr rs) [(Poll fds timeout, Revents rs)]"
    "\<And>e. P (Inl e) [(Poll fds timeout, Err e)]" "F []"
  shows "adds (sys_poll fds timeout) P F"
  using assms by (auto simp: adds_def intro!: holds_poll extends_log extends_refl)

lemma adds_pipe2:
  assumes "\<And>x y. 0 \<le> x \<Longrightarrow> 0 \<le> y \<Longrightarrow> x \<noteq> y \<Longrightarrow> P (Inr (x, y)) [(Pipe flags, Fds x y)]"
    "\<And>e. P (Inl e) [(Pipe flags, Err e)]" "F []"
  shows "adds (sys_pipe2 flags) P F"
  using assms by (auto simp: adds_def intro!: holds_pipe2 extends_log extends_refl)

lemma adds_pipe2_bind [adds_step]:
  assumes "\<And>x y. 0 \<le> x \<Longrightarrow> 0 \<le> y \<Longrightarrow> x \<noteq> y \<Longrightarrow>
      adds (f (Inr (x, y))) (\<lambda>z tr. Q z ((Pipe flags, Fds x y) # tr)) (\<lambda>tr. G ((Pipe flags, Fds x y) # tr))"
    "\<And>e. adds (f (Inl e)) (\<lambda>z tr. Q z ((Pipe flags, Err e) # tr)) (\<lambda>tr. G ((Pipe flags, Err e) # tr))" "G []"
  shows "adds (iob (sys_pipe2 flags) f) Q G"
  by (rule adds_iob [OF adds_pipe2 [where P = "\<lambda>r tr. (\<exists>x y. r = Inr (x, y) \<and> tr = [(Pipe flags, Fds x y)] \<and> (0 \<le> x \<and> 0 \<le> y \<and> x \<noteq> y)) \<or>
      (\<exists>e. r = Inl e \<and> tr = [(Pipe flags, Err e)])" and F = "\<lambda>tr. tr = []"]]) (auto intro: assms)

lemma adds_read_bind [adds_step]:
  assumes "\<And>bs. length bs \<le> n \<Longrightarrow> adds (f (Inr bs)) (\<lambda>y tr. Q y ((Read fd n, Data bs) # tr)) (\<lambda>tr. G ((Read fd n, Data bs) # tr))"
    "\<And>e. adds (f (Inl e)) (\<lambda>y tr. Q y ((Read fd n, Err e) # tr)) (\<lambda>tr. G ((Read fd n, Err e) # tr))" "G []"
  shows "adds (iob (sys_read fd n) f) Q G"
  by (rule adds_iob [OF adds_read [where P = "\<lambda>r tr. (\<exists>bs. r = Inr bs \<and> tr = [(Read fd n, Data bs)] \<and> (length bs \<le> n)) \<or> (\<exists>e. r = Inl e \<and> tr = [(Read fd n, Err e)])"
      and F = "\<lambda>tr. tr = []"]]) (auto intro: assms)

lemma adds_recv_bind [adds_step]:
  assumes "\<And>bs. length bs \<le> n \<Longrightarrow> adds (f (Inr bs)) (\<lambda>y tr. Q y ((Recv fd n, Data bs) # tr)) (\<lambda>tr. G ((Recv fd n, Data bs) # tr))"
    "\<And>e. adds (f (Inl e)) (\<lambda>y tr. Q y ((Recv fd n, Err e) # tr)) (\<lambda>tr. G ((Recv fd n, Err e) # tr))" "G []"
  shows "adds (iob (sys_recv fd n) f) Q G"
  by (rule adds_iob [OF adds_recv [where P = "\<lambda>r tr. (\<exists>bs. r = Inr bs \<and> tr = [(Recv fd n, Data bs)] \<and> (length bs \<le> n)) \<or> (\<exists>e. r = Inl e \<and> tr = [(Recv fd n, Err e)])"
      and F = "\<lambda>tr. tr = []"]]) (auto intro: assms)

lemma adds_write_bind [adds_step]:
  assumes "\<And>n. n \<le> length bs \<Longrightarrow> adds (f (Inr n)) (\<lambda>y tr. Q y ((Write fd bs, Num (int n)) # tr)) (\<lambda>tr. G ((Write fd bs, Num (int n)) # tr))"
    "\<And>e. adds (f (Inl e)) (\<lambda>y tr. Q y ((Write fd bs, Err e) # tr)) (\<lambda>tr. G ((Write fd bs, Err e) # tr))" "G []"
  shows "adds (iob (sys_write fd bs) f) Q G"
  by (rule adds_iob [OF adds_write [where P = "\<lambda>r tr. (\<exists>n. r = Inr n \<and> tr = [(Write fd bs, Num (int n))] \<and> (n \<le> length bs)) \<or> (\<exists>e. r = Inl e \<and> tr = [(Write fd bs, Err e)])"
      and F = "\<lambda>tr. tr = []"]]) (auto intro: assms)

lemma adds_close_bind [adds_step]:
  assumes "adds (f (True)) (\<lambda>y tr. Q y ((Close fd, Num 0) # tr)) (\<lambda>tr. G ((Close fd, Num 0) # tr))"
    "\<And>e. adds (f (False)) (\<lambda>y tr. Q y ((Close fd, Err e) # tr)) (\<lambda>tr. G ((Close fd, Err e) # tr))" "G []"
  shows "adds (iob (sys_close fd) f) Q G"
  by (rule adds_iob [OF adds_close [where P = "\<lambda>r tr. (r = True \<and> tr = [(Close fd, Num 0)]) \<or> (\<exists>e. r = False \<and> tr = [(Close fd, Err e)])"
      and F = "\<lambda>tr. tr = []"]]) (auto intro: assms)

lemma adds_clock_bind [adds_step]:
  assumes "\<And>s ns. adds (f (Some (s, ns))) (\<lambda>y tr. Q y ((Clock, Time s ns) # tr)) (\<lambda>tr. G ((Clock, Time s ns) # tr))"
    "\<And>e. adds (f (None)) (\<lambda>y tr. Q y ((Clock, Err e) # tr)) (\<lambda>tr. G ((Clock, Err e) # tr))" "G []"
  shows "adds (iob (sys_clock) f) Q G"
  by (rule adds_iob [OF adds_clock [where P = "\<lambda>r tr. (\<exists>s ns. r = Some (s, ns) \<and> tr = [(Clock, Time s ns)]) \<or> (\<exists>e. r = None \<and> tr = [(Clock, Err e)])"
      and F = "\<lambda>tr. tr = []"]]) (auto intro: assms)

lemma adds_num_bind [adds_step]:
  assumes "\<And>n. 0 \<le> n \<Longrightarrow> adds (f (Inr n)) (\<lambda>y tr. Q y ((Sys name is ss, Num n) # tr)) (\<lambda>tr. G ((Sys name is ss, Num n) # tr))"
    "\<And>e. adds (f (Inl e)) (\<lambda>y tr. Q y ((Sys name is ss, Err e) # tr)) (\<lambda>tr. G ((Sys name is ss, Err e) # tr))" "G []"
  shows "adds (iob (sys_num name is ss) f) Q G"
  by (rule adds_iob [OF adds_num [where P = "\<lambda>r tr. (\<exists>n. r = Inr n \<and> tr = [(Sys name is ss, Num n)] \<and> (0 \<le> n)) \<or> (\<exists>e. r = Inl e \<and> tr = [(Sys name is ss, Err e)])"
      and F = "\<lambda>tr. tr = []"]]) (auto intro: assms)

lemma adds_data_bind [adds_step]:
  assumes "\<And>bs. length bs \<le> cap \<Longrightarrow> adds (f (Inr bs)) (\<lambda>y tr. Q y ((Fetch name cap is ss, Data bs) # tr)) (\<lambda>tr. G ((Fetch name cap is ss, Data bs) # tr))"
    "\<And>e. adds (f (Inl e)) (\<lambda>y tr. Q y ((Fetch name cap is ss, Err e) # tr)) (\<lambda>tr. G ((Fetch name cap is ss, Err e) # tr))" "G []"
  shows "adds (iob (sys_data name cap is ss) f) Q G"
  by (rule adds_iob [OF adds_data [where P = "\<lambda>r tr. (\<exists>bs. r = Inr bs \<and> tr = [(Fetch name cap is ss, Data bs)] \<and> (length bs \<le> cap)) \<or> (\<exists>e. r = Inl e \<and> tr = [(Fetch name cap is ss, Err e)])"
      and F = "\<lambda>tr. tr = []"]]) (auto intro: assms)

lemma adds_wait_bind [adds_step]:
  assumes "\<And>p st ru. waited pid nohang p \<Longrightarrow> adds (f (Inr (p, st, ru))) (\<lambda>y tr. Q y ((Wait pid nohang, Status p st ru) # tr)) (\<lambda>tr. G ((Wait pid nohang, Status p st ru) # tr))"
    "\<And>e. adds (f (Inl e)) (\<lambda>y tr. Q y ((Wait pid nohang, Err e) # tr)) (\<lambda>tr. G ((Wait pid nohang, Err e) # tr))" "G []"
  shows "adds (iob (sys_wait pid nohang) f) Q G"
  by (rule adds_iob [OF adds_wait [where P = "\<lambda>r tr. (\<exists>p st ru. r = Inr (p, st, ru) \<and> tr = [(Wait pid nohang, Status p st ru)] \<and> waited pid nohang p) \<or> (\<exists>e. r = Inl e \<and> tr = [(Wait pid nohang, Err e)])"
      and F = "\<lambda>tr. tr = []"]]) (auto intro: assms)

lemma adds_poll_bind [adds_step]:
  assumes "\<And>rs. length rs = length fds \<Longrightarrow> adds (f (Inr rs)) (\<lambda>y tr. Q y ((Poll fds timeout, Revents rs) # tr)) (\<lambda>tr. G ((Poll fds timeout, Revents rs) # tr))"
    "\<And>e. adds (f (Inl e)) (\<lambda>y tr. Q y ((Poll fds timeout, Err e) # tr)) (\<lambda>tr. G ((Poll fds timeout, Err e) # tr))" "G []"
  shows "adds (iob (sys_poll fds timeout) f) Q G"
  by (rule adds_iob [OF adds_poll [where P = "\<lambda>r tr. (\<exists>rs. r = Inr rs \<and> tr = [(Poll fds timeout, Revents rs)] \<and> (length rs = length fds)) \<or> (\<exists>e. r = Inl e \<and> tr = [(Poll fds timeout, Err e)])"
      and F = "\<lambda>tr. tr = []"]]) (auto intro: assms)

lemma iob_block [simp]: "iob block f = block"
  by (rule ext) (simp add: iob_def block_def)

lemma adds_block: "F [] \<Longrightarrow> adds block P F"
  by (simp add: adds_def extends_refl)

lemma adds_cases [adds_step]:
  "adds (f e) P F \<Longrightarrow> adds (case_sum f g (Inl e)) P F" "adds (g x) P F \<Longrightarrow> adds (case_sum f g (Inr x)) P F"
  "adds m P F \<Longrightarrow> adds (case_option m h None) P F" "adds (h x) P F \<Longrightarrow> adds (case_option m h (Some x)) P F"
  "adds (k a b) P F \<Longrightarrow> adds (case_prod k (a, b)) P F" "adds (j x) P F \<Longrightarrow> adds (Let x j) P F"
  by (simp_all add: Let_def)

lemma adds_modify_bind [adds_step]:
  assumes "adds (f ()) Q G" "\<And>w. w_trace (h w) = w_trace w"
  shows "adds (iob (modify h) f) Q G"
proof -
  have "extends P (h w) = extends P w" for P w
    by (rule ext) (simp add: extends_def assms(2))
  then show ?thesis
    using addsD [OF assms(1), of "h w" for w] by (simp add: adds_def holds_iob)
qed

lemma adds_modify [adds_step]: "P () [] \<Longrightarrow> (\<And>w. w_trace (h w) = w_trace w) \<Longrightarrow> adds (modify h) P F"
  by (simp add: adds_def extends_def)

lemma adds_gets_bind [adds_step]: "(\<And>x. adds (f x) Q G) \<Longrightarrow> adds (iob (gets h) f) Q G"
  by (simp add: adds_def holds_iob)

declare adds_ret [adds_step] adds_if [adds_step] adds_exit [adds_step] adds_block [adds_step]

text \<open>Traces made of writes to one descriptor.\<close>

definition writes_only :: "int \<Rightarrow> event list \<Rightarrow> bool" where
  "writes_only fd tr \<longleftrightarrow> list_all (\<lambda>e. \<exists>bs. fst e = Write fd bs) tr"

lemma writes_only_simps [simp]:
  "writes_only fd []" "writes_only fd ((Write fd bs, a) # tr) = writes_only fd tr"
  "writes_only fd (s @ t) \<longleftrightarrow> writes_only fd s \<and> writes_only fd t"
  by (simp_all add: writes_only_def)

text \<open>Traces made of reads from one descriptor.\<close>

definition reads_only :: "int \<Rightarrow> event list \<Rightarrow> bool" where
  "reads_only fd tr \<longleftrightarrow> list_all (\<lambda>e. \<exists>n. fst e = Read fd n) tr"

lemma reads_only_simps [simp]:
  "reads_only fd []" "reads_only fd ((Read fd n, a) # tr) = reads_only fd tr"
  "reads_only fd (s @ t) \<longleftrightarrow> reads_only fd s \<and> reads_only fd t"
  by (simp_all add: reads_only_def)

section \<open>Computations that are always defined\<close>

text \<open>
  \<open>safe m Q\<close>: whatever the kernel answers, \<open>m\<close> makes no undefined access, and a result it returns
  satisfies \<open>Q\<close>. The rules are in the style of weakest preconditions.
\<close>

definition safe :: "'a io \<Rightarrow> ('a \<Rightarrow> bool) \<Rightarrow> bool" where
  "safe m Q \<longleftrightarrow> (\<forall>w. holds (m w) (\<lambda>x _. Q x) (\<lambda>_. True))"

named_theorems safe_step "rules for safe computations"

lemma safeD: "safe m Q \<Longrightarrow> holds (m w) (\<lambda>x _. Q x) (\<lambda>_. True)"
  by (simp add: safe_def)

lemma safeI: "adds m P F \<Longrightarrow> (\<And>x tr. P x tr \<Longrightarrow> Q x) \<Longrightarrow> safe m Q"
  unfolding safe_def by (intro allI, rule holds_mono [OF addsD]) (auto simp: extends_def)

lemma safe_mono:
  assumes "safe m P" "\<And>x. P x \<Longrightarrow> Q x"
  shows "safe m Q"
  unfolding safe_def
proof
  show "holds (m w) (\<lambda>x _. Q x) (\<lambda>_. True)" for w
    using safeD [OF assms(1)] by (rule holds_mono) (auto intro: assms(2))
qed

lemma safe_iob [safe_step]:
  assumes "safe m (\<lambda>x. safe (f x) Q)"
  shows "safe (iob m f) Q"
  unfolding safe_def holds_iob
proof
  show "holds (m w) (\<lambda>x w'. holds (f x w') (\<lambda>x _. Q x) (\<lambda>_. True)) (\<lambda>_. True)" for w
    using safeD [OF assms] by (rule holds_mono) (auto dest: safeD)
qed

lemma safe_basic [safe_step]:
  "Q x \<Longrightarrow> safe (ret x) Q" "safe (exit_process c) Q" "safe block Q"
  "(\<And>x. R x) \<Longrightarrow> safe (gets f) R" "R' () \<Longrightarrow> safe (modify h) R'"
  by (simp_all add: safe_def)

lemma safe_if [safe_step]: "(b \<Longrightarrow> safe m Q) \<Longrightarrow> (\<not> b \<Longrightarrow> safe n Q) \<Longrightarrow> safe (if b then m else n) Q"
  by simp

lemma safe_cases [safe_step]:
  "(\<And>e. r = Inl e \<Longrightarrow> safe (f e) Q) \<Longrightarrow> (\<And>x. r = Inr x \<Longrightarrow> safe (g x) Q) \<Longrightarrow> safe (case_sum f g r) Q"
  "(o' = None \<Longrightarrow> safe m Q) \<Longrightarrow> (\<And>x. o' = Some x \<Longrightarrow> safe (h x) Q) \<Longrightarrow> safe (case_option m h o') Q"
  "(\<And>a b. p = (a, b) \<Longrightarrow> safe (k a b) Q) \<Longrightarrow> safe (case_prod k p) Q"
  "safe (l y) Q \<Longrightarrow> safe (Let y l) Q"
  by (auto split: sum.split option.split prod.split)

lemma safe_calls [safe_step]:
  "(\<And>bs. length bs \<le> n \<Longrightarrow> Qd (Inr bs)) \<Longrightarrow> (\<And>e. Qd (Inl e)) \<Longrightarrow> safe (sys_read fd n) Qd"
  "(\<And>bs. length bs \<le> n \<Longrightarrow> Qd (Inr bs)) \<Longrightarrow> (\<And>e. Qd (Inl e)) \<Longrightarrow> safe (sys_recv fd n) Qd"
  "(\<And>bs. length bs \<le> n \<Longrightarrow> Qd (Inr bs)) \<Longrightarrow> (\<And>e. Qd (Inl e)) \<Longrightarrow> safe (sys_data name n is ss) Qd"
  "(\<And>k. k \<le> length bs \<Longrightarrow> Qw (Inr k)) \<Longrightarrow> (\<And>e. Qw (Inl e)) \<Longrightarrow> safe (sys_write fd bs) Qw"
  "(\<And>b. Qb b) \<Longrightarrow> safe (sys_close fd) Qb"
  "(\<And>s ns. Qc (Some (s, ns))) \<Longrightarrow> Qc None \<Longrightarrow> safe sys_clock Qc"
  "(\<And>p st ru. waited pid nohang p \<Longrightarrow> Qp (Inr (p, st, ru))) \<Longrightarrow> (\<And>e. Qp (Inl e)) \<Longrightarrow> safe (sys_wait pid nohang) Qp"
  "(\<And>rs. length rs = length fds \<Longrightarrow> Qr (Inr rs)) \<Longrightarrow> (\<And>e. Qr (Inl e)) \<Longrightarrow> safe (sys_poll fds timeout) Qr"
  "(\<And>x y. 0 \<le> x \<Longrightarrow> 0 \<le> y \<Longrightarrow> x \<noteq> y \<Longrightarrow> Qf (Inr (x, y))) \<Longrightarrow> (\<And>e. Qf (Inl e)) \<Longrightarrow> safe (sys_pipe2 flags) Qf"
  "(\<And>k. 0 \<le> k \<Longrightarrow> Qn (Inr k)) \<Longrightarrow> (\<And>e. Qn (Inl e)) \<Longrightarrow> safe (sys_num name is ss) Qn"
  by (auto simp: safe_def intro!: holds_read holds_recv holds_data holds_write holds_close holds_clock holds_wait holds_poll
        holds_pipe2 holds_num)

text \<open>Where nothing depends on what a step returned, its branches need not be followed one by one.\<close>

lemma safe_any: "safe m (\<lambda>_. True) \<Longrightarrow> (\<And>x. safe (f x) Q) \<Longrightarrow> safe (iob m f) Q"
  by (rule safe_iob) (auto elim: safe_mono)

text \<open>A case distinction on a known value: to be tried before \<open>safe_cases\<close>.\<close>

lemma safe_constr:
  "safe (f x) Q \<Longrightarrow> safe (case Inl x of Inl x \<Rightarrow> f x | Inr y \<Rightarrow> g y) Q"
  "safe (g y) Q \<Longrightarrow> safe (case Inr y of Inl x \<Rightarrow> f x | Inr y \<Rightarrow> g y) Q"
  "safe n Q \<Longrightarrow> safe (case None of None \<Rightarrow> n | Some z \<Rightarrow> k z) Q" "safe (k z) Q \<Longrightarrow> safe (case Some z of None \<Rightarrow> n | Some z \<Rightarrow> k z) Q"
  "safe (h a b) Q \<Longrightarrow> safe (case (a, b) of (a, b) \<Rightarrow> h a b) Q"
  by simp_all

text \<open>Loops: by induction on the answers left, or on the measure of a loop written as turns.\<close>

lemma safe_loop:
  assumes "\<And>s w. I s \<Longrightarrow>
      (\<And>s' w'. length (w_answers w') < length (w_answers w) \<Longrightarrow> I s' \<Longrightarrow> holds (f s' w') (\<lambda>x _. Q x) (\<lambda>_. True)) \<Longrightarrow>
      holds (f s w) (\<lambda>x _. Q x) (\<lambda>_. True)"
    and "I s"
  shows "safe (f s) Q"
proof -
  have "holds (f s w) (\<lambda>x _. Q x) (\<lambda>_. True)" for w
    using assms(2)
    by (induction "length (w_answers w)" arbitrary: s w rule: less_induct) (auto intro: assms(1))
  then show ?thesis by (simp add: safe_def)
qed

lemma safe_iterate:
  fixes m :: "'s \<Rightarrow> world \<Rightarrow> nat"
  assumes "\<And>s w. f s w = iob (turn s) (\<lambda>r w'. case r of Inl s' \<Rightarrow> f s' w' | Inr x \<Rightarrow> ret x w') w"
    and "\<And>s w s' w'. turn s w = (Ret (Inl s'), w') \<Longrightarrow> m s' w' < m s w"
    and step: "\<And>s. I s \<Longrightarrow> safe (turn s) (case_sum I Q)"
    and "I s"
  shows "safe (f s) Q"
proof -
  have "holds (f s w) (\<lambda>x _. Q x) (\<lambda>_. True)" for w
    using assms(4)
  proof (induction "m s w" arbitrary: s w rule: less_induct)
    case less
    show ?case
      unfolding assms(1) [of s w]
      by (rule holds_bind [OF safeD [OF step [OF less.prems]]])
         (auto split: sum.splits intro: less.hyps assms(2))
  qed
  then show ?thesis by (simp add: safe_def)
qed

end
