(* ===== verification/Util.thy ===== *)
theory Util
  imports Sys "HOL-Library.Sublist"
begin

text \<open>
  The helpers of \<^verbatim>\<open>util.c\<close>: little-endian integers, the monotonic clock, whole writes and
  reads, the request line reader, and descriptor clean-up.
\<close>

section \<open>Little-endian integers\<close>

definition write_le16 :: "u16 \<Rightarrow> bytes" where
  "write_le16 v = [ucast (v AND 0xff), ucast (drop_bit 8 v AND 0xff)]"

definition write_le32 :: "u32 \<Rightarrow> bytes" where
  "write_le32 v =
     [ucast (v AND 0xff), ucast (drop_bit 8 v AND 0xff), ucast (drop_bit 16 v AND 0xff), ucast (drop_bit 24 v AND 0xff)]"

definition write_le64 :: "u64 \<Rightarrow> bytes" where
  "write_le64 v = map (\<lambda>i. ucast (drop_bit (8 * i) v AND 0xff)) [0..<8]"

text \<open>The readers take the bytes from the pointer on; a short buffer is undefined.\<close>

definition read_le16 :: "bytes \<Rightarrow> u16 cres" where
  "read_le16 p = bnd (rd p 0) (\<lambda>a. bnd (rd p 1) (\<lambda>b. Ok (ucast a OR push_bit 8 (ucast b))))"

definition read_le32 :: "bytes \<Rightarrow> u32 cres" where
  "read_le32 p =
     bnd (rd p 0) (\<lambda>a. bnd (rd p 1) (\<lambda>b. bnd (rd p 2) (\<lambda>c. bnd (rd p 3) (\<lambda>d.
     Ok (ucast a OR push_bit 8 (ucast b) OR push_bit 16 (ucast c) OR push_bit 24 (ucast d))))))"

definition read_le64 :: "bytes \<Rightarrow> u64 cres" where
  "read_le64 p =
     foldl (\<lambda>acc i. bnd acc (\<lambda>v. bnd (rd p i) (\<lambda>b. Ok (v OR push_bit (8 * i) (ucast b))))) (Ok 0) [0..<8]"

section \<open>Clock\<close>

definition now_ms :: "i64 io" where
  "now_ms = iob sys_clock (\<lambda>r.
     case r of
       Some (s, ns) \<Rightarrow> ret (word_of_int (s * 1000 + ns div 1000000))
     | None \<Rightarrow> ret 0)"

lemma shrinks_now_ms [shrinks_intro]: "shrinks now_ms"
  unfolding now_ms_def by (intro shrinks_intro)

section \<open>Reads and writes\<close>

text \<open>The line reader's results: a line, -1 on a read error, -2 when the buffer is full with no newline.\<close>

datatype line_result = Line bytes | LineError | LineTooLong

definition line_done :: "nat \<Rightarrow> bytes \<Rightarrow> line_result" where
  "line_done cap buf =
     (if length buf + 1 = cap \<and> (buf = [] \<or> last buf \<noteq> 10) then LineTooLong else Line buf)"

function read_line_loop :: "int \<Rightarrow> nat \<Rightarrow> bytes \<Rightarrow> line_result io" where
  "read_line_loop fd cap buf w =
     (if \<not> length buf + 1 < cap then ret (line_done cap buf) w
      else iob (sys_read fd 1) (\<lambda>r w'.
        case r of
          Inl e \<Rightarrow> if e = EINTR then read_line_loop fd cap buf w' else ret LineError w'
        | Inr bs \<Rightarrow>
            (case bs of
               [] \<Rightarrow> ret (line_done cap buf) w'
             | c # _ \<Rightarrow> if c = 10 then ret (line_done cap (buf @ [c])) w'
                       else read_line_loop fd cap (buf @ [c]) w')) w)"
  by pat_completeness auto
termination
  by (relation "measure (\<lambda>(fd, cap, buf, w). length (w_answers w))") (auto dest: calls_less)

declare read_line_loop.simps [simp del]

text \<open>\<open>buf[len] = '\0'\<close> needs a byte of room, which a zero capacity does not have.\<close>

definition read_line :: "int \<Rightarrow> nat \<Rightarrow> line_result io" where
  "read_line fd cap = (if cap = 0 then undef else read_line_loop fd cap [])"

function write_all :: "int \<Rightarrow> bytes \<Rightarrow> bool io" where
  "write_all fd buf w =
     (if buf = [] then ret True w
      else iob (sys_write fd buf) (\<lambda>r w'.
        case r of
          Inl e \<Rightarrow> if e = EINTR then write_all fd buf w' else ret False w'
        | Inr n \<Rightarrow> write_all fd (drop n buf) w') w)"
  by pat_completeness auto
termination
  by (relation "measure (\<lambda>(fd, buf, w). length (w_answers w))") (auto dest: calls_less)

declare write_all.simps [simp del]

function read_exact_loop :: "int \<Rightarrow> nat \<Rightarrow> bytes \<Rightarrow> bytes option io" where
  "read_exact_loop fd len buf w =
     (if len = 0 then ret (Some buf) w
      else iob (sys_read fd len) (\<lambda>r w'.
        case r of
          Inl e \<Rightarrow> if e = EINTR then read_exact_loop fd len buf w' else ret None w'
        | Inr bs \<Rightarrow> if bs = [] then ret None w'
                    else read_exact_loop fd (len - length bs) (buf @ bs) w') w)"
  by pat_completeness auto
termination
  by (relation "measure (\<lambda>(fd, len, buf, w). length (w_answers w))") (auto dest: calls_less)

declare read_exact_loop.simps [simp del]

definition read_exact :: "int \<Rightarrow> nat \<Rightarrow> bytes option io" where
  "read_exact fd len = read_exact_loop fd len []"

section \<open>Descriptors\<close>

text \<open>The descriptor after the call is the result.\<close>

definition close_fd_if_open :: "int \<Rightarrow> int io" where
  "close_fd_if_open fd = (if fd \<ge> 0 then iob (sys_close fd) (\<lambda>_. ret (- 1)) else ret fd)"

definition close_pipe_if_open :: "int \<times> int \<Rightarrow> (int \<times> int) io" where
  "close_pipe_if_open p =
     iob (close_fd_if_open (fst p)) (\<lambda>a. iob (close_fd_if_open (snd p)) (\<lambda>b. ret (a, b)))"

definition F_GETFL :: int where "F_GETFL = 3"

definition F_SETFL :: int where "F_SETFL = 4"

definition O_NONBLOCK :: int where "O_NONBLOCK = 2048"

definition set_nonblock :: "int \<Rightarrow> bool io" where
  "set_nonblock fd =
     iob (sys_num ''fcntl'' [fd, F_GETFL, 0] []) (\<lambda>r.
     case r of
       Inl e \<Rightarrow> ret False
     | Inr flags \<Rightarrow> iob (sys_num ''fcntl'' [fd, F_SETFL, flags OR O_NONBLOCK] []) (\<lambda>r. ret (r = Inr 0)))"

section \<open>Files and directories\<close>

text \<open>
  A path is the bytes of its string, without the NUL. \<^verbatim>\<open>getpid\<close> and \<^verbatim>\<open>usleep\<close> do not fail.
\<close>

abbreviation (input) "O_RDONLY \<equiv> (0 :: int)"
abbreviation (input) "O_WRONLY \<equiv> (1 :: int)"
abbreviation (input) "O_CREAT \<equiv> (64 :: int)"
abbreviation (input) "O_TRUNC \<equiv> (512 :: int)"
abbreviation (input) "O_CLOEXEC \<equiv> (524288 :: int)"
abbreviation (input) "R_OK \<equiv> (4 :: int)"

definition getpid :: "int io" where
  "getpid = iob (sys_num ''getpid'' [] []) (\<lambda>r. case r of Inr pid \<Rightarrow> ret pid | Inl _ \<Rightarrow> block)"

fun wait_for_path :: "bytes \<Rightarrow> nat \<Rightarrow> int \<Rightarrow> bool io" where
  "wait_for_path path 0 sleep_us = ret False"
| "wait_for_path path (Suc attempts) sleep_us =
     iob (sys_num ''access'' [R_OK] [path]) (\<lambda>r.
     if r = Inr 0 then ret True
     else iob (sys_num ''usleep'' [sleep_us] []) (\<lambda>_. wait_for_path path attempts sleep_us))"

definition S_ISDIR :: "int \<Rightarrow> bool" where
  "S_ISDIR mode \<longleftrightarrow> mode AND 0xF000 = 0x4000"

text \<open>The answer of \<^verbatim>\<open>stat\<close> is \<^verbatim>\<open>st_mode\<close>.\<close>

definition path_is_dir :: "bytes \<Rightarrow> bool io" where
  "path_is_dir path =
     iob (sys_num ''stat'' [] [path]) (\<lambda>r. ret (case r of Inr mode \<Rightarrow> S_ISDIR mode | Inl _ \<Rightarrow> False))"

definition mkdir_exist_ok :: "bytes \<Rightarrow> int \<Rightarrow> bool io" where
  "mkdir_exist_ok path mode =
     iob (sys_num ''mkdir'' [mode] [path]) (\<lambda>r. ret (case r of Inr _ \<Rightarrow> True | Inl e \<Rightarrow> e = EEXIST))"

fun mkdir_p_loop :: "int \<Rightarrow> bytes \<Rightarrow> bytes \<Rightarrow> bool io" where
  "mkdir_p_loop mode dir [] = mkdir_exist_ok dir mode"
| "mkdir_p_loop mode dir (c # rest) =
     (if c \<noteq> of_char (CHR ''/'') then mkdir_p_loop mode (dir @ [c]) rest
      else iob (mkdir_exist_ok dir mode) (\<lambda>ok.
        if ok then mkdir_p_loop mode (dir @ [c]) rest else ret False))"

definition mkdir_p :: "bytes \<Rightarrow> int \<Rightarrow> bool io" where
  "mkdir_p path mode =
     (if path = [] \<or> length path \<ge> 192 then ret False
      else mkdir_p_loop mode (take 1 path) (drop 1 path))"

definition readlink_bounded :: "bytes \<Rightarrow> nat \<Rightarrow> bytes option io" where
  "readlink_bounded path cap =
     (if cap < 2 then ret None
      else iob (sys_data ''readlink'' cap [] [path]) (\<lambda>r.
        case r of
          Inl e \<Rightarrow> ret None
        | Inr out \<Rightarrow> ret (if out = [] \<or> length out = cap then None else Some out)))"

definition readlinkat_bounded :: "int \<Rightarrow> bytes \<Rightarrow> nat \<Rightarrow> bytes option io" where
  "readlinkat_bounded dir_fd path cap =
     (if cap < 2 then ret None
      else iob (sys_data ''readlinkat'' cap [dir_fd] [path]) (\<lambda>r.
        case r of
          Inl e \<Rightarrow> ret None
        | Inr out \<Rightarrow> ret (if out = [] \<or> length out = cap then None else Some out)))"

definition unlink :: "bytes \<Rightarrow> bool io" where
  "unlink path = iob (sys_num ''unlink'' [] [path]) (\<lambda>r. ret (r = Inr 0))"

definition write_file_atomic :: "bytes \<Rightarrow> bytes \<Rightarrow> bool io" where
  "write_file_atomic path text =
     iob getpid (\<lambda>pid.
     let tmp = path @ lit ''.tmp.'' @ dec_int pid in
     if length tmp \<ge> 256 then ret False
     else iob (sys_num ''open'' [O_WRONLY OR O_CREAT OR O_TRUNC OR O_CLOEXEC, 0x1a4] [tmp]) (\<lambda>r.
       case r of
         Inl e \<Rightarrow> ret False
       | Inr fd \<Rightarrow>
           iob (write_all fd text) (\<lambda>ok.
           iob (sys_close fd) (\<lambda>closed.
           if \<not> (ok \<and> closed) then iob (unlink tmp) (\<lambda>_. ret False)
           else iob (sys_num ''rename'' [] [tmp, path]) (\<lambda>r.
             if r \<noteq> Inr 0 then iob (unlink tmp) (\<lambda>_. ret False) else ret True)))))"

definition write_text_file :: "bytes \<Rightarrow> bytes \<Rightarrow> bool io" where
  "write_text_file path text =
     iob (sys_num ''open'' [O_WRONLY OR O_CLOEXEC] [path]) (\<lambda>r.
       case r of
         Inl e \<Rightarrow> ret False
       | Inr fd \<Rightarrow> iob (write_all fd text) (\<lambda>ok. iob (sys_close fd) (\<lambda>_. ret ok)))"

definition write_pid_file :: "bytes \<Rightarrow> int \<Rightarrow> bool io" where
  "write_pid_file path pid =
     (let buf = dec_int pid @ [10] in
      if length buf \<ge> 32 then ret False else write_text_file path buf)"

text \<open>
  \<^verbatim>\<open>strtoull\<close> in base 10: white space, an optional sign, digits; the value and how many bytes it
  used, none when there is no digit. Too large a value is \<^verbatim>\<open>ULLONG_MAX\<close>; a minus sign negates.
\<close>

definition is_space :: "u8 \<Rightarrow> bool" where
  "is_space c \<longleftrightarrow> c = 32 \<or> 9 \<le> c \<and> c \<le> 13"

definition is_dec :: "u8 \<Rightarrow> bool" where
  "is_dec c \<longleftrightarrow> 48 \<le> c \<and> c \<le> 57"

definition dec_value :: "bytes \<Rightarrow> nat" where
  "dec_value ds = foldl (\<lambda>v d. 10 * v + unat (d - 48)) 0 ds"

definition strtoull :: "bytes \<Rightarrow> u64 \<times> nat" where
  "strtoull s =
     (let t = dropWhile is_space s;
          neg = (t \<noteq> [] \<and> hd t = of_char (CHR ''-''));
          u = (if t \<noteq> [] \<and> (neg \<or> hd t = of_char (CHR ''+'')) then tl t else t);
          ds = takeWhile is_dec u;
          v = dec_value ds
      in if ds = [] then (0, 0)
         else (if v \<ge> 2 ^ 64 then - 1 else if neg then - of_nat v else of_nat v,
               length s - length u + length ds))"

definition read_u64_file :: "bytes \<Rightarrow> u64 option io" where
  "read_u64_file path =
     iob (sys_num ''open'' [O_RDONLY OR O_CLOEXEC] [path]) (\<lambda>r.
       case r of
         Inl e \<Rightarrow> ret None
       | Inr fd \<Rightarrow>
           iob (sys_read fd 31) (\<lambda>n.
           iob (sys_close fd) (\<lambda>_.
           case n of
             Inl e \<Rightarrow> ret None
           | Inr buf \<Rightarrow>
               if buf = [] then ret None
               else if snd (strtoull buf) = 0 then ret None else ret (Some (fst (strtoull buf))))))"

section \<open>Diagnostics and errors with a text\<close>

definition dprintf :: "int \<Rightarrow> bytes \<Rightarrow> unit io" where
  "dprintf fd msg = iob (sys_num ''dprintf'' [fd] [msg]) (\<lambda>_. ret ())"

text \<open>The error number some earlier call left, where the code reports it without a failed call.\<close>

definition stale_errno :: "errno io" where
  "stale_errno = iob (sys_num ''errno'' [] []) (\<lambda>r. ret (case r of Inr n \<Rightarrow> nat n | Inl e \<Rightarrow> e))"

text \<open>\<^verbatim>\<open>snprintf\<close> into a buffer of a given size: the bytes before the NUL.\<close>

definition snprintf :: "nat \<Rightarrow> bytes \<Rightarrow> bytes" where
  "snprintf cap msg = take (cap - 1) msg"

text \<open>A function that returns -1 with a message in its error buffer; the next step runs only after success.\<close>

type_synonym 'a res = "bytes + 'a"

definition attempt :: "'a res io \<Rightarrow> ('a \<Rightarrow> 'b res io) \<Rightarrow> 'b res io" where
  "attempt m f = iob m (\<lambda>r. case r of Inl e \<Rightarrow> ret (Inl e) | Inr x \<Rightarrow> f x)"

fun each :: "('a \<Rightarrow> unit res io) \<Rightarrow> 'a list \<Rightarrow> unit res io" where
  "each f [] = ret (Inr ())"
| "each f (x # xs) = attempt (f x) (\<lambda>_. each f xs)"

text \<open>A call that must return zero, with the message built from the error number.\<close>

definition must :: "(errno \<Rightarrow> bytes) \<Rightarrow> int sysret io \<Rightarrow> unit res io" where
  "must msg m = iob m (\<lambda>r. case r of Inl e \<Rightarrow> ret (Inl (msg e)) | Inr _ \<Rightarrow> ret (Inr ()))"

section \<open>Round trips\<close>

lemma bit_byte_at:
  fixes v :: "'a::len word"
  shows "bit (drop_bit n v AND 0xff) i \<longleftrightarrow> i < 8 \<and> bit v (n + i)"
proof -
  have mask: "(0xff :: 'a word) = mask 8" by (simp add: mask_eq_exp_minus_1)
  show ?thesis
    unfolding mask by (auto simp: bit_and_iff bit_mask_iff bit_drop_bit_eq dest: bit_imp_le_length)
qed

text \<open>Adding the byte at bit \<open>n\<close> to the bits below \<open>n\<close>.\<close>

lemma le_step:
  fixes v :: "'a::len word"
  shows "take_bit n v OR push_bit n (ucast (ucast (drop_bit n v AND 0xff) :: u8)) = take_bit (n + 8) v"
  by (rule bit_word_eqI)
     (auto simp: bit_or_iff bit_take_bit_iff bit_push_bit_iff bit_ucast_iff bit_byte_at not_less)

lemma le_first:
  fixes v :: "'a::len word"
  shows "ucast (ucast (v AND 0xff) :: u8) = take_bit 8 v"
  using le_step [of 0 v] by simp

lemma read_write_le16: "read_le16 (write_le16 v @ r) = Ok v"
  using le_step [of 8 v] by (simp add: read_le16_def write_le16_def le_first take_bit_word_eq_self)

lemma read_write_le32: "read_le32 (write_le32 v @ r) = Ok v"
  using le_step [of 8 v] le_step [of 16 v] le_step [of 24 v]
  by (simp add: read_le32_def write_le32_def le_first take_bit_word_eq_self or.assoc [symmetric])

lemma read_write_le64: "read_le64 (write_le64 v @ r) = Ok v"
proof -
  have "foldl (\<lambda>acc i. bnd acc (\<lambda>u. bnd (rd (write_le64 v @ r) i) (\<lambda>b. Ok (u OR push_bit (8 * i) (ucast b)))))
      (Ok 0) [0..<n] = Ok (take_bit (8 * n) v)" if "n \<le> 8" for n
    using that
  proof (induction n)
    case (Suc n)
    then have "rd (write_le64 v @ r) n = Ok (ucast (drop_bit (8 * n) v AND 0xff))"
      by (simp add: rd_def write_le64_def nth_append)
    with Suc le_step [of "8 * n" v] show ?case by (simp add: add.commute)
  qed simp
  from this [of 8] show ?thesis by (simp add: read_le64_def take_bit_word_eq_self)
qed

text \<open>C11. Writing a 64-bit, 32-bit or 16-bit integer and reading it back gives the integer, whatever
  bytes follow.\<close>

theorem le_round_trip:
  "read_le16 (write_le16 a @ r) = Ok a \<and> read_le32 (write_le32 b @ r) = Ok b \<and> read_le64 (write_le64 c @ r) = Ok c"
  by (simp add: read_write_le16 read_write_le32 read_write_le64)

section \<open>Whole writes\<close>

definition writes :: "int \<Rightarrow> bytes \<Rightarrow> bool \<Rightarrow> event list \<Rightarrow> bool" where
  "writes fd buf ok tr \<longleftrightarrow> writes_only fd tr \<and> prefix (wire fd tr) buf \<and> (ok \<longrightarrow> wire fd tr = buf)"

lemma prefix_take_drop: "prefix s (drop n buf) \<Longrightarrow> prefix (take n buf @ s) buf"
  by (auto simp: prefix_def; metis append_take_drop_id)

lemma adds_write_all: "adds (write_all fd buf) (writes fd buf) (writes fd buf False)"
proof (rule adds_loop [where I = "\<lambda>_. True" and f = "write_all fd"], goal_cases)
  case (1 buf w)
  show ?case
    by (subst write_all.simps)
       (auto simp: holds_iob writes_def intro!: holds_write 1(2) extends_refl extends_log prefix_take_drop)
qed simp

lemma shrinks_write_all [shrinks_intro]: "shrinks (write_all fd buf)"
proof -
  have "length (w_answers w') \<le> length (w_answers w)" if "write_all fd buf w = (Ret x, w')" for x w w'
    using that
  proof (induction fd buf w rule: write_all.induct)
    case (1 fd buf w)
    show ?case
    proof (cases "buf = []")
      case False
      with "1.prems" obtain r w1 where r: "sys_write fd buf w = (Ret r, w1)"
          "(case r of Inl e \<Rightarrow> if e = EINTR then write_all fd buf w1 else ret False w1
            | Inr n \<Rightarrow> write_all fd (drop n buf) w1) = (Ret x, w')"
        by (subst (asm) write_all.simps) (auto simp: iob_eq_Ret)
      from calls_less(3) [OF r(1)] "1.IH" [OF False r(1)] r(2) show ?thesis
        by (fastforce simp: ret_def split: sum.split_asm if_split_asm)
    qed (use "1.prems" in \<open>simp add: write_all.simps ret_def\<close>)
  qed
  then show ?thesis by (simp add: shrinks_def)
qed

section \<open>Whole reads\<close>

definition reads_exactly :: "int \<Rightarrow> nat \<Rightarrow> bytes option \<Rightarrow> event list \<Rightarrow> bool" where
  "reads_exactly fd n r tr \<longleftrightarrow> reads_only fd tr \<and>
     (case r of Some bs \<Rightarrow> input fd tr = bs \<and> length bs = n | None \<Rightarrow> length (input fd tr) < n)"

lemma adds_read_exact_loop:
  "adds (read_exact_loop fd n buf)
     (\<lambda>r tr. reads_exactly fd n (case r of None \<Rightarrow> None | Some bs \<Rightarrow> Some (drop (length buf) bs)) tr \<and>
        (\<forall>bs. r = Some bs \<longrightarrow> prefix buf bs))
     (reads_exactly fd n None)" (is "adds _ (?P n buf) (?F n)")
proof -
  have "adds ((\<lambda>(n, buf). read_exact_loop fd n buf) s) ((\<lambda>(n, buf). ?P n buf) s) ((\<lambda>(n, buf). ?F n) s)" for s
  proof (rule adds_loop [where I = "\<lambda>_. True" and f = "\<lambda>(n, buf). read_exact_loop fd n buf"], goal_cases)
    case (1 s w)
    obtain n buf where s: "s = (n, buf)" by (cases s)
    note IH = 1(2) [where s' = "(n', buf')" for n' buf', simplified]
    show ?case
      unfolding s
      by (simp, subst read_exact_loop.simps)
        (auto simp: holds_iob reads_exactly_def prefix_def less_diff_conv add.commute split: option.splits
          intro!: holds_read IH extends_refl extends_log)
  qed simp
  from this [of "(n, buf)"] show ?thesis by simp
qed

lemma adds_read_exact: "adds (read_exact fd n) (reads_exactly fd n) (reads_exactly fd n None)"
  unfolding read_exact_def by (rule adds_mono [OF adds_read_exact_loop]) (auto split: option.splits)

section \<open>The request line\<close>

text \<open>
  What the line reader consumed: on a line, the line and nothing after its newline; a line
  that does not fit is cut at the capacity and refused.
\<close>

fun reads_line :: "int \<Rightarrow> nat \<Rightarrow> line_result \<Rightarrow> event list \<Rightarrow> bool" where
  "reads_line fd cap (Line l) tr \<longleftrightarrow> reads_only fd tr \<and> input fd tr = l \<and> length l < cap \<and> 10 \<notin> set (butlast l) \<and>
     (l \<noteq> [] \<and> last l = 10 \<or> 10 \<notin> set l \<and> length l + 1 < cap \<and> tr \<noteq> [] \<and> last tr = (Read fd 1, Data []))"
| "reads_line fd cap LineError tr \<longleftrightarrow> reads_only fd tr \<and> 10 \<notin> set (input fd tr) \<and> length (input fd tr) < cap \<and>
     (\<exists>e. tr \<noteq> [] \<and> last tr = (Read fd 1, Err e) \<and> e \<noteq> EINTR)"
| "reads_line fd cap LineTooLong tr \<longleftrightarrow> reads_only fd tr \<and> 10 \<notin> set (input fd tr) \<and> length (input fd tr) + 1 = cap"

definition byte_reads :: "int \<Rightarrow> bytes \<Rightarrow> event list" where
  "byte_reads fd buf = map (\<lambda>c. (Read fd 1, Data [c])) buf"

lemma byte_reads [simp]:
  "reads_only fd (byte_reads fd buf)" "input fd (byte_reads fd buf) = buf"
  "byte_reads fd [] = []" "byte_reads fd (buf @ [c]) = byte_reads fd buf @ [(Read fd 1, Data [c])]"
  by (induction buf) (simp_all add: byte_reads_def)

lemma reads_line_retry:
  "reads_line fd cap r (byte_reads fd buf @ tr) \<Longrightarrow> reads_line fd cap r (byte_reads fd buf @ (Read fd 1, Err e) # tr)"
  by (cases "tr = []"; cases r; cases buf rule: rev_cases) auto

lemma reads_line_done:
  assumes "10 \<notin> set buf" "length buf < cap"
  shows "length buf + 1 = cap \<Longrightarrow> reads_line fd cap (line_done cap buf) (byte_reads fd buf)"
    "length buf + 1 < cap \<Longrightarrow> reads_line fd cap (line_done cap buf) (byte_reads fd buf @ [(Read fd 1, Data [])])"
    "length buf + 1 < cap \<Longrightarrow> reads_line fd cap (line_done cap (buf @ [10])) (byte_reads fd buf @ [(Read fd 1, Data [10])])"
  using assms by (auto simp: line_done_def dest: in_set_butlastD)

lemma adds_read_line_loop:
  assumes "10 \<notin> set buf" "length buf < cap"
  shows "adds (read_line_loop fd cap buf)
     (\<lambda>r tr. reads_line fd cap r (byte_reads fd buf @ tr))
     (\<lambda>tr. reads_only fd tr \<and> 10 \<notin> set (input fd tr) \<and> length (buf @ input fd tr) < cap)"
proof (rule adds_loop [where I = "\<lambda>buf. 10 \<notin> set buf \<and> length buf < cap" and f = "read_line_loop fd cap"], goal_cases)
  case (1 buf w)
  show ?case
  proof (cases "length buf + 1 < cap")
    case True
    have one: "bs = [] \<or> (\<exists>c. bs = [c])" if "length bs \<le> 1" for bs :: bytes
      using that by (cases bs) auto
    show ?thesis
    proof (subst read_line_loop.simps, simp only: True not_True_eq_False if_False holds_iob, rule holds_read, goal_cases)
      case ans: (1 bs)
      have more: "holds (read_line_loop fd cap (buf @ [c]) (log (Read fd 1) (Data [c]) w))
          (\<lambda>r. extends (\<lambda>tr. reads_line fd cap r (byte_reads fd buf @ tr)) w)
          (extends (\<lambda>tr. reads_only fd tr \<and> 10 \<notin> set (input fd tr) \<and> length (buf @ input fd tr) < cap) w)"
        if "c \<noteq> 10" for c
        using that True 1(1) ans by (intro 1(2)) auto
      show ?case
        using ans one [of bs] reads_line_done [of buf cap fd] True 1(1) more
        by (auto intro!: extends_log)
    next
      case ans: (2 e)
      have "holds (read_line_loop fd cap buf (log (Read fd 1) (Err e) w))
          (\<lambda>r. extends (\<lambda>tr. reads_line fd cap r (byte_reads fd buf @ tr)) w)
          (extends (\<lambda>tr. reads_only fd tr \<and> 10 \<notin> set (input fd tr) \<and> length (buf @ input fd tr) < cap) w)"
        using 1(1) ans by (intro 1(2)) (auto intro: reads_line_retry [simplified])
      with 1(1) show ?case by (auto intro!: extends_log)
    qed (use True in \<open>simp add: extends_refl\<close>)
  next
    case False
    with 1(1) reads_line_done(1) [of buf cap fd] show ?thesis
      by (subst read_line_loop.simps) (simp add: extends_refl)
  qed
qed (use assms in simp)

text \<open>C12. The request line reader is memory safe for a buffer with room for the NUL, consumes no byte
  after the newline that ends the line, returns exactly the bytes it consumed, refuses a line that
  does not fit, and returns a line without a newline only at end of file.\<close>

theorem read_line_spec:
  "holds (read_line fd (Suc n) w)
     (\<lambda>r. extends (reads_line fd (Suc n) r) w)
     (extends (\<lambda>tr. reads_only fd tr \<and> 10 \<notin> set (input fd tr) \<and> length (input fd tr) \<le> n) w)"
  unfolding read_line_def
  using addsD [OF adds_read_line_loop [of "[]" "Suc n" fd]] by (simp add: less_Suc_eq_le)

text \<open>C13. Reading an exact number of bytes consumes that many and returns them in order, or fails
  (or waits) having consumed fewer.\<close>

theorem read_exact_spec:
  "holds (read_exact fd n w) (\<lambda>r. extends (reads_exactly fd n r) w) (extends (reads_exactly fd n None) w)"
  by (rule addsD [OF adds_read_exact])

section \<open>Atomic replacement of a file\<close>

lemma writes_only_no_sys: "writes_only fd tr \<Longrightarrow> (Sys name is ss, a) \<notin> set tr"
  by (auto simp: writes_only_def list_all_iff)

text \<open>
  A success is a complete temporary file, closed without error and renamed onto the path; otherwise
  no rename onto the path has succeeded.
\<close>

definition replaces :: "bytes \<Rightarrow> bytes \<Rightarrow> bool \<Rightarrow> event list \<Rightarrow> bool" where
  "replaces path text ok tr \<longleftrightarrow>
     (if ok then \<exists>pid fd ws tmp flags. tmp = path @ lit ''.tmp.'' @ dec_int pid \<and> length tmp < 256 \<and>
        tr = [(Sys ''getpid'' [] [], Num pid), (Sys ''open'' flags [tmp], Num fd)] @ ws @
             [(Close fd, Num 0), (Sys ''rename'' [] [tmp, path], Num 0)] \<and>
        writes_only fd ws \<and> wire fd ws = text
      else \<forall>tmp. (Sys ''rename'' [] [tmp, path], Num 0) \<notin> set tr)"

lemma adds_getpid_bind [adds_step]:
  assumes "\<And>pid. 0 \<le> pid \<Longrightarrow> adds (f pid) (\<lambda>y tr. Q y ((Sys ''getpid'' [] [], Num pid) # tr)) (\<lambda>tr. G ((Sys ''getpid'' [] [], Num pid) # tr))"
    "G []" "\<And>e. G [(Sys ''getpid'' [] [], Err e)]"
  shows "adds (iob getpid f) Q G"
  unfolding getpid_def iob_assoc by (rule adds_step) (auto intro: assms adds_block)

lemma adds_now_ms_bind [adds_step]:
  assumes "\<And>t a. adds (f t) (\<lambda>y tr. Q y ((Clock, a) # tr)) (\<lambda>tr. G ((Clock, a) # tr))" "G []"
  shows "adds (iob now_ms f) Q G"
  unfolding now_ms_def iob_assoc by (rule adds_step) (auto intro: assms)

lemma adds_unlink_bind [adds_step]:
  assumes "\<And>ok a. adds (f ok) (\<lambda>y tr. Q y ((Sys ''unlink'' [] [path], a) # tr)) (\<lambda>tr. G ((Sys ''unlink'' [] [path], a) # tr))" "G []"
  shows "adds (iob (unlink path) f) Q G"
  unfolding unlink_def iob_assoc by (rule adds_step) (auto intro: assms)

lemma adds_write_all_bind [adds_step]:
  assumes "\<And>ok ws. writes fd buf ok ws \<Longrightarrow> adds (f ok) (\<lambda>y tr. Q y (ws @ tr)) (\<lambda>tr. G (ws @ tr))"
    "\<And>ws. writes fd buf False ws \<Longrightarrow> G ws"
  shows "adds (iob (write_all fd buf) f) Q G"
  by (rule adds_iob [OF adds_write_all]) (auto intro: assms)

lemma adds_write_file_atomic: "adds (write_file_atomic path text) (replaces path text) (replaces path text False)"
proof -
  have no: "(Sys name is ss, a) \<notin> set ws" if "writes fd text ok ws" for name "is" ss a fd ok ws
    using that by (auto simp: writes_def dest: writes_only_no_sys)
  show ?thesis
    unfolding write_file_atomic_def
    by (intro adds_step) (auto simp: replaces_def dest: no, simp_all add: writes_def)
qed

text \<open>C14. A file is replaced atomically: success means the whole text was written to a temporary
  file of another name, which was closed without error and only then renamed onto the path; when the
  call fails, or is interrupted at any point, nothing has been renamed onto the path.\<close>

theorem write_file_atomic_spec:
  "holds (write_file_atomic path text w)
     (\<lambda>ok. extends (replaces path text ok) w) (extends (replaces path text False) w)"
  by (rule addsD [OF adds_write_file_atomic])

section \<open>Steps that succeeded\<close>

text \<open>
  The calls of a trace that succeeded, in order. \<open>succeeds m cs\<close>: \<open>m\<close> reports success only when
  the calls \<open>cs\<close> succeeded in this order.
\<close>

definition ok_calls :: "event list \<Rightarrow> call list" where
  "ok_calls tr = map fst (filter (\<lambda>(c, a). case a of Num n \<Rightarrow> True | _ \<Rightarrow> False) tr)"

definition succeeds :: "'a res io \<Rightarrow> call list \<Rightarrow> bool" where
  "succeeds m cs \<longleftrightarrow> adds m (\<lambda>r tr. \<forall>x. r = Inr x \<longrightarrow> subseq cs (ok_calls tr)) (\<lambda>_. True)"

named_theorems succeeds_step "what a computation did when it reports success"

lemma ok_calls_simps [simp]:
  "ok_calls [] = []" "ok_calls (a @ b) = ok_calls a @ ok_calls b"
  "ok_calls ((c, Num n) # tr) = c # ok_calls tr" "ok_calls ((c, Err e) # tr) = ok_calls tr"
  "ok_calls ((c, Data d) # tr) = ok_calls tr"
  by (simp_all add: ok_calls_def)

lemma ok_calls_mono: "subseq cs (ok_calls tr) \<Longrightarrow> subseq cs (ok_calls (e # tr))"
  by (cases "snd e") (auto simp: ok_calls_def split: prod.splits)

lemma succeeds_error [succeeds_step]: "succeeds (ret (Inl e)) cs"
  by (simp add: succeeds_def adds_ret)

lemma succeeds_Nil [succeeds_step]: "succeeds (ret (Inr x)) []"
  by (simp add: succeeds_def adds_ret)

lemma succeeds_if [succeeds_step]: "(b \<Longrightarrow> succeeds m cs) \<Longrightarrow> (\<not> b \<Longrightarrow> succeeds n cs) \<Longrightarrow> succeeds (if b then m else n) cs"
  by simp

lemma succeeds_attempt [succeeds_step]:
  fixes m :: "'a res io" and f :: "'a \<Rightarrow> 'b res io"
  assumes "succeeds m as" "\<And>x. succeeds (f x) bs"
  shows "succeeds (attempt m f) (as @ bs)"
  unfolding succeeds_def attempt_def
proof (rule adds_iob [OF assms(1) [unfolded succeeds_def]])
  fix r :: "'a res" and tr
  assume r: "\<forall>x. r = Inr x \<longrightarrow> subseq as (ok_calls tr)"
  show "adds (case r of Inl e \<Rightarrow> ret (Inl e) | Inr x \<Rightarrow> f x)
      (\<lambda>y b. \<forall>x. y = Inr x \<longrightarrow> subseq (as @ bs) (ok_calls (tr @ b))) (\<lambda>b. True)"
  proof (cases r)
    case (Inr x)
    with r show ?thesis
      using assms(2) [of x, unfolded succeeds_def]
      by (auto elim!: adds_mono intro: list_emb_append_mono)
  qed (simp add: adds_ret)
qed simp

lemma succeeds_first: "succeeds m [c] \<Longrightarrow> (\<And>x. succeeds (f x) cs) \<Longrightarrow> succeeds (attempt m f) (c # cs)"
  using succeeds_attempt [of m "[c]" f cs] by simp

lemma succeeds_skip: "succeeds m [] \<Longrightarrow> (\<And>x. succeeds (f x) cs) \<Longrightarrow> succeeds (attempt m f) cs"
  using succeeds_attempt [of m "[]" f cs] by simp

lemma succeeds_each:
  assumes "\<And>x. succeeds (f x) (g x)"
  shows "succeeds (each f xs) (concat (map g xs))"
  by (induction xs) (auto intro!: succeeds_step assms)

lemma succeeds_each_Nil: "(\<And>x. succeeds (f x) []) \<Longrightarrow> succeeds (each f xs) []"
  by (induction xs) (auto intro!: succeeds_step succeeds_skip)

lemma succeeds_num [succeeds_step]:
  assumes "\<And>r. succeeds (f r) cs"
  shows "succeeds (iob (sys_num name is ss) f) cs"
proof -
  have rest: "adds (f r) (\<lambda>y tr. \<forall>x. y = Inr x \<longrightarrow> subseq cs (ok_calls ((c, a) # tr))) (\<lambda>_. True)" for r c a
    by (rule adds_mono [OF assms [unfolded succeeds_def]]) (auto intro: ok_calls_mono)
  show ?thesis unfolding succeeds_def by (rule adds_num_bind) (rule rest, rule rest, rule TrueI)
qed

lemma succeeds_must [succeeds_step]: "succeeds (must msg (sys_num name is ss)) [Sys name is ss]"
  unfolding succeeds_def must_def by (intro adds_step) auto

lemma succeeds_cases [succeeds_step]:
  "(\<And>e. succeeds (f e) cs) \<Longrightarrow> (\<And>x. succeeds (g x) cs) \<Longrightarrow> succeeds (case_sum f g r) cs"
  by (cases r) simp_all

lemma succeeds_weaken: "succeeds m cs \<Longrightarrow> subseq ds cs \<Longrightarrow> succeeds m ds"
  unfolding succeeds_def by (elim adds_mono) (auto intro: subseq_order.order_trans)

lemma succeeds_must_Nil [succeeds_step]: "succeeds (must msg (sys_num name is ss)) []"
  by (rule succeeds_weaken [OF succeeds_must]) simp

lemma succeeds_stale_errno [succeeds_step]: "(\<And>e. succeeds (f e) cs) \<Longrightarrow> succeeds (iob stale_errno f) cs"
  unfolding stale_errno_def iob_assoc iob_ret by (rule succeeds_num)

section \<open>Safety\<close>

lemma safe_write_all [safe_step]: "(\<And>ok. Q ok) \<Longrightarrow> safe (write_all fd buf) Q"
  by (rule safeI [OF adds_write_all])

lemma safe_read_exact [safe_step]: "Q None \<Longrightarrow> (\<And>bs. length bs = n \<Longrightarrow> Q (Some bs)) \<Longrightarrow> safe (read_exact fd n) Q"
  by (rule safeI [OF adds_read_exact]) (auto simp: reads_exactly_def split: option.splits)

lemma safe_read_line [safe_step]:
  assumes "0 < cap" "\<And>l. length l < cap \<Longrightarrow> Q (Line l)" "Q LineError" "Q LineTooLong"
  shows "safe (read_line fd cap) Q"
proof -
  have "safe (read_line_loop fd cap []) Q"
  proof (rule safeI [OF adds_read_line_loop])
    show "reads_line fd cap x (byte_reads fd [] @ tr) \<Longrightarrow> Q x" for x tr
      using assms by (cases x) auto
  qed (use assms in auto)
  with assms(1) show ?thesis by (simp add: read_line_def)
qed

lemma safe_now_ms [safe_step]: "(\<And>t. Q t) \<Longrightarrow> safe now_ms Q"
  unfolding now_ms_def by (intro safe_step)

lemma safe_diagnostics [safe_step]: "Q () \<Longrightarrow> safe (dprintf fd msg) Q" "(\<And>e. R e) \<Longrightarrow> safe stale_errno R"
  unfolding dprintf_def stale_errno_def by (intro safe_step; simp)+

lemma safe_files [safe_step]:
  "(\<And>ok. Q ok) \<Longrightarrow> safe (write_text_file path msg) Q" "(\<And>ok. Q ok) \<Longrightarrow> safe (set_nonblock fd) Q"
  "(\<And>ok. Q ok) \<Longrightarrow> safe (unlink path) Q" "(\<And>v. R v) \<Longrightarrow> safe (read_u64_file path) R"
  unfolding write_text_file_def set_nonblock_def unlink_def read_u64_file_def by (intro safe_step; simp)+

lemma safe_write_pid_file [safe_step]: "(\<And>ok. Q ok) \<Longrightarrow> safe (write_pid_file path pid) Q"
  unfolding write_pid_file_def by (intro safe_step)

lemma safe_getpid [safe_step]: "(\<And>pid. 0 \<le> pid \<Longrightarrow> Q pid) \<Longrightarrow> safe getpid Q"
  unfolding getpid_def by (intro safe_step) auto

lemma safe_write_file_atomic [safe_step]: "(\<And>ok. Q ok) \<Longrightarrow> safe (write_file_atomic path msg) Q"
  unfolding write_file_atomic_def by (intro safe_step)

lemma safe_mkdir_exist_ok [safe_step]: "(\<And>ok. Q ok) \<Longrightarrow> safe (mkdir_exist_ok path mode) Q"
  unfolding mkdir_exist_ok_def by (intro safe_step)

lemma safe_mkdir_p_loop: "(\<And>ok. Q ok) \<Longrightarrow> safe (mkdir_p_loop mode dir rest) Q"
  by (induction rest arbitrary: dir) (auto intro!: safe_step)

lemma safe_mkdir_p [safe_step]: "(\<And>ok. Q ok) \<Longrightarrow> safe (mkdir_p path mode) Q"
  unfolding mkdir_p_def by (intro safe_step safe_mkdir_p_loop)

lemma safe_wait_for_path [safe_step]: "(\<And>ok. Q ok) \<Longrightarrow> safe (wait_for_path path attempts sleep_us) Q"
  by (induction attempts) (auto intro!: safe_step)

lemma safe_path_is_dir [safe_step]: "(\<And>b. Q b) \<Longrightarrow> safe (path_is_dir path) Q"
  unfolding path_is_dir_def by (intro safe_step)

lemma safe_readlink [safe_step]:
  "Q None \<Longrightarrow> (\<And>l. l \<noteq> [] \<Longrightarrow> length l < cap \<Longrightarrow> Q (Some l)) \<Longrightarrow> safe (readlink_bounded path cap) Q"
  "Q None \<Longrightarrow> (\<And>l. l \<noteq> [] \<Longrightarrow> length l < cap \<Longrightarrow> Q (Some l)) \<Longrightarrow> safe (readlinkat_bounded dir_fd path cap) Q"
  unfolding readlink_bounded_def readlinkat_bounded_def by (intro safe_step; auto)+

lemma safe_close_if_open [safe_step]:
  "(\<And>x. x < 0 \<Longrightarrow> Q x) \<Longrightarrow> safe (close_fd_if_open fd) Q"
  unfolding close_fd_if_open_def by (intro safe_step) auto

lemma safe_close_pipe_if_open [safe_step]:
  "(\<And>x y. x < 0 \<Longrightarrow> y < 0 \<Longrightarrow> Q (x, y)) \<Longrightarrow> safe (close_pipe_if_open p) Q"
  unfolding close_pipe_if_open_def by (intro safe_step)

lemma safe_attempt [safe_step]:
  "safe m (\<lambda>r. case r of Inl e \<Rightarrow> Q (Inl e) | Inr x \<Rightarrow> safe (f x) Q) \<Longrightarrow> safe (attempt m f) Q"
  unfolding attempt_def by (intro safe_step, erule safe_mono) (auto intro!: safe_step split: sum.splits)

lemma safe_must [safe_step]: "(\<And>e. Q (Inl e)) \<Longrightarrow> Q (Inr ()) \<Longrightarrow> safe m (\<lambda>_. True) \<Longrightarrow> safe (must msg m) Q"
  unfolding must_def by (intro safe_step, erule safe_mono) (auto intro!: safe_step split: sum.splits)

lemma safe_each [safe_step]:
  "(\<And>e. Q (Inl e)) \<Longrightarrow> Q (Inr ()) \<Longrightarrow> (\<And>x. x \<in> set xs \<Longrightarrow> safe (f x) (\<lambda>_. True)) \<Longrightarrow> safe (each f xs) Q"
  by (induction xs) (auto intro!: safe_step elim!: safe_mono split: sum.splits)

end
