(* ===== verification/Sandbox.thy ===== *)
theory Sandbox
  imports Util
begin

text \<open>
  \<^verbatim>\<open>build_run_sandbox.c\<close>: the device filter (an eBPF program on the cgroup), the system call filter
  (a classic BPF program for seccomp), the mounts of a build RUN and the entry into the sandbox.
  The two programs are written out instruction by instruction with the labels of the source and run
  by interpreters of the instructions they use; offsets only jump forward, so the interpreters
  consume the program.
\<close>

section \<open>The device filter\<close>

text \<open>The context of a cgroup device program: the access in the upper and the type in the lower half.\<close>

record device_ctx =
  access_type :: u32
  dev_major :: u32
  dev_minor :: u32

datatype ctx_field = AccessType | Major | Minor

datatype alu_op = BPF_AND | BPF_MOV

datatype jmp_op = BPF_JEQ | BPF_JNE

datatype bpf_insn =
    LDX_MEM_W ctx_field
  | ALU64_IMM alu_op u64
  | JMP_IMM jmp_op u64 int
  | JMP_A int
  | EXIT_INSN

fun ctx_load :: "device_ctx \<Rightarrow> ctx_field \<Rightarrow> u64" where
  "ctx_load ctx AccessType = ucast (access_type ctx)"
| "ctx_load ctx Major = ucast (dev_major ctx)"
| "ctx_load ctx Minor = ucast (dev_minor ctx)"

text \<open>
  The interpreter keeps register 0; falling off the end or jumping backwards is refused, as the
  kernel's verifier does.
\<close>

function bpf_run :: "bpf_insn list \<Rightarrow> device_ctx \<Rightarrow> u64 \<Rightarrow> u64 option" where
  "bpf_run [] ctx r0 = None"
| "bpf_run (LDX_MEM_W f # rest) ctx r0 = bpf_run rest ctx (ctx_load ctx f)"
| "bpf_run (ALU64_IMM BPF_AND k # rest) ctx r0 = bpf_run rest ctx (r0 AND k)"
| "bpf_run (ALU64_IMM BPF_MOV k # rest) ctx r0 = bpf_run rest ctx k"
| "bpf_run (JMP_IMM BPF_JEQ k off # rest) ctx r0 =
     (if r0 = k then (if off < 0 then None else bpf_run (drop (nat off) rest) ctx r0) else bpf_run rest ctx r0)"
| "bpf_run (JMP_IMM BPF_JNE k off # rest) ctx r0 =
     (if r0 \<noteq> k then (if off < 0 then None else bpf_run (drop (nat off) rest) ctx r0) else bpf_run rest ctx r0)"
| "bpf_run (JMP_A off # rest) ctx r0 = (if off < 0 then None else bpf_run (drop (nat off) rest) ctx r0)"
| "bpf_run (EXIT_INSN # rest) ctx r0 = Some r0"
  by pat_completeness auto
termination
  by (relation "measure (\<lambda>(p, ctx, r0). length p)") auto

datatype device_filter_instruction =
    DEVICE_LOAD_MKNOD_ACCESS | DEVICE_MASK_MKNOD_ACCESS | DEVICE_ALLOW_MKNOD | DEVICE_LOAD_DEVICE_TYPE
  | DEVICE_MASK_DEVICE_TYPE | DEVICE_REQUIRE_CHARACTER | DEVICE_LOAD_MAJOR | DEVICE_ALLOW_PTY
  | DEVICE_CHECK_MEMORY_MAJOR | DEVICE_CHECK_TTY_MAJOR | DEVICE_DENY_OTHER_MAJOR | DEVICE_LOAD_MEMORY_MINOR
  | DEVICE_ALLOW_NULL | DEVICE_ALLOW_ZERO | DEVICE_ALLOW_FULL | DEVICE_ALLOW_RANDOM | DEVICE_ALLOW_URANDOM
  | DEVICE_DENY_OTHER_MEMORY_MINOR | DEVICE_LOAD_TTY_MINOR | DEVICE_ALLOW_TTY | DEVICE_ALLOW_PTMX
  | DEVICE_DENY_OTHER_TTY_MINOR | DEVICE_DENY_RESULT | DEVICE_DENY_EXIT | DEVICE_ALLOW_RESULT | DEVICE_ALLOW_EXIT

definition device_labels :: "device_filter_instruction list" where
  "device_labels =
    [DEVICE_LOAD_MKNOD_ACCESS, DEVICE_MASK_MKNOD_ACCESS, DEVICE_ALLOW_MKNOD, DEVICE_LOAD_DEVICE_TYPE,
     DEVICE_MASK_DEVICE_TYPE, DEVICE_REQUIRE_CHARACTER, DEVICE_LOAD_MAJOR, DEVICE_ALLOW_PTY,
     DEVICE_CHECK_MEMORY_MAJOR, DEVICE_CHECK_TTY_MAJOR, DEVICE_DENY_OTHER_MAJOR, DEVICE_LOAD_MEMORY_MINOR,
     DEVICE_ALLOW_NULL, DEVICE_ALLOW_ZERO, DEVICE_ALLOW_FULL, DEVICE_ALLOW_RANDOM, DEVICE_ALLOW_URANDOM,
     DEVICE_DENY_OTHER_MEMORY_MINOR, DEVICE_LOAD_TTY_MINOR, DEVICE_ALLOW_TTY, DEVICE_ALLOW_PTMX,
     DEVICE_DENY_OTHER_TTY_MINOR, DEVICE_DENY_RESULT, DEVICE_DENY_EXIT, DEVICE_ALLOW_RESULT, DEVICE_ALLOW_EXIT]"

text \<open>The value of an enumerator, and the macro \<^verbatim>\<open>FORWARD_OFFSET\<close>.\<close>

definition enum_value :: "'l list \<Rightarrow> 'l \<Rightarrow> nat" where
  "enum_value labels l = length (takeWhile (\<lambda>x. x \<noteq> l) labels)"

definition FORWARD_OFFSET :: "'l list \<Rightarrow> 'l \<Rightarrow> 'l \<Rightarrow> int" where
  "FORWARD_OFFSET labels from to = int (enum_value labels to) - int (enum_value labels from) - 1"

abbreviation (input) "BPF_DEVCG_ACC_MKNOD \<equiv> (1 :: u64)"
abbreviation (input) "BPF_DEVCG_DEV_CHAR \<equiv> (2 :: u64)"

definition device_program :: "bpf_insn list" where
  "device_program =
    [LDX_MEM_W AccessType,
     ALU64_IMM BPF_AND (push_bit 16 BPF_DEVCG_ACC_MKNOD),
     JMP_IMM BPF_JNE 0 (FORWARD_OFFSET device_labels DEVICE_ALLOW_MKNOD DEVICE_ALLOW_RESULT),
     LDX_MEM_W AccessType,
     ALU64_IMM BPF_AND 0xffff,
     JMP_IMM BPF_JNE BPF_DEVCG_DEV_CHAR (FORWARD_OFFSET device_labels DEVICE_REQUIRE_CHARACTER DEVICE_DENY_RESULT),
     LDX_MEM_W Major,
     JMP_IMM BPF_JEQ 136 (FORWARD_OFFSET device_labels DEVICE_ALLOW_PTY DEVICE_ALLOW_RESULT),
     JMP_IMM BPF_JEQ 1 (FORWARD_OFFSET device_labels DEVICE_CHECK_MEMORY_MAJOR DEVICE_LOAD_MEMORY_MINOR),
     JMP_IMM BPF_JEQ 5 (FORWARD_OFFSET device_labels DEVICE_CHECK_TTY_MAJOR DEVICE_LOAD_TTY_MINOR),
     JMP_A (FORWARD_OFFSET device_labels DEVICE_DENY_OTHER_MAJOR DEVICE_DENY_RESULT),
     LDX_MEM_W Minor,
     JMP_IMM BPF_JEQ 3 (FORWARD_OFFSET device_labels DEVICE_ALLOW_NULL DEVICE_ALLOW_RESULT),
     JMP_IMM BPF_JEQ 5 (FORWARD_OFFSET device_labels DEVICE_ALLOW_ZERO DEVICE_ALLOW_RESULT),
     JMP_IMM BPF_JEQ 7 (FORWARD_OFFSET device_labels DEVICE_ALLOW_FULL DEVICE_ALLOW_RESULT),
     JMP_IMM BPF_JEQ 8 (FORWARD_OFFSET device_labels DEVICE_ALLOW_RANDOM DEVICE_ALLOW_RESULT),
     JMP_IMM BPF_JEQ 9 (FORWARD_OFFSET device_labels DEVICE_ALLOW_URANDOM DEVICE_ALLOW_RESULT),
     JMP_A (FORWARD_OFFSET device_labels DEVICE_DENY_OTHER_MEMORY_MINOR DEVICE_DENY_RESULT),
     LDX_MEM_W Minor,
     JMP_IMM BPF_JEQ 0 (FORWARD_OFFSET device_labels DEVICE_ALLOW_TTY DEVICE_ALLOW_RESULT),
     JMP_IMM BPF_JEQ 2 (FORWARD_OFFSET device_labels DEVICE_ALLOW_PTMX DEVICE_ALLOW_RESULT),
     JMP_A (FORWARD_OFFSET device_labels DEVICE_DENY_OTHER_TTY_MINOR DEVICE_DENY_RESULT),
     ALU64_IMM BPF_MOV 0,
     EXIT_INSN,
     ALU64_IMM BPF_MOV 1,
     EXIT_INSN]"

section \<open>The system call filter\<close>

datatype machine = AARCH64 | X86_64

text \<open>Architecture constants of \<^verbatim>\<open>linux/audit.h\<close> and the system call numbers of the two machines.\<close>

fun SPORE_AUDIT_ARCH :: "machine \<Rightarrow> u32" where
  "SPORE_AUDIT_ARCH AARCH64 = 0xc00000b7"
| "SPORE_AUDIT_ARCH X86_64 = 0xc000003e"

datatype checked_call = NR_io_uring_setup | NR_clone3 | NR_clone | NR_unshare | NR_socket | NR_socketpair

fun call_number :: "machine \<Rightarrow> checked_call \<Rightarrow> u32" where
  "call_number m NR_io_uring_setup = 425"
| "call_number m NR_clone3 = 435"
| "call_number m NR_clone = (case m of AARCH64 \<Rightarrow> 220 | X86_64 \<Rightarrow> 56)"
| "call_number m NR_unshare = (case m of AARCH64 \<Rightarrow> 97 | X86_64 \<Rightarrow> 272)"
| "call_number m NR_socket = (case m of AARCH64 \<Rightarrow> 198 | X86_64 \<Rightarrow> 41)"
| "call_number m NR_socketpair = (case m of AARCH64 \<Rightarrow> 199 | X86_64 \<Rightarrow> 53)"

definition SPORE_X32_SYSCALL_BIT :: u32 where "SPORE_X32_SYSCALL_BIT = 0x40000000"

abbreviation (input) "CLONE_NEWUSER \<equiv> (0x10000000 :: u32)"
abbreviation (input) "AF_VSOCK \<equiv> (40 :: u32)"
abbreviation (input) "SECCOMP_RET_KILL_PROCESS \<equiv> (0x80000000 :: u32)"
abbreviation (input) "SECCOMP_RET_ERRNO \<equiv> (0x00050000 :: u32)"
abbreviation (input) "SECCOMP_RET_ALLOW \<equiv> (0x7fff0000 :: u32)"
abbreviation (input) "SECCOMP_RET_DATA \<equiv> (0xffff :: u32)"

record seccomp_data =
  sd_nr :: u32
  sd_arch :: u32
  sd_arg0 :: u64

datatype data_field = Nr | Arch | Arg0

text \<open>\<open>LD_W_ABS\<close> of \<^verbatim>\<open>args[0]\<close> loads its low half on these little-endian machines.\<close>

fun data_load :: "seccomp_data \<Rightarrow> data_field \<Rightarrow> u32" where
  "data_load d Nr = sd_nr d"
| "data_load d Arch = sd_arch d"
| "data_load d Arg0 = ucast (sd_arg0 d)"

datatype sock_filter =
    LD_W_ABS data_field
  | JEQ_K u32 int int
  | JSET_K u32 int int
  | JA_K int
  | RET_K u32

function seccomp_run :: "sock_filter list \<Rightarrow> seccomp_data \<Rightarrow> u32 \<Rightarrow> u32 option" where
  "seccomp_run [] d acc = None"
| "seccomp_run (LD_W_ABS f # rest) d acc = seccomp_run rest d (data_load d f)"
| "seccomp_run (JEQ_K k jt jf # rest) d acc =
     (let off = if acc = k then jt else jf in if off < 0 then None else seccomp_run (drop (nat off) rest) d acc)"
| "seccomp_run (JSET_K k jt jf # rest) d acc =
     (let off = if acc AND k \<noteq> 0 then jt else jf in if off < 0 then None else seccomp_run (drop (nat off) rest) d acc)"
| "seccomp_run (JA_K off # rest) d acc = (if off < 0 then None else seccomp_run (drop (nat off) rest) d acc)"
| "seccomp_run (RET_K k # rest) d acc = Some k"
  by pat_completeness auto
termination
  by (relation "measure (\<lambda>(p, d, acc). length p)") auto

datatype syscall_filter_instruction =
    SYSCALL_LOAD_ARCH | SYSCALL_REQUIRE_ARCH | SYSCALL_LOAD_NUMBER | SYSCALL_KILL_X32 | SYSCALL_DENY_IO_URING
  | SYSCALL_HIDE_CLONE3 | SYSCALL_CHECK_CLONE | SYSCALL_CHECK_UNSHARE | SYSCALL_CHECK_SOCKET
  | SYSCALL_CHECK_SOCKETPAIR | SYSCALL_ALLOW_OTHER_CALL | SYSCALL_LOAD_CLONE_FLAGS | SYSCALL_DENY_USER_NAMESPACE
  | SYSCALL_LOAD_SOCKET_FAMILY | SYSCALL_DENY_VSOCK | SYSCALL_ALLOW_OTHER_FAMILY | SYSCALL_DENY_RESULT
  | SYSCALL_ALLOW_RESULT | SYSCALL_KILL_RESULT | SYSCALL_ENOSYS_RESULT

definition syscall_labels :: "syscall_filter_instruction list" where
  "syscall_labels =
    [SYSCALL_LOAD_ARCH, SYSCALL_REQUIRE_ARCH, SYSCALL_LOAD_NUMBER, SYSCALL_KILL_X32, SYSCALL_DENY_IO_URING,
     SYSCALL_HIDE_CLONE3, SYSCALL_CHECK_CLONE, SYSCALL_CHECK_UNSHARE, SYSCALL_CHECK_SOCKET,
     SYSCALL_CHECK_SOCKETPAIR, SYSCALL_ALLOW_OTHER_CALL, SYSCALL_LOAD_CLONE_FLAGS, SYSCALL_DENY_USER_NAMESPACE,
     SYSCALL_LOAD_SOCKET_FAMILY, SYSCALL_DENY_VSOCK, SYSCALL_ALLOW_OTHER_FAMILY, SYSCALL_DENY_RESULT,
     SYSCALL_ALLOW_RESULT, SYSCALL_KILL_RESULT, SYSCALL_ENOSYS_RESULT]"

definition syscall_filter :: "machine \<Rightarrow> sock_filter list" where
  "syscall_filter m =
    [LD_W_ABS Arch,
     JEQ_K (SPORE_AUDIT_ARCH m) 0 (FORWARD_OFFSET syscall_labels SYSCALL_REQUIRE_ARCH SYSCALL_KILL_RESULT),
     LD_W_ABS Nr,
     JSET_K SPORE_X32_SYSCALL_BIT (FORWARD_OFFSET syscall_labels SYSCALL_KILL_X32 SYSCALL_KILL_RESULT) 0,
     JEQ_K (call_number m NR_io_uring_setup) (FORWARD_OFFSET syscall_labels SYSCALL_DENY_IO_URING SYSCALL_DENY_RESULT) 0,
     JEQ_K (call_number m NR_clone3) (FORWARD_OFFSET syscall_labels SYSCALL_HIDE_CLONE3 SYSCALL_ENOSYS_RESULT) 0,
     JEQ_K (call_number m NR_clone) (FORWARD_OFFSET syscall_labels SYSCALL_CHECK_CLONE SYSCALL_LOAD_CLONE_FLAGS) 0,
     JEQ_K (call_number m NR_unshare) (FORWARD_OFFSET syscall_labels SYSCALL_CHECK_UNSHARE SYSCALL_LOAD_CLONE_FLAGS) 0,
     JEQ_K (call_number m NR_socket) (FORWARD_OFFSET syscall_labels SYSCALL_CHECK_SOCKET SYSCALL_LOAD_SOCKET_FAMILY) 0,
     JEQ_K (call_number m NR_socketpair) (FORWARD_OFFSET syscall_labels SYSCALL_CHECK_SOCKETPAIR SYSCALL_LOAD_SOCKET_FAMILY) 0,
     JA_K (FORWARD_OFFSET syscall_labels SYSCALL_ALLOW_OTHER_CALL SYSCALL_ALLOW_RESULT),
     LD_W_ABS Arg0,
     JSET_K CLONE_NEWUSER (FORWARD_OFFSET syscall_labels SYSCALL_DENY_USER_NAMESPACE SYSCALL_DENY_RESULT)
       (FORWARD_OFFSET syscall_labels SYSCALL_DENY_USER_NAMESPACE SYSCALL_ALLOW_RESULT),
     LD_W_ABS Arg0,
     JEQ_K AF_VSOCK (FORWARD_OFFSET syscall_labels SYSCALL_DENY_VSOCK SYSCALL_DENY_RESULT) 0,
     JA_K (FORWARD_OFFSET syscall_labels SYSCALL_ALLOW_OTHER_FAMILY SYSCALL_ALLOW_RESULT),
     RET_K (SECCOMP_RET_ERRNO OR (1 AND SECCOMP_RET_DATA)),
     RET_K SECCOMP_RET_ALLOW,
     RET_K SECCOMP_RET_KILL_PROCESS,
     RET_K (SECCOMP_RET_ERRNO OR (38 AND SECCOMP_RET_DATA))]"

section \<open>Errors\<close>

definition set_error :: "nat \<Rightarrow> bytes \<Rightarrow> errno \<Rightarrow> bytes" where
  "set_error cap step e = snprintf cap (lit ''RUN sandbox setup failed: '' @ step @ lit '' errno='' @ dec e)"

abbreviation (input) "EINVAL \<equiv> (22 :: errno)"
abbreviation (input) "ENOTDIR \<equiv> (20 :: errno)"
abbreviation (input) "ENAMETOOLONG \<equiv> (36 :: errno)"
abbreviation (input) "O_DIRECTORY_RO \<equiv> (0x90000 :: int)"
abbreviation (input) "MS_RDONLY \<equiv> (1 :: int)"
abbreviation (input) "MS_NOSUID \<equiv> (2 :: int)"
abbreviation (input) "MS_NODEV \<equiv> (4 :: int)"
abbreviation (input) "MS_NOEXEC \<equiv> (8 :: int)"
abbreviation (input) "MS_REMOUNT \<equiv> (32 :: int)"
abbreviation (input) "MS_BIND \<equiv> (4096 :: int)"
abbreviation (input) "MS_MOVE \<equiv> (8192 :: int)"
abbreviation (input) "MS_REC \<equiv> (16384 :: int)"
abbreviation (input) "MS_PRIVATE \<equiv> (0x40000 :: int)"
abbreviation (input) "MS_STRICTATIME \<equiv> (0x1000000 :: int)"
abbreviation (input) "MNT_DETACH \<equiv> (2 :: int)"

text \<open>A null pointer argument of \<^verbatim>\<open>mount\<close>; no string contains this byte.\<close>

definition null_arg :: bytes where "null_arg = [0]"

definition mount :: "bytes \<Rightarrow> bytes \<Rightarrow> bytes \<Rightarrow> int \<Rightarrow> bytes \<Rightarrow> int sysret io" where
  "mount source target type flags opts = sys_num ''mount'' [flags] [source, target, type, opts]"

section \<open>Attaching the device policy\<close>

text \<open>
  The program load returns a descriptor; on failure the verifier's log is what the kernel left in
  the log buffer.
\<close>

definition spore_build_run_sandbox_attach_device_policy :: "bytes \<Rightarrow> nat \<Rightarrow> unit res io" where
  "spore_build_run_sandbox_attach_device_policy cgroup_path cap =
     iob (sys_num ''bpf_prog_load'' [int (length device_program)] []) (\<lambda>r.
     case r of
       Inl e \<Rightarrow>
         iob (sys_data ''verifier_log'' 4095 [] []) (\<lambda>log.
         iob (case log of
                Inr text \<Rightarrow> if text \<noteq> [] then dprintf 2 (lit ''RUN sandbox device verifier: '' @ take 4000 text @ [10]) else ret ()
              | Inl _ \<Rightarrow> ret ()) (\<lambda>_.
         ret (Inl (set_error cap (lit ''load device policy'') e))))
     | Inr program_fd \<Rightarrow>
         iob (sys_num ''open'' [O_DIRECTORY_RO] [cgroup_path]) (\<lambda>r.
         case r of
           Inl e \<Rightarrow> iob (sys_close program_fd) (\<lambda>_. ret (Inl (set_error cap (lit ''open operation cgroup'') e)))
         | Inr cgroup_fd \<Rightarrow>
             iob (sys_num ''bpf_prog_attach'' [cgroup_fd, program_fd] []) (\<lambda>rc.
             iob (sys_close cgroup_fd) (\<lambda>_. iob (sys_close program_fd) (\<lambda>_.
             case rc of
               Inl e \<Rightarrow> ret (Inl (set_error cap (lit ''attach device policy'') e))
             | Inr _ \<Rightarrow> ret (Inr ()))))))"

section \<open>Mounts of an operation\<close>

definition ensure_dir :: "nat \<Rightarrow> bytes \<Rightarrow> int \<Rightarrow> unit res io" where
  "ensure_dir cap path mode =
     iob (sys_num ''mkdir'' [mode] [path]) (\<lambda>r.
     case r of
       Inl e \<Rightarrow> if e \<noteq> EEXIST then ret (Inl (set_error cap path e)) else
         iob (sys_num ''lstat'' [] [path]) (\<lambda>st.
         case st of Inl e \<Rightarrow> ret (Inl (set_error cap path e))
         | Inr m \<Rightarrow> if \<not> S_ISDIR m then ret (Inl (set_error cap path ENOTDIR)) else ret (Inr ()))
     | Inr _ \<Rightarrow>
         iob (sys_num ''lstat'' [] [path]) (\<lambda>st.
         case st of Inl e \<Rightarrow> ret (Inl (set_error cap path e))
         | Inr m \<Rightarrow> if \<not> S_ISDIR m then ret (Inl (set_error cap path ENOTDIR)) else ret (Inr ())))"

definition detach_if_mounted :: "nat \<Rightarrow> bytes \<Rightarrow> unit res io" where
  "detach_if_mounted cap path =
     iob (sys_num ''umount2'' [MNT_DETACH] [path]) (\<lambda>r.
     case r of
       Inr _ \<Rightarrow> ret (Inr ())
     | Inl e \<Rightarrow> if e = EINVAL \<or> e = ENOENT then ret (Inr ()) else ret (Inl (set_error cap path e)))"

definition mount_at :: "nat \<Rightarrow> bytes \<Rightarrow> bytes \<Rightarrow> bytes \<Rightarrow> int \<Rightarrow> bytes \<Rightarrow> unit res io" where
  "mount_at cap source target type flags opts = must (set_error cap target) (mount source target type flags opts)"

definition remount_readonly :: "nat \<Rightarrow> bytes \<Rightarrow> unit res io" where
  "remount_readonly cap path =
     must (set_error cap path)
       (mount null_arg path null_arg (MS_BIND OR MS_REMOUNT OR MS_RDONLY OR MS_NOSUID OR MS_NOEXEC OR MS_NODEV) null_arg)"

definition readonly_bind_if_present :: "nat \<Rightarrow> bytes \<Rightarrow> unit res io" where
  "readonly_bind_if_present cap path =
     iob (sys_num ''stat'' [] [path]) (\<lambda>r.
     case r of
       Inl e \<Rightarrow> if e = ENOENT then ret (Inr ()) else ret (Inl (set_error cap path e))
     | Inr _ \<Rightarrow>
         attempt (must (set_error cap path) (mount path path null_arg (MS_BIND OR MS_REC) null_arg)) (\<lambda>_.
         remount_readonly cap path))"

definition mask_path_if_present :: "nat \<Rightarrow> bytes \<Rightarrow> unit res io" where
  "mask_path_if_present cap path =
     iob (sys_num ''stat'' [] [path]) (\<lambda>r.
     case r of
       Inl e \<Rightarrow> if e = ENOENT then ret (Inr ()) else ret (Inl (set_error cap path e))
     | Inr mode \<Rightarrow>
         if S_ISDIR mode then
           mount_at cap (lit ''tmpfs'') path (lit ''tmpfs'') (MS_RDONLY OR MS_NOSUID OR MS_NOEXEC OR MS_NODEV) (lit ''mode=000,size=4096'')
         else
           attempt (must (set_error cap path) (mount (lit ''/dev/null'') path null_arg MS_BIND null_arg)) (\<lambda>_.
           remount_readonly cap path))"

definition make_device :: "nat \<Rightarrow> bytes \<Rightarrow> int \<Rightarrow> int \<Rightarrow> int \<Rightarrow> unit res io" where
  "make_device cap path mode major_num minor_num =
     must (set_error cap path) (sys_num ''mknod'' [0x2000 OR mode, major_num, minor_num] [path])"

definition replace_link :: "nat \<Rightarrow> bytes \<Rightarrow> bytes \<Rightarrow> unit res io" where
  "replace_link cap target path =
     iob (sys_num ''unlink'' [] [path]) (\<lambda>r.
     case r of
       Inl e \<Rightarrow> if e \<noteq> ENOENT then ret (Inl (set_error cap path e))
         else must (set_error cap path) (sys_num ''symlink'' [] [target, path])
     | Inr _ \<Rightarrow> must (set_error cap path) (sys_num ''symlink'' [] [target, path]))"

definition root_path :: "nat \<Rightarrow> bytes \<Rightarrow> bytes \<Rightarrow> (bytes \<Rightarrow> unit res io) \<Rightarrow> unit res io" where
  "root_path cap rootfs sub f =
     (if length (rootfs @ sub) \<ge> 256 then ret (Inl (set_error cap sub ENAMETOOLONG)) else f (rootfs @ sub))"

definition detach_paths :: "bytes list" where
  "detach_paths = map lit [''/dev/pts'', ''/dev/mqueue'', ''/dev/shm'', ''/dev'', ''/proc'', ''/sys/fs/cgroup'', ''/sys'']"

definition readonly_proc_paths :: "bytes list" where
  "readonly_proc_paths = map lit [''/proc/asound'', ''/proc/bus'', ''/proc/fs'', ''/proc/irq'', ''/proc/sys'', ''/proc/sysrq-trigger'']"

definition masked_proc_paths :: "bytes list" where
  "masked_proc_paths = map lit
     [''/proc/acpi'', ''/proc/kcore'', ''/proc/keys'', ''/proc/latency_stats'',
      ''/proc/sched_debug'', ''/proc/scsi'', ''/proc/timer_list'', ''/proc/timer_stats'']"

definition masked_sys_paths :: "bytes list" where
  "masked_sys_paths = map lit [''/sys/firmware'', ''/sys/devices/virtual/powercap'']"

definition devices :: "(bytes \<times> int \<times> int \<times> int) list" where
  "devices =
     [(lit ''null'', 0x1b6, 1, 3), (lit ''zero'', 0x1b6, 1, 5), (lit ''full'', 0x1b6, 1, 7),
      (lit ''random'', 0x1b6, 1, 8), (lit ''urandom'', 0x1b6, 1, 9), (lit ''tty'', 0x1b6, 5, 0)]"

definition mount_dir :: "nat \<Rightarrow> bytes \<Rightarrow> bytes \<Rightarrow> int \<Rightarrow> bytes \<Rightarrow> bytes \<Rightarrow> int \<Rightarrow> bytes \<Rightarrow> unit res io" where
  "mount_dir cap rootfs sub mode source type flags opts =
     root_path cap rootfs sub (\<lambda>path. attempt (ensure_dir cap path mode) (\<lambda>_. mount_at cap source path type flags opts))"

definition setup_operation_mounts :: "nat \<Rightarrow> bytes \<Rightarrow> unit res io" where
  "setup_operation_mounts cap rootfs =
     attempt (must (set_error cap (lit ''bind operation rootfs'')) (mount rootfs rootfs null_arg (MS_BIND OR MS_REC) null_arg)) (\<lambda>_.
     attempt (each (\<lambda>p. root_path cap rootfs p (detach_if_mounted cap)) detach_paths) (\<lambda>_.
     attempt (mount_dir cap rootfs (lit ''/proc'') 0x16d (lit ''proc'') (lit ''proc'') (MS_NOSUID OR MS_NOEXEC OR MS_NODEV) []) (\<lambda>_.
     attempt (each (\<lambda>p. root_path cap rootfs p (readonly_bind_if_present cap)) readonly_proc_paths) (\<lambda>_.
     attempt (each (\<lambda>p. root_path cap rootfs p (mask_path_if_present cap)) masked_proc_paths) (\<lambda>_.
     attempt (mount_dir cap rootfs (lit ''/dev'') 0x1ed (lit ''tmpfs'') (lit ''tmpfs'') (MS_NOSUID OR MS_STRICTATIME) (lit ''mode=0755,size=65536k'')) (\<lambda>_.
     attempt (each (\<lambda>(name, mode, major_num, minor_num).
         root_path cap rootfs (lit ''/dev/'') (\<lambda>path.
           if length path + length name + 1 > 256 then ret (Inl (set_error cap (lit ''device path'') ENAMETOOLONG))
           else make_device cap (path @ name) mode major_num minor_num)) devices) (\<lambda>_.
     attempt (mount_dir cap rootfs (lit ''/dev/pts'') 0x1ed (lit ''devpts'') (lit ''devpts'') (MS_NOSUID OR MS_NOEXEC)
         (lit ''newinstance,ptmxmode=0666,mode=0620,gid=5'')) (\<lambda>_.
     attempt (root_path cap rootfs (lit ''/dev/ptmx'') (replace_link cap (lit ''pts/ptmx''))) (\<lambda>_.
     attempt (root_path cap rootfs (lit ''/dev/fd'') (replace_link cap (lit ''/proc/self/fd''))) (\<lambda>_.
     attempt (root_path cap rootfs (lit ''/dev/stdin'') (replace_link cap (lit ''/proc/self/fd/0''))) (\<lambda>_.
     attempt (root_path cap rootfs (lit ''/dev/stdout'') (replace_link cap (lit ''/proc/self/fd/1''))) (\<lambda>_.
     attempt (root_path cap rootfs (lit ''/dev/stderr'') (replace_link cap (lit ''/proc/self/fd/2''))) (\<lambda>_.
     attempt (mount_dir cap rootfs (lit ''/dev/shm'') 0x3ff (lit ''shm'') (lit ''tmpfs'') (MS_NOSUID OR MS_NODEV OR MS_NOEXEC)
         (lit ''mode=1777,size=65536k'')) (\<lambda>_.
     attempt (mount_dir cap rootfs (lit ''/dev/mqueue'') 0x3ff (lit ''mqueue'') (lit ''mqueue'') (MS_NOSUID OR MS_NODEV OR MS_NOEXEC) []) (\<lambda>_.
     attempt (mount_dir cap rootfs (lit ''/sys'') 0x16d (lit ''sysfs'') (lit ''sysfs'') (MS_RDONLY OR MS_NOSUID OR MS_NOEXEC OR MS_NODEV) []) (\<lambda>_.
     attempt (each (\<lambda>p. root_path cap rootfs p (mask_path_if_present cap)) masked_sys_paths) (\<lambda>_.
     attempt (root_path cap rootfs (lit ''/sys/fs'') (\<lambda>path. ensure_dir cap path 0x16d)) (\<lambda>_.
     mount_dir cap rootfs (lit ''/sys/fs/cgroup'') 0x16d (lit ''cgroup2'') (lit ''cgroup2'') (MS_RDONLY OR MS_NOSUID OR MS_NOEXEC OR MS_NODEV) []
     ))))))))))))))))))"

section \<open>Entering the sandbox\<close>

definition SPORE_BUILD_CAP_MASK :: u64 where "SPORE_BUILD_CAP_MASK = 0xa80425fb"

abbreviation (input) "PR_SET_PDEATHSIG \<equiv> (1 :: int)"
abbreviation (input) "PR_SET_SECCOMP \<equiv> (22 :: int)"
abbreviation (input) "PR_CAPBSET_DROP \<equiv> (24 :: int)"
abbreviation (input) "PR_CAP_AMBIENT \<equiv> (47 :: int)"
abbreviation (input) "SIGKILL \<equiv> (9 :: int)"

text \<open>The last capability is a constant of the kernel headers and a parameter here.\<close>

definition drop_capabilities :: "nat \<Rightarrow> nat \<Rightarrow> unit res io" where
  "drop_capabilities CAP_LAST_CAP cap =
     attempt (each (\<lambda>capability.
         if bit SPORE_BUILD_CAP_MASK capability then ret (Inr ())
         else must (set_error cap (lit ''drop capability bound''))
                (sys_num ''prctl'' [PR_CAPBSET_DROP, int capability, 0, 0, 0] []))
       [0..<CAP_LAST_CAP + 1]) (\<lambda>_.
     attempt (iob (sys_num ''prctl'' [PR_CAP_AMBIENT, 4, 0, 0, 0] []) (\<lambda>r.
         case r of
           Inl e \<Rightarrow> if e \<noteq> EINVAL then ret (Inl (set_error cap (lit ''clear ambient capabilities'') e)) else ret (Inr ())
         | Inr _ \<Rightarrow> ret (Inr ()))) (\<lambda>_.
     must (set_error cap (lit ''set capabilities''))
       (sys_num ''capset'' [uint SPORE_BUILD_CAP_MASK, uint SPORE_BUILD_CAP_MASK, 0] [])))"

definition install_syscall_policy :: "machine \<Rightarrow> nat \<Rightarrow> unit res io" where
  "install_syscall_policy m cap =
     must (set_error cap (lit ''install syscall policy''))
       (sys_num ''prctl'' [PR_SET_SECCOMP, 2, int (length (syscall_filter m))] [])"

definition supervisor_exit_with_status :: "wstatus \<Rightarrow> 'a io" where
  "supervisor_exit_with_status status =
     (case status of
        Exited code \<Rightarrow> exit_process code
      | Signaled sig \<Rightarrow>
          iob (sys_num ''signal_default'' [int sig] []) (\<lambda>_.
          iob getpid (\<lambda>pid.
          iob (sys_num ''kill'' [pid, int sig] []) (\<lambda>_.
          exit_process (128 + sig))))
      | OtherStatus \<Rightarrow> exit_process 125)"

function supervise :: "int \<Rightarrow> 'a io" where
  "supervise pid w =
     iob (sys_wait pid False) (\<lambda>r w'.
       case r of
         Inl e \<Rightarrow> if e = EINTR then supervise pid w' else exit_process 125 w'
       | Inr (p, status, ru) \<Rightarrow> supervisor_exit_with_status status w') w"
  by pat_completeness auto
termination
  by (relation "measure (\<lambda>(pid, w). length (w_answers w))") (auto dest: calls_less)

declare supervise.simps [simp del]

definition namespace_flags :: int where
  "namespace_flags = 0x20000 OR 0x20000000 OR 0x02000000 OR 0x08000000 OR 0x04000000"

definition spore_build_run_sandbox_enter :: "machine \<Rightarrow> nat \<Rightarrow> bytes \<Rightarrow> int \<Rightarrow> nat \<Rightarrow> unit res io" where
  "spore_build_run_sandbox_enter m CAP_LAST_CAP rootfs ready_fd cap =
     attempt (must (set_error cap (lit ''create namespaces'')) (sys_num ''unshare'' [namespace_flags] [])) (\<lambda>_.
     attempt (must (set_error cap (lit ''make mount propagation private''))
         (mount null_arg (lit ''/'') null_arg (MS_REC OR MS_PRIVATE) null_arg)) (\<lambda>_.
     iob (sys_num ''fork'' [] []) (\<lambda>r.
     case r of
       Inl e \<Rightarrow> ret (Inl (set_error cap (lit ''create namespace PID 1'') e))
     | Inr command_pid \<Rightarrow>
         if command_pid > 0 then iob (sys_close ready_fd) (\<lambda>_. supervise command_pid)
         else
           attempt (iob (sys_num ''prctl'' [PR_SET_PDEATHSIG, SIGKILL] []) (\<lambda>r.
             case r of
               Inl e \<Rightarrow> ret (Inl (set_error cap (lit ''bind command to supervisor lifetime'') e))
             | Inr _ \<Rightarrow> iob (sys_num ''getppid'' [] []) (\<lambda>p.
                 if p = Inr 1 then iob stale_errno (\<lambda>e. ret (Inl (set_error cap (lit ''bind command to supervisor lifetime'') e)))
                 else ret (Inr ())))) (\<lambda>_.
           attempt (setup_operation_mounts cap rootfs) (\<lambda>_.
           attempt (must (set_error cap (lit ''enter operation rootfs'')) (sys_num ''chdir'' [] [rootfs])) (\<lambda>_.
           attempt (must (set_error cap (lit ''enter operation rootfs'')) (mount (lit ''.'') (lit ''/'') null_arg MS_MOVE null_arg)) (\<lambda>_.
           attempt (must (set_error cap (lit ''enter operation rootfs'')) (sys_num ''chroot'' [] [lit ''.''])) (\<lambda>_.
           attempt (must (set_error cap (lit ''enter operation rootfs'')) (sys_num ''chdir'' [] [lit ''/''])) (\<lambda>_.
           attempt (install_syscall_policy m cap) (\<lambda>_.
           drop_capabilities CAP_LAST_CAP cap)))))))))) "

section \<open>The policies\<close>

text \<open>
  What the comment of the device program promises: making any node is allowed; opening is
  allowed for the standard character devices and devpts only.
\<close>

definition device_allowed :: "device_ctx \<Rightarrow> bool" where
  "device_allowed ctx \<longleftrightarrow>
     bit (access_type ctx) 16 \<or>
     access_type ctx AND 0xffff = 2 \<and>
       (dev_major ctx = 136 \<or> dev_major ctx = 1 \<and> dev_minor ctx \<in> {3, 5, 7, 8, 9} \<or>
        dev_major ctx = 5 \<and> dev_minor ctx \<in> {0, 2})"

text \<open>Registers hold the 32-bit fields zero-extended.\<close>

lemma widen_eq: "(ucast x :: u64) = ucast y \<longleftrightarrow> x = y" for x y :: u32
proof -
  have "unat x < 2 ^ LENGTH(32)" "unat y < 2 ^ LENGTH(32)" by (rule unsigned_less)+
  then show ?thesis by (simp add: word_unat_eq_iff unat_ucast_u64)
qed

lemma widen_numeral:
  fixes x :: u32
  shows "(ucast x :: u64) = 136 \<longleftrightarrow> x = 136" "(ucast x :: u64) = 1 \<longleftrightarrow> x = 1" "(ucast x :: u64) = 5 \<longleftrightarrow> x = 5"
    "(ucast x :: u64) = 3 \<longleftrightarrow> x = 3" "(ucast x :: u64) = 7 \<longleftrightarrow> x = 7" "(ucast x :: u64) = 8 \<longleftrightarrow> x = 8"
    "(ucast x :: u64) = 9 \<longleftrightarrow> x = 9" "(ucast x :: u64) = 0 \<longleftrightarrow> x = 0" "(ucast x :: u64) = 2 \<longleftrightarrow> x = 2"
  using widen_eq [of x 136] widen_eq [of x 1] widen_eq [of x 5] widen_eq [of x 3] widen_eq [of x 7]
    widen_eq [of x 8] widen_eq [of x 9] widen_eq [of x 0] widen_eq [of x 2]
  by simp_all

lemma widen_type: "(ucast x :: u64) AND 0xffff = 2 \<longleftrightarrow> x AND 0xffff = 2" for x :: u32
  using widen_eq [of "x AND 0xffff" 2] by (simp add: unsigned_and_eq)

lemma and_bits:
  "x AND 65536 = 0 \<longleftrightarrow> \<not> bit x 16" "y AND 0x40000000 = 0 \<longleftrightarrow> \<not> bit y 30" "y AND 0x10000000 = 0 \<longleftrightarrow> \<not> bit y 28"
  for x :: u64 and y :: u32
  using and_exp_eq_0_iff_not_bit [of x 16] and_exp_eq_0_iff_not_bit [of y 30] and_exp_eq_0_iff_not_bit [of y 28]
  by simp_all

lemma widen_bit: "bit (ucast x :: u64) 16 \<longleftrightarrow> bit x 16" for x :: u32
  by (simp add: bit_ucast_iff)

lemma device_offsets:
  "FORWARD_OFFSET device_labels DEVICE_ALLOW_MKNOD DEVICE_ALLOW_RESULT = 21"
  "FORWARD_OFFSET device_labels DEVICE_REQUIRE_CHARACTER DEVICE_DENY_RESULT = 16"
  "FORWARD_OFFSET device_labels DEVICE_ALLOW_PTY DEVICE_ALLOW_RESULT = 16"
  "FORWARD_OFFSET device_labels DEVICE_CHECK_MEMORY_MAJOR DEVICE_LOAD_MEMORY_MINOR = 2"
  "FORWARD_OFFSET device_labels DEVICE_CHECK_TTY_MAJOR DEVICE_LOAD_TTY_MINOR = 8"
  "FORWARD_OFFSET device_labels DEVICE_DENY_OTHER_MAJOR DEVICE_DENY_RESULT = 11"
  "FORWARD_OFFSET device_labels DEVICE_ALLOW_NULL DEVICE_ALLOW_RESULT = 11"
  "FORWARD_OFFSET device_labels DEVICE_ALLOW_ZERO DEVICE_ALLOW_RESULT = 10"
  "FORWARD_OFFSET device_labels DEVICE_ALLOW_FULL DEVICE_ALLOW_RESULT = 9"
  "FORWARD_OFFSET device_labels DEVICE_ALLOW_RANDOM DEVICE_ALLOW_RESULT = 8"
  "FORWARD_OFFSET device_labels DEVICE_ALLOW_URANDOM DEVICE_ALLOW_RESULT = 7"
  "FORWARD_OFFSET device_labels DEVICE_DENY_OTHER_MEMORY_MINOR DEVICE_DENY_RESULT = 4"
  "FORWARD_OFFSET device_labels DEVICE_ALLOW_TTY DEVICE_ALLOW_RESULT = 4"
  "FORWARD_OFFSET device_labels DEVICE_ALLOW_PTMX DEVICE_ALLOW_RESULT = 3"
  "FORWARD_OFFSET device_labels DEVICE_DENY_OTHER_TTY_MINOR DEVICE_DENY_RESULT = 0"
  by (simp_all add: FORWARD_OFFSET_def enum_value_def device_labels_def)

text \<open>C15. The device program of the sandbox terminates with a verdict on every access, and allows it
  exactly when the policy does: node creation, the standard character devices and pseudo terminals.\<close>

theorem device_program_policy:
  "bpf_run device_program ctx r0 = Some (if device_allowed ctx then 1 else 0)"
  unfolding device_program_def device_offsets
  by (simp add: widen_numeral widen_type widen_bit and_bits device_allowed_def)

text \<open>What each system call gets from the sandbox.\<close>

datatype verdict = Kill | Fail nat | Allow

fun verdict_value :: "verdict \<Rightarrow> u32" where
  "verdict_value Kill = 0x80000000"
| "verdict_value (Fail e) = 0x00050000 OR (of_nat e AND 0xffff)"
| "verdict_value Allow = 0x7fff0000"

definition syscall_verdict :: "machine \<Rightarrow> seccomp_data \<Rightarrow> verdict" where
  "syscall_verdict m d =
     (if sd_arch d \<noteq> SPORE_AUDIT_ARCH m \<or> bit (sd_nr d) 30 then Kill
      else if sd_nr d = call_number m NR_clone3 then Fail 38
      else if sd_nr d = call_number m NR_io_uring_setup \<or>
          sd_nr d \<in> {call_number m NR_clone, call_number m NR_unshare} \<and> bit (sd_arg0 d) 28 \<or>
          sd_nr d \<in> {call_number m NR_socket, call_number m NR_socketpair} \<and> take_bit 32 (sd_arg0 d) = 40 then Fail 1
      else Allow)"

lemma syscall_offsets:
  "FORWARD_OFFSET syscall_labels SYSCALL_REQUIRE_ARCH SYSCALL_KILL_RESULT = 16"
  "FORWARD_OFFSET syscall_labels SYSCALL_KILL_X32 SYSCALL_KILL_RESULT = 14"
  "FORWARD_OFFSET syscall_labels SYSCALL_DENY_IO_URING SYSCALL_DENY_RESULT = 11"
  "FORWARD_OFFSET syscall_labels SYSCALL_HIDE_CLONE3 SYSCALL_ENOSYS_RESULT = 13"
  "FORWARD_OFFSET syscall_labels SYSCALL_CHECK_CLONE SYSCALL_LOAD_CLONE_FLAGS = 4"
  "FORWARD_OFFSET syscall_labels SYSCALL_CHECK_UNSHARE SYSCALL_LOAD_CLONE_FLAGS = 3"
  "FORWARD_OFFSET syscall_labels SYSCALL_CHECK_SOCKET SYSCALL_LOAD_SOCKET_FAMILY = 4"
  "FORWARD_OFFSET syscall_labels SYSCALL_CHECK_SOCKETPAIR SYSCALL_LOAD_SOCKET_FAMILY = 3"
  "FORWARD_OFFSET syscall_labels SYSCALL_ALLOW_OTHER_CALL SYSCALL_ALLOW_RESULT = 6"
  "FORWARD_OFFSET syscall_labels SYSCALL_DENY_USER_NAMESPACE SYSCALL_DENY_RESULT = 3"
  "FORWARD_OFFSET syscall_labels SYSCALL_DENY_USER_NAMESPACE SYSCALL_ALLOW_RESULT = 4"
  "FORWARD_OFFSET syscall_labels SYSCALL_DENY_VSOCK SYSCALL_DENY_RESULT = 1"
  "FORWARD_OFFSET syscall_labels SYSCALL_ALLOW_OTHER_FAMILY SYSCALL_ALLOW_RESULT = 1"
  by (simp_all add: FORWARD_OFFSET_def enum_value_def syscall_labels_def)

lemma narrow_arg: "bit (ucast a :: u32) 28 \<longleftrightarrow> bit a 28" "(ucast a :: u32) = 40 \<longleftrightarrow> take_bit 32 a = 40" for a :: u64
  by (simp_all add: bit_ucast_iff word_unat_eq_iff unat_ucast_u32 unsigned_take_bit_eq take_bit_nat_def)

text \<open>C16. On both machines the system call filter terminates with the intended verdict on every call:
  foreign architectures and x32 calls kill the process, clone3 looks unimplemented, io_uring, user
  namespaces and vsock sockets are refused, and everything else is allowed.\<close>

theorem syscall_filter_policy:
  "seccomp_run (syscall_filter m) d acc = Some (verdict_value (syscall_verdict m d))"
  unfolding syscall_filter_def syscall_offsets
  by (cases m) (simp_all add: Let_def SPORE_X32_SYSCALL_BIT_def and_bits narrow_arg syscall_verdict_def)

section \<open>What a successful entry has done\<close>

lemmas sandbox_steps = ensure_dir_def detach_if_mounted_def mount_at_def mount_def remount_readonly_def
  readonly_bind_if_present_def mask_path_if_present_def make_device_def replace_link_def

lemma succeeds_root_path [succeeds_step]: "(\<And>p. succeeds (f p) []) \<Longrightarrow> succeeds (root_path cap rootfs sub f) []"
  unfolding root_path_def by (intro succeeds_step)

lemma sandbox_safe [succeeds_step]:
  "succeeds (ensure_dir cap path mode) []" "succeeds (detach_if_mounted cap path) []"
  "succeeds (remount_readonly cap path) []" "succeeds (mount_at cap source path type flags opts) []"
  "succeeds (make_device cap path mode a b) []" "succeeds (replace_link cap target path) []"
  unfolding sandbox_steps by (intro succeeds_step)+

lemma sandbox_safe2 [succeeds_step]:
  "succeeds (readonly_bind_if_present cap path) []" "succeeds (mask_path_if_present cap path) []"
  unfolding readonly_bind_if_present_def mask_path_if_present_def mount_def
  by (intro succeeds_step succeeds_skip)+

text \<open>The mount points of an operation, in order.\<close>

definition operation_mounts :: "bytes \<Rightarrow> call list" where
  "operation_mounts rootfs =
     map (\<lambda>(flags, source, sub, type, opts). Sys ''mount'' [flags] [source, rootfs @ sub, type, opts])
      [(MS_BIND OR MS_REC, rootfs, [], null_arg, null_arg),
       (MS_NOSUID OR MS_NOEXEC OR MS_NODEV, lit ''proc'', lit ''/proc'', lit ''proc'', []),
       (MS_NOSUID OR MS_STRICTATIME, lit ''tmpfs'', lit ''/dev'', lit ''tmpfs'', lit ''mode=0755,size=65536k''),
       (MS_NOSUID OR MS_NOEXEC, lit ''devpts'', lit ''/dev/pts'', lit ''devpts'', lit ''newinstance,ptmxmode=0666,mode=0620,gid=5''),
       (MS_NOSUID OR MS_NODEV OR MS_NOEXEC, lit ''shm'', lit ''/dev/shm'', lit ''tmpfs'', lit ''mode=1777,size=65536k''),
       (MS_NOSUID OR MS_NODEV OR MS_NOEXEC, lit ''mqueue'', lit ''/dev/mqueue'', lit ''mqueue'', []),
       (MS_RDONLY OR MS_NOSUID OR MS_NOEXEC OR MS_NODEV, lit ''sysfs'', lit ''/sys'', lit ''sysfs'', []),
       (MS_RDONLY OR MS_NOSUID OR MS_NOEXEC OR MS_NODEV, lit ''cgroup2'', lit ''/sys/fs/cgroup'', lit ''cgroup2'', [])]"

lemma succeeds_mount_dir:
  "succeeds (mount_dir cap rootfs sub mode source type flags opts) [Sys ''mount'' [flags] [source, rootfs @ sub, type, opts]]"
  unfolding mount_dir_def root_path_def mount_at_def mount_def
  by (intro succeeds_if succeeds_error succeeds_skip sandbox_safe succeeds_must)

lemma succeeds_setup_operation_mounts: "succeeds (setup_operation_mounts cap rootfs) (operation_mounts rootfs)"
proof -
  have devs: "succeeds (each (\<lambda>(name, mode, major_num, minor_num).
         root_path cap rootfs (lit ''/dev/'') (\<lambda>path.
           if length path + length name + 1 > 256 then ret (Inl (set_error cap (lit ''device path'') ENAMETOOLONG))
           else make_device cap (path @ name) mode major_num minor_num)) devices) []"
    by (rule succeeds_each_Nil) (auto split: prod.split intro!: succeeds_step)
  note nil = succeeds_each_Nil succeeds_root_path sandbox_safe sandbox_safe2
  show ?thesis
    unfolding setup_operation_mounts_def operation_mounts_def list.map prod.case append_Nil2
    apply (rule succeeds_first)
    apply (simp only: mount_def, rule succeeds_must)
    apply (rule succeeds_skip, intro nil)
    apply (rule succeeds_first [OF succeeds_mount_dir])
    apply (rule succeeds_skip, intro nil)+
    apply (rule succeeds_first [OF succeeds_mount_dir])
    apply (rule succeeds_skip [OF devs])
    apply (rule succeeds_first [OF succeeds_mount_dir])
    apply (rule succeeds_skip, intro nil)+
    apply (rule succeeds_first [OF succeeds_mount_dir])
    apply (rule succeeds_first [OF succeeds_mount_dir])
    apply (rule succeeds_first [OF succeeds_mount_dir])
    apply (rule succeeds_skip, intro nil)+
    by (rule succeeds_mount_dir)
qed

lemma succeeds_drop_capabilities:
  "succeeds (drop_capabilities cap_last cap)
     (map (\<lambda>c. Sys ''prctl'' [PR_CAPBSET_DROP, int c, 0, 0, 0] []) (filter (\<lambda>c. \<not> bit SPORE_BUILD_CAP_MASK c) [0..<cap_last + 1]) @
      [Sys ''capset'' [uint SPORE_BUILD_CAP_MASK, uint SPORE_BUILD_CAP_MASK, 0] []])"
proof -
  let ?drop = "\<lambda>c. if bit SPORE_BUILD_CAP_MASK c then [] else [Sys ''prctl'' [PR_CAPBSET_DROP, int c, 0, 0, 0] []]"
  have "concat (map ?drop xs) =
      map (\<lambda>c. Sys ''prctl'' [PR_CAPBSET_DROP, int c, 0, 0, 0] []) (filter (\<lambda>c. \<not> bit SPORE_BUILD_CAP_MASK c) xs)" for xs
    by (induction xs) simp_all
  moreover have "succeeds (drop_capabilities cap_last cap) (concat (map ?drop [0..<cap_last + 1]) @
      [Sys ''capset'' [uint SPORE_BUILD_CAP_MASK, uint SPORE_BUILD_CAP_MASK, 0] []])"
    unfolding drop_capabilities_def
    by (rule succeeds_attempt [OF succeeds_each], rule succeeds_if)
       (auto intro!: succeeds_must succeeds_Nil succeeds_skip succeeds_step)
  ultimately show ?thesis by (simp only:)
qed

lemma succeeds_never: "adds m P (\<lambda>_. True) \<Longrightarrow> (\<And>r tr. \<not> P r tr) \<Longrightarrow> succeeds m cs"
  unfolding succeeds_def by (erule adds_mono) auto

lemma supervise_exits: "adds (supervise pid) (\<lambda>_ _. False) (\<lambda>_. True)"
proof (rule adds_loop [where I = "\<lambda>_. True" and f = supervise], goal_cases)
  case (1 pid w)
  have "adds (supervisor_exit_with_status st) (\<lambda>_ _. False) (\<lambda>_. True)" for st :: wstatus
    unfolding supervisor_exit_with_status_def by (cases st) (auto intro!: adds_step)
  then have "holds (supervisor_exit_with_status st (log c a w)) (\<lambda>x. extends (\<lambda>_. False) w) (extends (\<lambda>_. True) w)" for st c a
    by (intro holds_log [OF addsD]) auto
  then show ?case
    by (subst supervise.simps) (auto simp: holds_iob split: prod.split intro!: holds_wait 1(2) extends_refl extends_log)
qed simp


end
