(* ===== verification/Replay.thy ===== *)
theory Replay
  imports Prelude
begin

text \<open>
  The replay buffer of \<^verbatim>\<open>session_io.c\<close>: a ring that keeps the last \<^verbatim>\<open>REPLAY_CAP\<close> bytes of an output
  stream. The ring is stated for any capacity that divides \<open>2 ^ 64\<close>, which is what makes
  \<^verbatim>\<open>offset % REPLAY_CAP\<close> survive the wrap-around of the 64-bit offset. Its contract is the locale
  \<open>replay_log\<close>: appending keeps the last bytes of everything appended.
\<close>

section \<open>The ring\<close>

definition REPLAY_CAP :: nat where "REPLAY_CAP = 256 * 1024"

record replay_buffer =
  rb_data :: bytes
  rb_base_offset :: u64
  rb_len :: nat

text \<open>\<^verbatim>\<open>memcpy\<close> into a buffer at an index; outside the buffer it is undefined.\<close>

definition copy_at :: "bytes \<Rightarrow> nat \<Rightarrow> bytes \<Rightarrow> bytes cres" where
  "copy_at dst i src =
     (if i + length src \<le> length dst then Ok (take i dst @ src @ drop (i + length src) dst) else UB)"

definition ring_append :: "nat \<Rightarrow> replay_buffer \<Rightarrow> u64 \<Rightarrow> bytes \<Rightarrow> replay_buffer cres" where
  "ring_append cap replay offset buf =
     (let (buf, offset) = (if length buf > cap then (drop (length buf - cap) buf, offset + of_nat (length buf - cap)) else (buf, offset));
          len = length buf;
          at' = unat offset mod cap;
          first = (if len < cap - at' then len else cap - at')
      in bnd (copy_at (rb_data replay) at' (take first buf)) (\<lambda>data1.
         bnd (copy_at data1 0 (drop first buf)) (\<lambda>data2.
         let len' = (if rb_len replay + len < cap then rb_len replay + len else cap)
         in Ok (replay\<lparr>rb_data := data2, rb_len := len', rb_base_offset := offset + of_nat len - of_nat len'\<rparr>))))"

definition replay_append :: "replay_buffer \<Rightarrow> u64 \<Rightarrow> bytes \<Rightarrow> replay_buffer cres" where
  "replay_append = ring_append REPLAY_CAP"

definition replay_available :: "replay_buffer \<Rightarrow> u64 \<Rightarrow> u64 \<Rightarrow> bool" where
  "replay_available replay offset end_offset \<longleftrightarrow> offset \<ge> rb_base_offset replay \<and> offset \<le> end_offset"

text \<open>A zeroed buffer.\<close>

definition empty_ring :: "nat \<Rightarrow> replay_buffer" where
  "empty_ring cap = \<lparr>rb_data = replicate cap 0, rb_base_offset = 0, rb_len = 0\<rparr>"

section \<open>What a ring holds\<close>

definition ring_wf :: "nat \<Rightarrow> replay_buffer \<Rightarrow> bool" where
  "ring_wf cap r \<longleftrightarrow> 0 < cap \<and> cap dvd 2 ^ 64 \<and> length (rb_data r) = cap \<and> rb_len r \<le> cap"

definition ring_end :: "replay_buffer \<Rightarrow> u64" where
  "ring_end r = rb_base_offset r + of_nat (rb_len r)"

definition ring_window :: "nat \<Rightarrow> replay_buffer \<Rightarrow> bytes" where
  "ring_window cap r = map (\<lambda>i. rb_data r ! ((unat (rb_base_offset r) + i) mod cap)) [0..<rb_len r]"

definition last_bytes :: "nat \<Rightarrow> bytes \<Rightarrow> bytes" where
  "last_bytes n bs = drop (length bs - n) bs"

lemma length_last_bytes [simp]: "length (last_bytes n bs) = min (length bs) n"
  by (simp add: last_bytes_def min_def)

lemma last_bytes_append: "last_bytes n (last_bytes n a @ b) = last_bytes n (a @ b)"
  by (cases "n \<le> length a") (auto simp: last_bytes_def add.commute)

section \<open>Indices\<close>

lemma ix_add:
  assumes "cap dvd 2 ^ 64"
  shows "unat (u + of_nat n :: u64) mod cap = (unat u + n) mod cap"
proof -
  have "unat (u + of_nat n) mod cap = ((unat u + n) mod 2 ^ 64) mod cap"
    by (simp add: unat_word_ariths unat_of_nat mod_simps)
  also have "\<dots> = (unat u + n) mod cap"
    using assms by (rule mod_mod_cancel)
  finally show ?thesis .
qed

lemma ix_sub:
  assumes "cap dvd 2 ^ 64" "n \<le> cap" "0 < cap"
  shows "unat (u - of_nat n :: u64) mod cap = (unat u mod cap + cap - n) mod cap"
proof -
  let ?x = "unat (u - of_nat n) mod cap"
  have "(?x + n) mod cap = unat u mod cap"
    using ix_add [OF assms(1), of "u - of_nat n" n] by (simp add: mod_simps)
  then have "(unat u mod cap + cap - n) mod cap = ((?x + n) mod cap + (cap - n)) mod cap"
    using assms(2) by simp
  also have "\<dots> = (?x + n + (cap - n)) mod cap"
    by (rule mod_add_left_eq)
  also have "\<dots> = ?x" using assms(2) by simp
  finally show ?thesis by simp
qed

lemma shift_back:
  fixes a c x :: nat
  assumes "a < c"
  shows "((a + x) mod c + c - a) mod c = x mod c"
proof -
  have "((a + x) mod c + c - a) mod c = ((a + x) mod c + (c - a)) mod c" using assms by simp
  also have "\<dots> = (a + x + (c - a)) mod c" by (simp add: mod_simps)
  also have "\<dots> = (x + c) mod c" using assms by (simp add: add.commute)
  finally show ?thesis by simp
qed

text \<open>The two copies write the bytes at consecutive indices modulo the capacity and nothing else.\<close>

lemma copy_at_nth:
  assumes "copy_at dst i src = Ok dst'" "k < length dst"
  shows "dst' ! k = (if i \<le> k \<and> k < i + length src then src ! (k - i) else dst ! k)"
  using assms by (auto simp: copy_at_def nth_append min_def split: if_split_asm)

lemma ring_copies:
  assumes "length d = c" "a < c" "length b \<le> c"
    and first: "first = (if length b < c - a then length b else c - a)"
  shows "\<exists>d1 d2. copy_at d a (take first b) = Ok d1 \<and> copy_at d1 0 (drop first b) = Ok d2 \<and> length d2 = c \<and>
    (\<forall>k < c. d2 ! k = (if (k + c - a) mod c < length b then b ! ((k + c - a) mod c) else d ! k))"
proof -
  have 1: "\<exists>d1. copy_at d a (take first b) = Ok d1 \<and> length d1 = c"
    using assms by (auto simp: copy_at_def)
  then obtain d1 where d1: "copy_at d a (take first b) = Ok d1" "length d1 = c" by blast
  have "length (drop first b) \<le> length d1" using assms d1(2) by simp
  then obtain d2 where d2: "copy_at d1 0 (drop first b) = Ok d2" "length d2 = c"
    using d1(2) by (simp add: copy_at_def)
  have "d2 ! k = (if (k + c - a) mod c < length b then b ! ((k + c - a) mod c) else d ! k)" if "k < c" for k
  proof -
    have m: "(k + c - a) mod c = (if a \<le> k then k - a else k + c - a)"
    proof (cases "a \<le> k")
      case True
      then have "k + c - a = (k - a) + c" by simp
      with that True show ?thesis by (simp only: mod_add_self2) simp
    next
      case False
      with that show ?thesis by simp
    qed
    show ?thesis
      unfolding m copy_at_nth [OF d2(1), unfolded d1(2), OF that] copy_at_nth [OF d1(1), unfolded assms(1), OF that]
      using that assms by (auto simp: first add.commute)
  qed
  with d1 d2 show ?thesis by blast
qed

section \<open>Appending\<close>

text \<open>
  The data after an append of at most \<open>cap\<close> bytes at the end of the ring, and the window read back.
\<close>

lemma ring_append_window:
  assumes wf: "ring_wf cap r" and len: "length buf \<le> cap"
  shows "\<exists>r'. ring_append cap r (ring_end r) buf = Ok r' \<and> ring_wf cap r' \<and>
    ring_end r' = ring_end r + of_nat (length buf) \<and> ring_window cap r' = last_bytes cap (ring_window cap r @ buf)"
proof -
  define a where "a = unat (ring_end r) mod cap"
  define l where "l = (if rb_len r + length buf < cap then rb_len r + length buf else cap)"
  from wf have cap: "0 < cap" "cap dvd 2 ^ 64" "length (rb_data r) = cap" "rb_len r \<le> cap"
    by (simp_all add: ring_wf_def)
  then have "a < cap" by (simp add: a_def)
  from ring_copies [OF cap(3) this len refl] obtain d1 d2 where
    d: "copy_at (rb_data r) a (take (if length buf < cap - a then length buf else cap - a) buf) = Ok d1"
      "copy_at d1 0 (drop (if length buf < cap - a then length buf else cap - a) buf) = Ok d2" "length d2 = cap"
      "\<And>k. k < cap \<Longrightarrow> d2 ! k = (if (k + cap - a) mod cap < length buf then buf ! ((k + cap - a) mod cap) else rb_data r ! k)"
    by blast
  define r' where "r' = r\<lparr>rb_data := d2, rb_len := l, rb_base_offset := ring_end r + of_nat (length buf) - of_nat l\<rparr>"
  have app: "ring_append cap r (ring_end r) buf = Ok r'"
    using len d(1,2)
    by (cases "length buf < cap - a") (simp_all add: ring_append_def Let_def a_def [symmetric] l_def [symmetric] r'_def)
  have l: "length buf \<le> l" "l \<le> cap" "l \<le> rb_len r + length buf" using len by (auto simp: l_def)
  have base': "(unat (rb_base_offset r') + i) mod cap = (a + (length buf + cap - l + i)) mod cap" for i
  proof -
    have "unat (rb_base_offset r') mod cap = (unat (ring_end r + of_nat (length buf)) mod cap + cap - l) mod cap"
      unfolding r'_def using ix_sub [OF cap(2) l(2) cap(1)] by simp
    also have "\<dots> = ((a + length buf) mod cap + (cap - l)) mod cap"
      using ix_add [OF cap(2), of "ring_end r" "length buf"] l(2) by (simp add: a_def mod_simps)
    also have "\<dots> = (a + length buf + (cap - l)) mod cap" by (rule mod_add_left_eq)
    finally have "(unat (rb_base_offset r') mod cap + i) mod cap = ((a + length buf + (cap - l)) mod cap + i) mod cap"
      by (simp only:)
    then show ?thesis using l(2) by (simp add: mod_simps add.assoc)
  qed
  have base: "(unat (rb_base_offset r) + i) mod cap = (a + (cap - rb_len r + i)) mod cap" for i
  proof -
    have "rb_base_offset r = ring_end r - of_nat (rb_len r)" by (simp add: ring_end_def)
    then have "unat (rb_base_offset r) mod cap = (a + cap - rb_len r) mod cap"
      using ix_sub [OF cap(2,4,1), of "ring_end r"] by (simp add: a_def)
    also have "\<dots> = (a + (cap - rb_len r)) mod cap" using cap(4) by simp
    finally have "(unat (rb_base_offset r) mod cap + i) mod cap = ((a + (cap - rb_len r)) mod cap + i) mod cap"
      by (simp only:)
    then show ?thesis by (simp add: mod_simps add.assoc)
  qed
  have "ring_window cap r' = last_bytes cap (ring_window cap r @ buf)"
  proof (rule nth_equalityI)
    show len': "length (ring_window cap r') = length (last_bytes cap (ring_window cap r @ buf))"
      by (simp add: ring_window_def r'_def l_def)
    fix i assume "i < length (ring_window cap r')"
    then have i: "i < l" by (simp add: ring_window_def r'_def)
    let ?k = "(a + (length buf + cap - l + i)) mod cap"
    have k: "?k < cap" using cap(1) by simp
    have off: "(?k + cap - a) mod cap = (length buf + cap - l + i) mod cap"
      using shift_back [OF \<open>a < cap\<close>] by simp
    have w': "ring_window cap r' ! i = d2 ! ?k"
      using i base' [of i] by (simp add: ring_window_def) (simp add: r'_def)
    have old: "length (ring_window cap r) = rb_len r" by (simp add: ring_window_def)
    have drop: "length (ring_window cap r @ buf) - cap = rb_len r + length buf - l"
      using len cap(4) by (simp add: old l_def)
    have rhs: "last_bytes cap (ring_window cap r @ buf) ! i = (ring_window cap r @ buf) ! (rb_len r + length buf - l + i)"
      unfolding last_bytes_def drop by (rule nth_drop) (use l old in simp)
    show "ring_window cap r' ! i = last_bytes cap (ring_window cap r @ buf) ! i"
    proof (cases "l \<le> length buf + i")
      case True
      then have "(length buf + cap - l + i) mod cap = length buf + i - l"
      proof -
        have "length buf + cap - l + i = (length buf + i - l) + cap" using True l(2) by simp
        then have "(length buf + cap - l + i) mod cap = (length buf + i - l) mod cap" by (simp only: mod_add_self2)
        then show ?thesis using i len l(2) by simp
      qed
      then have "d2 ! ?k = buf ! (length buf + i - l)"
        using d(4) [OF k] off i True by (simp split: if_split_asm)
      moreover have "(ring_window cap r @ buf) ! (rb_len r + length buf - l + i) = buf ! (length buf + i - l)"
      proof -
        have "rb_len r + length buf - l + i = length (ring_window cap r) + (length buf + i - l)"
          using True l(3) old by simp
        then show ?thesis by (simp only: nth_append_length_plus)
      qed
      ultimately show ?thesis using w' rhs by simp
    next
      case False
      then have "(length buf + cap - l + i) mod cap = length buf + cap - l + i" using l by simp
      then have "\<not> (?k + cap - a) mod cap < length buf" using off l(2) by linarith
      then have "d2 ! ?k = rb_data r ! ?k" using d(4) [OF k] by (simp only: if_False)
      moreover have "(ring_window cap r @ buf) ! (rb_len r + length buf - l + i) = rb_data r ! ?k"
      proof -
        have lt: "rb_len r + length buf - l + i < rb_len r" using False l(3) by simp
        have "cap - rb_len r + (rb_len r + length buf - l + i) = length buf + cap - l + i"
          using cap(4) l(3) by simp
        then have "(unat (rb_base_offset r) + (rb_len r + length buf - l + i)) mod cap = ?k"
          using base [of "rb_len r + length buf - l + i"] by (simp only:)
        then show ?thesis using lt by (simp add: nth_append old) (simp add: ring_window_def)
      qed
      ultimately show ?thesis using w' rhs by simp
    qed
  qed
  moreover have "ring_wf cap r'" using wf d(3) l(2) by (simp add: ring_wf_def r'_def)
  moreover have "ring_end r' = ring_end r + of_nat (length buf)" by (simp add: ring_end_def r'_def)
  ultimately show ?thesis using app by blast
qed

text \<open>A longer buffer is first cut to its last \<open>cap\<close> bytes.\<close>

lemma ring_append_long:
  assumes "cap < length buf"
  shows "ring_append cap r offset buf = ring_append cap r (offset + of_nat (length buf - cap)) (drop (length buf - cap) buf)"
  using assms by (simp add: ring_append_def)

text \<open>For a full cut the old contents do not matter, only where the ring continues.\<close>

lemma ring_append_restart:
  assumes "length buf = cap"
  shows "ring_append cap r offset buf = ring_append cap (r\<lparr>rb_base_offset := offset - of_nat (rb_len r)\<rparr>) offset buf"
  using assms by (simp add: ring_append_def)

lemma ring_append_ok:
  assumes wf: "ring_wf cap r"
  shows "\<exists>r'. ring_append cap r (ring_end r) buf = Ok r' \<and> ring_wf cap r' \<and>
    ring_end r' = ring_end r + of_nat (length buf) \<and> ring_window cap r' = last_bytes cap (ring_window cap r @ buf)"
proof (cases "length buf \<le> cap")
  case True
  then show ?thesis by (rule ring_append_window [OF wf])
next
  case False
  define cut where "cut = drop (length buf - cap) buf"
  define off where "off = ring_end r + of_nat (length buf - cap)"
  define r0 where "r0 = r\<lparr>rb_base_offset := off - of_nat (rb_len r)\<rparr>"
  have cut: "length cut = cap" using False by (simp add: cut_def)
  have r0: "ring_wf cap r0" "ring_end r0 = off" using wf by (simp_all add: r0_def ring_wf_def ring_end_def)
  have "ring_append cap r (ring_end r) buf = ring_append cap r0 (ring_end r0) cut"
    using ring_append_long [of cap buf r "ring_end r", folded cut_def off_def] ring_append_restart [OF cut, of r off, folded r0_def] False
    by (simp only: r0(2) not_le)
  moreover have "last_bytes cap (ring_window cap r0 @ cut) = last_bytes cap (ring_window cap r @ buf)"
    using cut False by (simp add: last_bytes_def cut_def)
  moreover have "off + of_nat (length cut) = ring_end r + of_nat (length buf)"
    unfolding off_def cut using False by (simp flip: of_nat_add add: add.assoc)
  ultimately show ?thesis
    using ring_append_window [OF r0(1), of cut] cut r0(2) by simp
qed

section \<open>The contract\<close>

text \<open>
  A log that keeps the last \<open>cap\<close> bytes: what the writer of a stream relies on, whatever the
  representation.
\<close>

locale replay_log =
  fixes valid :: "'r \<Rightarrow> bool" and kept :: "'r \<Rightarrow> bytes" and end_offset :: "'r \<Rightarrow> u64"
    and append :: "'r \<Rightarrow> bytes \<Rightarrow> 'r" and cap :: nat
  assumes valid_append: "valid r \<Longrightarrow> valid (append r buf)"
    and kept_append: "valid r \<Longrightarrow> kept (append r buf) = last_bytes cap (kept r @ buf)"
    and end_append: "valid r \<Longrightarrow> end_offset (append r buf) = end_offset r + of_nat (length buf)"
begin

lemma valid_fold: "valid r \<Longrightarrow> valid (foldl append r bufs)"
  by (induction bufs arbitrary: r) (simp_all add: valid_append)

lemma kept_fold: "valid r \<Longrightarrow> length (kept r) \<le> cap \<Longrightarrow> kept (foldl append r bufs) = last_bytes cap (kept r @ concat bufs)"
proof (induction bufs arbitrary: r)
  case Nil
  then show ?case by (simp add: last_bytes_def)
next
  case (Cons buf bufs)
  then show ?case
    by (simp add: valid_append kept_append last_bytes_append flip: append_assoc)
qed

lemma end_fold: "valid r \<Longrightarrow> end_offset (foldl append r bufs) = end_offset r + of_nat (length (concat bufs))"
  by (induction bufs arbitrary: r) (simp_all add: valid_append end_append add.assoc)

end

text \<open>The agent's buffer, appended to at its end.\<close>

definition replay_push :: "replay_buffer \<Rightarrow> bytes \<Rightarrow> replay_buffer" where
  "replay_push r buf = (case replay_append r (ring_end r) buf of Ok r' \<Rightarrow> r' | _ \<Rightarrow> r)"

lemma replay_cap: "0 < REPLAY_CAP" "REPLAY_CAP dvd 2 ^ 64"
  by (simp_all add: REPLAY_CAP_def)

lemma replay_append_ok:
  assumes "ring_wf REPLAY_CAP r" "offset = ring_end r"
  shows "replay_append r offset buf = Ok (replay_push r buf)"
  using ring_append_ok [OF assms(1), of buf] assms(2) by (auto simp: replay_append_def replay_push_def)

interpretation replay: replay_log "ring_wf REPLAY_CAP" "ring_window REPLAY_CAP" ring_end replay_push REPLAY_CAP
proof
  fix r buf
  assume wf: "ring_wf REPLAY_CAP r"
  from ring_append_ok [OF wf, of buf] show "ring_wf REPLAY_CAP (replay_push r buf)"
      "ring_window REPLAY_CAP (replay_push r buf) = last_bytes REPLAY_CAP (ring_window REPLAY_CAP r @ buf)"
      "ring_end (replay_push r buf) = ring_end r + of_nat (length buf)"
    by (auto simp: replay_append_def replay_push_def)
qed

lemma empty_replay:
  "ring_wf REPLAY_CAP (empty_ring REPLAY_CAP)" "ring_window REPLAY_CAP (empty_ring REPLAY_CAP) = []"
  "ring_end (empty_ring REPLAY_CAP) = 0"
  using replay_cap by (simp_all add: ring_wf_def empty_ring_def ring_window_def ring_end_def)

text \<open>C18. After any sequence of appends to an empty replay buffer, each at the stream offset reached so
  far, no access was outside the ring, the end offset is the number of bytes modulo 2 to the 64, and
  the buffer holds exactly the last 256 KiB of everything appended.\<close>

theorem replay_keeps_last:
  "let r = foldl replay_push (empty_ring REPLAY_CAP) bufs in
     replay_append r (ring_end r) buf = Ok (replay_push r buf) \<and>
     ring_window REPLAY_CAP (replay_push r buf) = last_bytes REPLAY_CAP (concat bufs @ buf) \<and>
     ring_end (replay_push r buf) = of_nat (length (concat bufs @ buf)) \<and>
     rb_len (replay_push r buf) = min (length (concat bufs @ buf)) REPLAY_CAP"
proof -
  define r where "r = foldl replay_push (empty_ring REPLAY_CAP) bufs"
  have wf: "ring_wf REPLAY_CAP r" unfolding r_def by (rule replay.valid_fold [OF empty_replay(1)])
  have w: "ring_window REPLAY_CAP (replay_push r buf) = last_bytes REPLAY_CAP (concat bufs @ buf)"
    using replay.kept_fold [OF empty_replay(1), of "bufs @ [buf]"] by (simp add: r_def empty_replay)
  have "length (ring_window REPLAY_CAP (replay_push r buf)) = rb_len (replay_push r buf)"
    by (simp add: ring_window_def)
  with w have "rb_len (replay_push r buf) = min (length (concat bufs @ buf)) REPLAY_CAP"
    by (simp only: length_last_bytes)
  moreover have "ring_end (replay_push r buf) = of_nat (length (concat bufs @ buf))"
    using replay.end_fold [OF empty_replay(1), of "bufs @ [buf]"] by (simp add: r_def empty_replay)
  ultimately show ?thesis
    unfolding r_def [symmetric] Let_def using replay_append_ok [OF wf refl] w by blast
qed

end
