(* ===== verification/Spio.thy ===== *)
theory Spio
  imports Util
begin

text \<open>
  \<^verbatim>\<open>spio.c\<close>: the frames the agent sends to its client, the batching of stream data, the timing
  and exit frames, and the blocking header reader. The \<^verbatim>\<open>client\<close> record of \<^verbatim>\<open>agent.h\<close> holds the two
  receive buffers by their contents: their lengths are \<^verbatim>\<open>v1_header_len\<close> and \<^verbatim>\<open>v1_payload_read\<close>.
\<close>

section \<open>Frames\<close>

definition MAX_FRAME_PAYLOAD :: nat where "MAX_FRAME_PAYLOAD = 4096"

definition SPIO_HEADER_LEN :: nat where "SPIO_HEADER_LEN = 24"

definition SPIO_BATCH_FRAMES :: nat where "SPIO_BATCH_FRAMES = 15"

definition SPIO_OUT_SIZE :: nat where
  "SPIO_OUT_SIZE = SPIO_BATCH_FRAMES * (SPIO_HEADER_LEN + MAX_FRAME_PAYLOAD)"

abbreviation (input) "SPIO_VERSION \<equiv> (1 :: u8)"
abbreviation (input) "SPIO_DATA \<equiv> (1 :: u8)"
abbreviation (input) "SPIO_CLOSE \<equiv> (2 :: u8)"
abbreviation (input) "SPIO_EXIT \<equiv> (3 :: u8)"
abbreviation (input) "SPIO_RESIZE \<equiv> (4 :: u8)"
abbreviation (input) "SPIO_EVENT \<equiv> (7 :: u8)"
abbreviation (input) "SPIO_CONTROL_STREAM \<equiv> (0 :: u32)"
abbreviation (input) "SPIO_STDIN_STREAM \<equiv> (1 :: u32)"
abbreviation (input) "SPIO_STDOUT_STREAM \<equiv> (2 :: u32)"
abbreviation (input) "SPIO_STDERR_STREAM \<equiv> (3 :: u32)"
abbreviation (input) "SPIO_TERMINAL_STREAM \<equiv> (4 :: u32)"

definition SPIO_MAGIC :: bytes where "SPIO_MAGIC = lit ''SPIO''"

definition spio_frame :: "u8 \<Rightarrow> u32 \<Rightarrow> u64 \<Rightarrow> bytes \<Rightarrow> bytes" where
  "spio_frame type stream_id offset payload =
     SPIO_MAGIC @ [SPIO_VERSION, type] @ write_le16 0 @ write_le32 stream_id @ write_le64 offset @
     write_le32 (of_nat (length payload)) @ payload"

text \<open>
  The frame goes after the bytes already in \<^verbatim>\<open>spio_out\<close>; writing past its end is undefined.
\<close>

definition put_spio_frame :: "bytes \<Rightarrow> u8 \<Rightarrow> u32 \<Rightarrow> u64 \<Rightarrow> bytes \<Rightarrow> bytes cres" where
  "put_spio_frame used type stream_id offset payload =
     (let out = used @ spio_frame type stream_id offset payload in
      if length out \<le> SPIO_OUT_SIZE then Ok out else UB)"

definition lift_cres :: "'a cres \<Rightarrow> 'a option io" where
  "lift_cres m = (case m of Ok x \<Rightarrow> ret (Some x) | Bad \<Rightarrow> ret None | UB \<Rightarrow> undef)"

definition send_spio_frame :: "int \<Rightarrow> u8 \<Rightarrow> u32 \<Rightarrow> u64 \<Rightarrow> bytes \<Rightarrow> bool io" where
  "send_spio_frame fd type stream_id offset payload =
     (if length payload > MAX_FRAME_PAYLOAD then ret False
      else (case put_spio_frame [] type stream_id offset payload of
              Ok out \<Rightarrow> write_all fd out | _ \<Rightarrow> undef))"

section \<open>Batches of data frames\<close>

function fill_batch :: "u32 \<Rightarrow> u64 \<Rightarrow> bytes \<Rightarrow> nat \<Rightarrow> bytes \<Rightarrow> (bytes \<times> nat) cres" where
  "fill_batch stream_id offset buf sent used =
     (if sent < length buf \<and> length used + SPIO_HEADER_LEN + MAX_FRAME_PAYLOAD \<le> SPIO_OUT_SIZE then
        (let chunk = (if length buf - sent > MAX_FRAME_PAYLOAD then MAX_FRAME_PAYLOAD else length buf - sent) in
         bnd (put_spio_frame used SPIO_DATA stream_id (offset + of_nat sent) (take chunk (drop sent buf))) (\<lambda>used'.
         fill_batch stream_id offset buf (sent + chunk) used'))
      else Ok (used, sent))"
  by pat_completeness auto
termination
  by (relation "measure (\<lambda>(stream_id, offset, buf, sent, used). length buf - sent)")
     (auto simp: MAX_FRAME_PAYLOAD_def)

declare fill_batch.simps [simp del]

lemma fill_batch_ge: "fill_batch stream_id offset buf sent used = Ok (out, sent') \<Longrightarrow> sent \<le> sent'"
proof (induction stream_id offset buf sent used rule: fill_batch.induct)
  case (1 stream_id offset buf sent used)
  show ?case
  proof (cases "sent < length buf \<and> length used + SPIO_HEADER_LEN + MAX_FRAME_PAYLOAD \<le> SPIO_OUT_SIZE")
    case True
    define chunk where "chunk = (if length buf - sent > MAX_FRAME_PAYLOAD then MAX_FRAME_PAYLOAD else length buf - sent)"
    from "1.prems" True obtain used' where
        "put_spio_frame used SPIO_DATA stream_id (offset + of_nat sent) (take chunk (drop sent buf)) = Ok used'"
        "fill_batch stream_id offset buf (sent + chunk) used' = Ok (out, sent')"
      by (subst (asm) fill_batch.simps) (auto simp: Let_def chunk_def)
    from "1.IH" [OF True chunk_def this] show ?thesis by simp
  next
    case False
    with "1.prems" show ?thesis by (subst (asm) fill_batch.simps) auto
  qed
qed

lemma fill_batch_progress:
  assumes "fill_batch stream_id offset buf sent [] = Ok (out, sent')" "sent < length buf"
  shows "sent < sent'"
  using assms
  by (subst (asm) fill_batch.simps)
     (auto simp: Let_def MAX_FRAME_PAYLOAD_def SPIO_OUT_SIZE_def SPIO_HEADER_LEN_def SPIO_BATCH_FRAMES_def
        split: if_split_asm dest!: fill_batch_ge)

function send_spio_data_loop :: "int \<Rightarrow> u32 \<Rightarrow> u64 \<Rightarrow> bytes \<Rightarrow> nat \<Rightarrow> bool io" where
  "send_spio_data_loop fd stream_id offset buf sent =
     (if sent < length buf then
        (case fill_batch stream_id offset buf sent [] of
           Ok r \<Rightarrow> iob (write_all fd (fst r)) (\<lambda>ok.
             if ok then send_spio_data_loop fd stream_id offset buf (snd r) else ret False)
         | _ \<Rightarrow> undef)
      else ret True)"
  by pat_completeness auto
termination
proof (relation "measure (\<lambda>(fd, stream_id, offset, buf, sent). length buf - sent)", goal_cases)
  case (2 fd stream_id offset buf sent r ok)
  then show ?case using fill_batch_progress [of stream_id offset buf sent "fst r" "snd r"] by auto
qed auto

declare send_spio_data_loop.simps [simp del]

definition send_spio_data :: "int \<Rightarrow> u32 \<Rightarrow> u64 \<Rightarrow> bytes \<Rightarrow> bool io" where
  "send_spio_data fd stream_id offset buf = send_spio_data_loop fd stream_id offset buf 0"

definition send_spio_event :: "int \<Rightarrow> bytes \<Rightarrow> bool io" where
  "send_spio_event fd event = send_spio_frame fd SPIO_EVENT SPIO_CONTROL_STREAM 0 event"

definition send_spio_exit :: "int \<Rightarrow> int \<Rightarrow> bool io" where
  "send_spio_exit fd exit_code =
     send_spio_frame fd SPIO_EXIT SPIO_CONTROL_STREAM 0 (write_le32 (word_of_int exit_code))"

section \<open>Timing\<close>

definition since_start :: "world \<Rightarrow> i64 \<Rightarrow> bytes" where
  "since_start w t = dec_int (sint (if t \<noteq> 0 then t - w_t_init_start w else - 1))"

definition timing_text :: "i64 \<Rightarrow> world \<Rightarrow> bytes" where
  "timing_text now w =
     lit ''timing listen='' @ since_start w (w_t_listen_ready w) @
     lit '' accept='' @ since_start w (w_t_request_accept w) @
     lit '' decode='' @ since_start w (w_t_request_decode w) @
     lit '' spawn='' @ since_start w (w_t_command_start w) @
     lit '' exit='' @ since_start w (w_t_command_exit w) @
     lit '' now='' @ since_start w now @
     lit '' user_us='' @ dec_int (sint (w_t_command_user_us w)) @
     lit '' system_us='' @ dec_int (sint (w_t_command_system_us w)) @ [10]"

definition format_timing :: "nat \<Rightarrow> bytes option io" where
  "format_timing cap =
     iob now_ms (\<lambda>now. iob (gets (timing_text now)) (\<lambda>frame.
     ret (if length frame \<ge> cap then None else Some frame)))"

definition send_spio_timing_frame :: "int \<Rightarrow> bool io" where
  "send_spio_timing_frame fd =
     iob (format_timing 192) (\<lambda>r.
     case r of
       None \<Rightarrow> ret False
     | Some frame \<Rightarrow>
         send_spio_frame fd SPIO_EVENT SPIO_CONTROL_STREAM 0
           (if frame \<noteq> [] \<and> last frame = 10 then butlast frame else frame))"

section \<open>The client\<close>

record client =
  c_fd :: int
  c_stdout_offset :: u64
  c_stderr_offset :: u64
  c_stdin_offset :: u64
  c_terminal_offset :: u64
  c_terminal_input_offset :: u64
  c_stdin_input_owner :: bool
  c_terminal_input_owner :: bool
  c_v1_header :: bytes
  c_v1_type :: u8
  c_v1_stream_id :: u32
  c_v1_offset :: u64
  c_v1_payload_len :: u32
  c_v1_payload :: bytes

text \<open>A zeroed client with a descriptor.\<close>

definition fresh_client :: "int \<Rightarrow> client" where
  "fresh_client fd = \<lparr>c_fd = fd, c_stdout_offset = 0, c_stderr_offset = 0, c_stdin_offset = 0, c_terminal_offset = 0,
     c_terminal_input_offset = 0, c_stdin_input_owner = False, c_terminal_input_owner = False,
     c_v1_header = [], c_v1_type = 0, c_v1_stream_id = 0, c_v1_offset = 0, c_v1_payload_len = 0, c_v1_payload = []\<rparr>"

definition close_client :: "client \<Rightarrow> client io" where
  "close_client client =
     iob (if c_fd client \<ge> 0 then iob (sys_close (c_fd client)) (\<lambda>_. ret (- 1)) else ret (c_fd client)) (\<lambda>fd.
     ret (client\<lparr>c_fd := fd, c_stdout_offset := 0, c_stderr_offset := 0, c_stdin_offset := 0, c_terminal_offset := 0,
       c_terminal_input_offset := 0, c_stdin_input_owner := False, c_terminal_input_owner := False,
       c_v1_header := [], c_v1_type := 0, c_v1_stream_id := 0, c_v1_offset := 0, c_v1_payload_len := 0,
       c_v1_payload := []\<rparr>))"

definition mirror_console :: "bool \<Rightarrow> bytes \<Rightarrow> unit io" where
  "mirror_console is_stdout buf =
     iob (gets w_console_mirror) (\<lambda>mirror.
     if \<not> mirror then ret ()
     else iob (write_all (if is_stdout then 1 else 2) buf) (\<lambda>_. ret ()))"

definition send_client_error_exit :: "client \<Rightarrow> int \<Rightarrow> bytes \<Rightarrow> (bool \<times> client) io" where
  "send_client_error_exit client code message =
     (if c_fd client < 0 then ret (False, client)
      else iob
        (if message \<noteq> [] then
           iob (send_spio_data (c_fd client) SPIO_STDERR_STREAM (c_stderr_offset client) message) (\<lambda>ok.
           if ok then ret (True, client\<lparr>c_stderr_offset := c_stderr_offset client + of_nat (length message)\<rparr>)
           else ret (False, client))
         else ret (True, client)) (\<lambda>(ok, client).
        if \<not> ok then ret (False, client)
        else iob (send_spio_timing_frame (c_fd client)) (\<lambda>ok.
          if \<not> ok then ret (False, client)
          else iob (send_spio_exit (c_fd client) code) (\<lambda>ok. ret (ok, client)))))"

definition send_client_stdout :: "client \<Rightarrow> bytes \<Rightarrow> (bool \<times> client) io" where
  "send_client_stdout client message =
     (if c_fd client < 0 then ret (False, client)
      else if message = [] then ret (True, client)
      else iob (send_spio_data (c_fd client) SPIO_STDOUT_STREAM (c_stdout_offset client) message) (\<lambda>ok.
        if ok then ret (True, client\<lparr>c_stdout_offset := c_stdout_offset client + of_nat (length message)\<rparr>)
        else ret (False, client)))"

definition send_client_exit :: "client \<Rightarrow> int \<Rightarrow> bool io" where
  "send_client_exit client code =
     (if c_fd client < 0 then ret False
      else iob (send_spio_timing_frame (c_fd client)) (\<lambda>ok.
        if \<not> ok then ret False else send_spio_exit (c_fd client) code))"

section \<open>Reading a header\<close>

text \<open>The fields of a header: type, stream, offset and payload length. \<open>Bad\<close> is a refused header.\<close>

definition header_fields :: "bytes \<Rightarrow> (u8 \<times> u32 \<times> u64 \<times> u32) cres" where
  "header_fields header =
     (if length header < 4 then UB
      else if take 4 header \<noteq> SPIO_MAGIC then Bad
      else bnd (rd header 4) (\<lambda>version.
        if version \<noteq> SPIO_VERSION then Bad
        else bnd (read_le16 (drop 6 header)) (\<lambda>flags.
          if flags \<noteq> 0 then Bad
          else bnd (rd header 5) (\<lambda>type.
            bnd (read_le32 (drop 8 header)) (\<lambda>stream_id.
            bnd (read_le64 (drop 12 header)) (\<lambda>offset.
            bnd (read_le32 (drop 20 header)) (\<lambda>payload_len.
            if unat payload_len > MAX_FRAME_PAYLOAD then Bad
            else Ok (type, stream_id, offset, payload_len))))))))"

definition read_spio_header_blocking :: "int \<Rightarrow> (u8 \<times> u32 \<times> u64 \<times> u32) option io" where
  "read_spio_header_blocking fd =
     iob (read_exact fd SPIO_HEADER_LEN) (\<lambda>r.
     case r of
       None \<Rightarrow> ret None
     | Some header \<Rightarrow> lift_cres (header_fields header))"

section \<open>What goes on the wire\<close>

lemma length_le [simp]: "length (write_le16 a) = 2" "length (write_le32 b) = 4" "length (write_le64 c) = 8"
  by (simp_all add: write_le16_def write_le32_def write_le64_def)

lemma length_spio_frame [simp]: "length (spio_frame type stream_id offset payload) = SPIO_HEADER_LEN + length payload"
  by (simp add: spio_frame_def SPIO_MAGIC_def SPIO_HEADER_LEN_def lit_def)

text \<open>The reference encoding of stream data: full frames and a last one, at contiguous offsets.\<close>

function data_frames :: "u32 \<Rightarrow> u64 \<Rightarrow> bytes \<Rightarrow> bytes" where
  "data_frames stream_id offset buf =
     (if buf = [] then []
      else spio_frame SPIO_DATA stream_id offset (take MAX_FRAME_PAYLOAD buf) @
           data_frames stream_id (offset + of_nat MAX_FRAME_PAYLOAD) (drop MAX_FRAME_PAYLOAD buf))"
  by pat_completeness auto
termination
  by (relation "measure (\<lambda>(stream_id, offset, buf). length buf)") (auto simp: MAX_FRAME_PAYLOAD_def)

declare data_frames.simps [simp del]

lemma data_frames_Nil [simp]: "data_frames stream_id offset [] = []"
  by (simp add: data_frames.simps)

lemma data_frames_chunk:
  assumes "buf \<noteq> []"
  shows "data_frames stream_id offset buf =
    spio_frame SPIO_DATA stream_id offset (take (min (length buf) MAX_FRAME_PAYLOAD) buf) @
    data_frames stream_id (offset + of_nat (min (length buf) MAX_FRAME_PAYLOAD)) (drop (min (length buf) MAX_FRAME_PAYLOAD) buf)"
  using assms by (subst data_frames.simps) (simp add: min_def)

lemma fill_batch_frames:
  assumes "sent \<le> length buf" "length used \<le> SPIO_OUT_SIZE"
  shows "\<exists>new sent'. fill_batch stream_id offset buf sent used = Ok (used @ new, sent') \<and> sent' \<le> length buf \<and>
    new @ data_frames stream_id (offset + of_nat sent') (drop sent' buf) =
    data_frames stream_id (offset + of_nat sent) (drop sent buf)"
  using assms
proof (induction stream_id offset buf sent used rule: fill_batch.induct)
  case (1 stream_id offset buf sent used)
  show ?case
  proof (cases "sent < length buf \<and> length used + SPIO_HEADER_LEN + MAX_FRAME_PAYLOAD \<le> SPIO_OUT_SIZE")
    case True
    define chunk where "chunk = (if length buf - sent > MAX_FRAME_PAYLOAD then MAX_FRAME_PAYLOAD else length buf - sent)"
    define frame where "frame = spio_frame SPIO_DATA stream_id (offset + of_nat sent) (take chunk (drop sent buf))"
    have c: "chunk = min (length (drop sent buf)) MAX_FRAME_PAYLOAD" by (simp add: chunk_def)
    have le: "sent + chunk \<le> length buf" using True by (auto simp: chunk_def)
    have u: "length (used @ frame) \<le> SPIO_OUT_SIZE"
      using True by (auto simp: frame_def chunk_def)
    then have put: "put_spio_frame used SPIO_DATA stream_id (offset + of_nat sent) (take chunk (drop sent buf)) = Ok (used @ frame)"
      by (simp add: put_spio_frame_def frame_def)
    obtain new sent' where IH: "fill_batch stream_id offset buf (sent + chunk) (used @ frame) = Ok ((used @ frame) @ new, sent')"
        "sent' \<le> length buf" "new @ data_frames stream_id (offset + of_nat sent') (drop sent' buf) =
          data_frames stream_id (offset + of_nat (sent + chunk)) (drop (sent + chunk) buf)"
      using "1.IH" [OF True chunk_def put le u] by blast
    have "fill_batch stream_id offset buf sent used = Ok (used @ (frame @ new), sent')"
      using True put IH(1) by (subst fill_batch.simps) (simp add: chunk_def)
    moreover have "(frame @ new) @ data_frames stream_id (offset + of_nat sent') (drop sent' buf) =
        data_frames stream_id (offset + of_nat sent) (drop sent buf)"
    proof -
      have "data_frames stream_id (offset + of_nat sent) (drop sent buf) =
          frame @ data_frames stream_id (offset + of_nat sent + of_nat chunk) (drop chunk (drop sent buf))"
        unfolding frame_def c by (rule data_frames_chunk) (use True in simp)
      then show ?thesis using IH(3) by (simp add: add.assoc add.commute [of chunk])
    qed
    ultimately show ?thesis using IH(2) by blast
  next
    case False
    then show ?thesis using "1.prems" by (subst fill_batch.simps) auto
  qed
qed

lemma writes_append: "writes fd a True s \<Longrightarrow> writes fd b ok t \<Longrightarrow> writes fd (a @ b) ok (s @ t)"
  by (auto simp: writes_def)

lemma writes_partial: "writes fd a ok s \<Longrightarrow> writes fd (a @ b) False s"
  by (auto simp: writes_def prefix_def)

lemma adds_send_spio_data_loop:
  assumes "sent \<le> length buf"
  shows "adds (send_spio_data_loop fd stream_id offset buf sent)
    (writes fd (data_frames stream_id (offset + of_nat sent) (drop sent buf)))
    (writes fd (data_frames stream_id (offset + of_nat sent) (drop sent buf)) False)"
  using assms
proof (induction "length buf - sent" arbitrary: sent rule: less_induct)
  case less
  show ?case
  proof (cases "sent < length buf")
    case True
    from fill_batch_frames [OF less.prems, of "[]" stream_id offset] obtain new sent' where
      f: "fill_batch stream_id offset buf sent [] = Ok (new, sent')" "sent' \<le> length buf"
        "new @ data_frames stream_id (offset + of_nat sent') (drop sent' buf) =
         data_frames stream_id (offset + of_nat sent) (drop sent buf)"
      by auto
    have "length buf - sent' < length buf - sent"
      using fill_batch_progress [OF f(1) True] True by simp
    note IH = less.hyps [OF this f(2)]
    let ?rest = "data_frames stream_id (offset + of_nat sent') (drop sent' buf)"
    have rest: "adds (if ok then send_spio_data_loop fd stream_id offset buf sent' else ret False)
        (\<lambda>y tr. writes fd (new @ ?rest) y (ws @ tr)) (\<lambda>tr. writes fd (new @ ?rest) False (ws @ tr))"
      if "writes fd new ok ws" for ok ws
    proof (cases ok)
      case True
      with that have "writes fd new True ws" by simp
      then show ?thesis
        using True by simp (rule adds_mono [OF IH]; erule (1) writes_append)
    next
      case False
      with writes_partial [OF that, of ?rest] show ?thesis by (simp add: adds_ret)
    qed
    have "send_spio_data_loop fd stream_id offset buf sent = iob (write_all fd new) (\<lambda>ok.
        if ok then send_spio_data_loop fd stream_id offset buf sent' else ret False)"
      using True f(1) by (subst send_spio_data_loop.simps) (simp cong: if_cong)
    then show ?thesis
      unfolding f(3) [symmetric]
      by (simp only:) (rule adds_write_all_bind, erule rest, erule writes_partial)
  next
    case False
    with less.prems show ?thesis by (subst send_spio_data_loop.simps) (simp add: adds_ret writes_def)
  qed
qed

lemma adds_send_spio_data:
  "adds (send_spio_data fd stream_id offset buf)
     (writes fd (data_frames stream_id offset buf)) (writes fd (data_frames stream_id offset buf) False)"
  using adds_send_spio_data_loop [of 0 buf fd stream_id offset] by (simp add: send_spio_data_def)

lemma adds_send_spio_frame:
  assumes "length payload \<le> MAX_FRAME_PAYLOAD"
  shows "adds (send_spio_frame fd type stream_id offset payload)
     (writes fd (spio_frame type stream_id offset payload)) (writes fd (spio_frame type stream_id offset payload) False)"
  using assms adds_write_all
  by (simp add: send_spio_frame_def put_spio_frame_def Let_def SPIO_OUT_SIZE_def SPIO_BATCH_FRAMES_def)

section \<open>A receiver\<close>

text \<open>A header decodes to the fields it was made from.\<close>

lemma header_fields_frame:
  assumes "length payload \<le> MAX_FRAME_PAYLOAD"
  shows "header_fields (take SPIO_HEADER_LEN (spio_frame type stream_id offset payload @ rest)) =
    Ok (type, stream_id, offset, of_nat (length payload))"
proof -
  let ?h = "SPIO_MAGIC @ [SPIO_VERSION, type] @ write_le16 0 @ write_le32 stream_id @ write_le64 offset @
     write_le32 (of_nat (length payload))"
  have h: "take SPIO_HEADER_LEN (spio_frame type stream_id offset payload @ rest) = ?h"
    by (simp add: spio_frame_def SPIO_MAGIC_def SPIO_HEADER_LEN_def lit_def)
  have d: "drop 6 ?h = write_le16 0 @ write_le32 stream_id @ write_le64 offset @ write_le32 (of_nat (length payload))"
    "drop 8 ?h = write_le32 stream_id @ write_le64 offset @ write_le32 (of_nat (length payload))"
    "drop 12 ?h = write_le64 offset @ write_le32 (of_nat (length payload))"
    "drop 20 ?h = write_le32 (of_nat (length payload)) @ []"
    by (simp_all add: SPIO_MAGIC_def lit_def)
  have r: "rd ?h 4 = Ok SPIO_VERSION" "rd ?h 5 = Ok type" "take 4 ?h = SPIO_MAGIC" "\<not> length ?h < 4"
    by (simp_all add: SPIO_MAGIC_def lit_def)
  have "\<not> MAX_FRAME_PAYLOAD < unat (of_nat (length payload) :: u32)"
    using assms by (simp add: unat_of_nat MAX_FRAME_PAYLOAD_def)
  then show ?thesis
    unfolding h header_fields_def d
    by (simp only: r read_write_le16 read_write_le32 read_write_le64 bnd.simps if_False if_True simp_thms)
qed

text \<open>The receiver: frames one after the other, a header and as many bytes as it announces.\<close>

type_synonym frame = "u8 \<times> u32 \<times> u64 \<times> bytes"

function deframe :: "bytes \<Rightarrow> frame list option" where
  "deframe bs =
     (if bs = [] then Some []
      else if length bs < SPIO_HEADER_LEN then None
      else (case header_fields (take SPIO_HEADER_LEN bs) of
          Ok (type, stream_id, offset, n) \<Rightarrow>
            (if length bs < SPIO_HEADER_LEN + unat n then None
             else map_option (Cons (type, stream_id, offset, take (unat n) (drop SPIO_HEADER_LEN bs)))
                    (deframe (drop (SPIO_HEADER_LEN + unat n) bs)))
        | _ \<Rightarrow> None))"
  by pat_completeness auto
termination
  by (relation "measure length") (auto simp: SPIO_HEADER_LEN_def)

declare deframe.simps [simp del]

lemma deframe_frame:
  assumes "length payload \<le> MAX_FRAME_PAYLOAD"
  shows "deframe (spio_frame type stream_id offset payload @ rest) =
    map_option (Cons (type, stream_id, offset, payload)) (deframe rest)"
proof -
  have n: "unat (of_nat (length payload) :: u32) = length payload"
    using assms by (simp add: unat_of_nat MAX_FRAME_PAYLOAD_def)
  let ?f = "spio_frame type stream_id offset payload"
  have "?f \<noteq> []" by (simp add: spio_frame_def)
  moreover have "drop SPIO_HEADER_LEN ?f = payload"
    by (simp add: spio_frame_def SPIO_MAGIC_def SPIO_HEADER_LEN_def lit_def)
  ultimately show ?thesis
    using header_fields_frame [OF assms, of type stream_id offset rest]
    by (subst deframe.simps) (simp add: n)
qed

function chunks :: "u64 \<Rightarrow> bytes \<Rightarrow> (u64 \<times> bytes) list" where
  "chunks offset buf =
     (if buf = [] then []
      else (offset, take MAX_FRAME_PAYLOAD buf) # chunks (offset + of_nat MAX_FRAME_PAYLOAD) (drop MAX_FRAME_PAYLOAD buf))"
  by pat_completeness auto
termination
  by (relation "measure (\<lambda>(offset, buf). length buf)") (auto simp: MAX_FRAME_PAYLOAD_def)

declare chunks.simps [simp del]

lemma chunks_Nil [simp]: "chunks offset [] = []"
  by (simp add: chunks.simps)

lemma deframe_data_frames:
  "deframe (data_frames stream_id offset buf) = Some (map (\<lambda>(o', p). (SPIO_DATA, stream_id, o', p)) (chunks offset buf))"
proof (induction offset buf rule: chunks.induct)
  case (1 offset buf)
  then show ?case
    by (cases "buf = []") (simp_all add: deframe.simps [of "[]"] chunks.simps [of offset buf] data_frames.simps [of _ offset buf] deframe_frame)
qed

lemma chunks_payload: "concat (map snd (chunks offset buf)) = buf"
proof (induction offset buf rule: chunks.induct)
  case (1 offset buf)
  then show ?case by (cases "buf = []") (simp_all add: chunks.simps [of offset buf])
qed

lemma chunks_bounds: "(o', p) \<in> set (chunks offset buf) \<Longrightarrow> p \<noteq> [] \<and> length p \<le> MAX_FRAME_PAYLOAD"
proof (induction offset buf rule: chunks.induct)
  case (1 offset buf)
  then show ?case by (cases "buf = []") (auto simp: chunks.simps [of offset buf] MAX_FRAME_PAYLOAD_def)
qed

text \<open>The offsets of consecutive chunks are contiguous.\<close>

fun contiguous :: "u64 \<Rightarrow> (u64 \<times> bytes) list \<Rightarrow> bool" where
  "contiguous offset [] = True"
| "contiguous offset ((o', p) # cs) \<longleftrightarrow> o' = offset \<and> contiguous (offset + of_nat (length p)) cs"

lemma chunks_contiguous: "contiguous offset (chunks offset buf)"
proof (induction offset buf rule: chunks.induct)
  case (1 offset buf)
  show ?case
  proof (cases "length buf \<le> MAX_FRAME_PAYLOAD")
    case True
    then show ?thesis by (simp add: chunks.simps [of offset buf] chunks.simps [of _ "[]"])
  next
    case False
    with 1 show ?thesis by (cases "buf = []") (simp_all add: chunks.simps [of offset buf] min_def)
  qed
qed

text \<open>C19. Sending stream data writes exactly the reference frames, all of them on success and a
  prefix of them otherwise. A receiver decodes them to data frames of the stream, none empty and none
  over the payload limit, at contiguous offsets from the given one, whose payloads are the data.\<close>

theorem send_spio_data_spec:
  "holds (send_spio_data fd stream_id offset buf w)
     (\<lambda>ok. extends (writes fd (data_frames stream_id offset buf) ok) w)
     (extends (writes fd (data_frames stream_id offset buf) False) w) \<and>
   (\<exists>cs. deframe (data_frames stream_id offset buf) = Some (map (\<lambda>(o', p). (SPIO_DATA, stream_id, o', p)) cs) \<and>
      concat (map snd cs) = buf \<and> contiguous offset cs \<and> list_all (\<lambda>(o', p). p \<noteq> [] \<and> length p \<le> MAX_FRAME_PAYLOAD) cs)"
  using addsD [OF adds_send_spio_data] deframe_data_frames chunks_payload chunks_contiguous chunks_bounds
  by (auto simp: list_all_iff intro!: exI [of _ "chunks offset buf"]) blast+

section \<open>Replies\<close>

text \<open>
  A reply ends with a timing event and an exit frame; \<open>replies\<close> relates the events of a trace
  to a message on the error stream, the exit code and whether everything was sent.
\<close>

definition exit_frame :: "int \<Rightarrow> bytes" where
  "exit_frame code = spio_frame SPIO_EXIT SPIO_CONTROL_STREAM 0 (write_le32 (word_of_int code))"

definition event_frame :: "bytes \<Rightarrow> bytes" where
  "event_frame text = spio_frame SPIO_EVENT SPIO_CONTROL_STREAM 0 text"

lemma adds_send_spio_exit:
  "adds (send_spio_exit fd code) (writes fd (exit_frame code)) (writes fd (exit_frame code) False)"
  unfolding send_spio_exit_def exit_frame_def by (rule adds_send_spio_frame) (simp add: MAX_FRAME_PAYLOAD_def)

definition replies :: "int \<Rightarrow> bytes \<Rightarrow> int \<Rightarrow> bool \<Rightarrow> event list \<Rightarrow> bool" where
  "replies fd message code ok tr \<longleftrightarrow>
     (\<exists>text. length text < 192 \<and> prefix (wire fd tr) (message @ event_frame text @ exit_frame code) \<and>
        (ok \<longrightarrow> wire fd tr = message @ event_frame text @ exit_frame code)) \<and>
     list_all (\<lambda>e. fst e = Clock \<or> (\<exists>bs. fst e = Write fd bs)) tr"

text \<open>The timing frame: a clock read, then the event unless the text does not fit.\<close>

definition sends_timing :: "int \<Rightarrow> bool \<Rightarrow> event list \<Rightarrow> bool" where
  "sends_timing fd ok tr \<longleftrightarrow>
     (\<exists>text. length text < 192 \<and> prefix (wire fd tr) (event_frame text) \<and> (ok \<longrightarrow> wire fd tr = event_frame text)) \<and>
     list_all (\<lambda>e. fst e = Clock \<or> (\<exists>bs. fst e = Write fd bs)) tr"

lemma adds_send_spio_timing_frame:
  "adds (send_spio_timing_frame fd) (sends_timing fd) (sends_timing fd False)"
proof -
  have idle: "sends_timing fd False []" "sends_timing fd False [(Clock, a)]" for a
    by (auto simp: sends_timing_def intro: exI [of _ "[]"])
  have send: "adds (send_spio_frame fd SPIO_EVENT SPIO_CONTROL_STREAM 0 msg)
      (\<lambda>ok tr. sends_timing fd ok ((Clock, a) # tr)) (\<lambda>tr. sends_timing fd False ((Clock, a) # tr))"
    if "length msg < 192" for msg a
    by (rule adds_mono [OF adds_send_spio_frame])
       (use that in \<open>auto simp: sends_timing_def event_frame_def writes_def writes_only_def list_all_iff MAX_FRAME_PAYLOAD_def\<close>)
  show ?thesis
    unfolding send_spio_timing_frame_def format_timing_def iob_assoc iob_ret
    by (intro adds_step) (auto intro!: send idle adds_ret split: option.split if_split)
qed

lemma writes_events: "writes fd buf ok tr \<Longrightarrow> list_all (\<lambda>e. fst e = Clock \<or> (\<exists>bs. fst e = Write fd bs)) tr"
  by (auto simp: writes_def writes_only_def list_all_iff)

lemma replies_start:
  assumes "writes fd message ok ms"
  shows "replies fd message code False ms"
  unfolding replies_def
proof
  have "prefix (wire fd ms) (message @ event_frame [] @ exit_frame code)"
    using assms by (auto simp: writes_def prefix_def)
  then show "\<exists>msg. length msg < 192 \<and> prefix (wire fd ms) (message @ event_frame msg @ exit_frame code) \<and>
      (False \<longrightarrow> wire fd ms = message @ event_frame msg @ exit_frame code)"
    by (intro exI [of _ "[]"]) simp
qed (rule writes_events [OF assms])

lemma replies_timing:
  assumes "writes fd message True ms" "sends_timing fd ok ts"
  shows "replies fd message code False (ms @ ts)"
  using assms(2) writes_events [OF assms(1)] assms(1)
  by (auto simp: replies_def sends_timing_def writes_def prefix_def)

lemma replies_exit:
  assumes "writes fd message True ms" "sends_timing fd True ts" "writes fd (exit_frame code) ok xs"
  shows "replies fd message code ok (ms @ ts @ xs)"
  using assms(2) writes_events [OF assms(1)] writes_events [OF assms(3)] assms(1,3)
  by (auto simp: replies_def sends_timing_def writes_def)

text \<open>The timing and exit frames after a message that has been sent.\<close>

lemma adds_exit_frames:
  assumes "writes fd message True ms"
  shows "adds (iob (send_spio_timing_frame fd) (\<lambda>ok. if \<not> ok then ret False else send_spio_exit fd code))
    (\<lambda>ok tr. replies fd message code ok (ms @ tr)) (\<lambda>tr. replies fd message code False (ms @ tr))"
proof (rule adds_iob [OF adds_send_spio_timing_frame])
  fix ok ts assume t: "sends_timing fd ok ts"
  show "adds (if \<not> ok then ret False else send_spio_exit fd code)
      (\<lambda>y xs. replies fd message code y (ms @ ts @ xs)) (\<lambda>xs. replies fd message code False (ms @ ts @ xs))"
  proof (cases ok)
    case True
    with t have "sends_timing fd True ts" by simp
    from replies_exit [OF assms this] True show ?thesis
      by simp (rule adds_mono [OF adds_send_spio_exit]; simp)
  qed (use replies_timing [OF assms t] in \<open>auto intro!: adds_ret\<close>)
qed (rule replies_timing [OF assms])


section \<open>The timing text fits\<close>

lemma length_dec_int: "- (10 ^ 14) < i \<Longrightarrow> i < 10 ^ 15 \<Longrightarrow> length (dec_int i) \<le> 15"
  using length_dec [of "nat (- i)" 14] length_dec [of "nat i" 15] by (auto simp: dec_int_def nat_less_iff)

text \<open>The times a timing frame shows, in milliseconds since the start or microseconds.\<close>

definition shown_times :: "i64 \<Rightarrow> world \<Rightarrow> int list" where
  "shown_times now w =
     map (\<lambda>t. sint (if t \<noteq> 0 then t - w_t_init_start w else - 1))
       [w_t_listen_ready w, w_t_request_accept w, w_t_request_decode w, w_t_command_start w, w_t_command_exit w, now] @
     [sint (w_t_command_user_us w), sint (w_t_command_system_us w)]"


definition idle_world :: "answer list \<Rightarrow> world" where
  "idle_world as = \<lparr>w_answers = as, w_trace = [], w_console_mirror = False, w_t_init_start = 0, w_t_listen_ready = 0,
     w_t_request_accept = 0, w_t_request_decode = 0, w_t_command_start = 0, w_t_command_exit = 0,
     w_t_command_user_us = - 1, w_t_command_system_us = - 1, w_mount_cleanup_poisoned = False,
     w_sigchld_pipe = (- 1, - 1), w_proc_dir_fd = - 1\<rparr>"


section \<open>Computations that only consume answers\<close>

lemma shrinks_send_spio_data_loop: "shrinks (send_spio_data_loop fd sid offset buf sent)"
proof (induction fd sid offset buf sent rule: send_spio_data_loop.induct)
  case (1 fd sid offset buf sent)
  then show ?case
    by (subst send_spio_data_loop.simps) (auto intro!: shrinks_intro split: cres.split)
qed

lemma shrinks_frames [shrinks_intro]:
  "shrinks (send_spio_data fd sid offset buf)" "shrinks (send_spio_frame fd type sid offset payload)"
  unfolding send_spio_data_def send_spio_frame_def by (intro shrinks_send_spio_data_loop shrinks_intro)+

lemma shrinks_timing [shrinks_intro]:
  "shrinks (send_spio_event fd event)" "shrinks (send_spio_exit fd code)" "shrinks (send_spio_timing_frame fd)"
  unfolding send_spio_event_def send_spio_exit_def send_spio_timing_frame_def format_timing_def by (intro shrinks_intro)+

lemma shrinks_client [shrinks_intro]:
  "shrinks (close_client c)" "shrinks (mirror_console is_stdout buf)" "shrinks (send_client_exit c code)"
  unfolding close_client_def mirror_console_def send_client_exit_def by (intro shrinks_intro)+

section \<open>Safety\<close>

lemma safe_frames [safe_step]:
  "(\<And>ok. Q ok) \<Longrightarrow> safe (send_spio_data fd sid offset buf) Q"
  "(\<And>ok. Q ok) \<Longrightarrow> safe (send_spio_frame fd type sid offset payload) Q"
proof -
  assume Q: "\<And>ok. Q ok"
  then show "safe (send_spio_data fd sid offset buf) Q" by (rule safeI [OF adds_send_spio_data])
  show "safe (send_spio_frame fd type sid offset payload) Q"
  proof (cases "length payload \<le> MAX_FRAME_PAYLOAD")
    case True
    from Q show ?thesis by (rule safeI [OF adds_send_spio_frame [OF True]])
  qed (use Q in \<open>simp add: send_spio_frame_def safe_basic\<close>)
qed

lemma safe_replies [safe_step]:
  "(\<And>ok. Q ok) \<Longrightarrow> safe (send_spio_event fd event) Q" "(\<And>ok. Q ok) \<Longrightarrow> safe (send_spio_exit fd code) Q"
  "(\<And>ok. Q ok) \<Longrightarrow> safe (send_spio_timing_frame fd) Q"
  unfolding send_spio_event_def send_spio_exit_def send_spio_timing_frame_def format_timing_def by (intro safe_step; simp)+

lemma safe_client [safe_step]:
  "(\<And>fd. fd < 0 \<Longrightarrow> Q (fresh_client fd)) \<Longrightarrow> safe (close_client c) Q"
  "R () \<Longrightarrow> safe (mirror_console is_stdout buf) R"
  "(\<And>ok. S ok) \<Longrightarrow> safe (send_client_exit c code) S"
  unfolding close_client_def mirror_console_def send_client_exit_def fresh_client_def by (intro safe_step; cases c; simp)+

lemma safe_send_client [safe_step]:
  "(\<And>ok. Q (ok, c)) \<Longrightarrow> (\<And>ok off. Q (ok, c\<lparr>c_stderr_offset := off\<rparr>)) \<Longrightarrow> safe (send_client_error_exit c code message) Q"
  "(\<And>ok. Q (ok, c)) \<Longrightarrow> (\<And>ok off. Q (ok, c\<lparr>c_stdout_offset := off\<rparr>)) \<Longrightarrow> safe (send_client_stdout c message) Q"
  unfolding send_client_error_exit_def send_client_stdout_def by (intro safe_step; auto intro!: safe_step)+

lemma read_le_defined:
  "2 \<le> length bs \<Longrightarrow> \<exists>v. read_le16 bs = Ok v" "4 \<le> length bs \<Longrightarrow> \<exists>v. read_le32 bs = Ok v" "8 \<le> length bs \<Longrightarrow> \<exists>v. read_le64 bs = Ok v"
  by (auto simp: read_le16_def read_le32_def read_le64_def rd_def upt_rec)

lemma header_fields_defined:
  assumes "length h = SPIO_HEADER_LEN"
  shows "header_fields h = Bad \<or> (\<exists>t sid off n. header_fields h = Ok (t, sid, off, n) \<and> unat n \<le> MAX_FRAME_PAYLOAD)"
proof -
  have len: "length h = 24" using assms by (simp add: SPIO_HEADER_LEN_def)
  obtain flags sid off n where "read_le16 (drop 6 h) = Ok flags" "read_le32 (drop 8 h) = Ok sid"
      "read_le64 (drop 12 h) = Ok off" "read_le32 (drop 20 h) = Ok n"
    using read_le_defined(1) [of "drop 6 h"] read_le_defined(2) [of "drop 8 h"] read_le_defined(3) [of "drop 12 h"]
      read_le_defined(2) [of "drop 20 h"] len by auto
  then show ?thesis using len by (auto simp: header_fields_def rd_def)
qed

lemma safe_read_spio_header_blocking [safe_step]:
  assumes "Q None" "\<And>t sid off n. unat n \<le> MAX_FRAME_PAYLOAD \<Longrightarrow> Q (Some (t, sid, off, n))"
  shows "safe (read_spio_header_blocking fd) Q"
  unfolding read_spio_header_blocking_def
proof (intro safe_step)
  fix bs :: bytes and header
  assume "length bs = SPIO_HEADER_LEN" "Some bs = Some header"
  with header_fields_defined [of header] assms show "safe (lift_cres (header_fields header)) Q"
    by (auto simp: lift_cres_def intro!: safe_step)
qed (use assms in auto)

end
