(* ===== verification/Session.thy ===== *)
theory Session
  imports Sandbox Replay Spio
begin

text \<open>
  The session of \<^verbatim>\<open>agent.h\<close> and \<^verbatim>\<open>session.c\<close>: starting a command with its pipes or terminal, its cgroup,
  the lookup of its executable, and the reaping of children. A forked child is the run in which
  \<^verbatim>\<open>fork\<close> answers zero; a successful \<^verbatim>\<open>execve\<close> does not return. The pending input buffers are held by
  their contents, whose length is \<^verbatim>\<open>stdin_pending_len\<close> or \<^verbatim>\<open>terminal_pending_len\<close>.
\<close>

section \<open>State\<close>

record session =
  s_started :: bool
  s_exited :: bool
  s_memory_pressure_fd :: int
  s_build_run_isolation :: bool
  s_cgroup_path :: bytes
  s_session_id :: bytes
  s_pid :: int
  s_stdout_fd :: int
  s_stderr_fd :: int
  s_stdin_fd :: int
  s_terminal_fd :: int
  s_stdout_open :: bool
  s_stderr_open :: bool
  s_stdin_open :: bool
  s_stdin_capable :: bool
  s_stdin_close_pending :: bool
  s_tty :: bool
  s_terminal_close_pending :: bool
  s_exit_code :: int
  s_setup_error :: bytes
  s_stdout_offset :: u64
  s_stderr_offset :: u64
  s_stdin_offset :: u64
  s_terminal_offset :: u64
  s_terminal_input_offset :: u64
  s_stdin_pending :: bytes
  s_stdin_pending_off :: nat
  s_terminal_pending :: bytes
  s_terminal_pending_off :: nat
  s_stdout_replay :: replay_buffer
  s_stderr_replay :: replay_buffer

definition zero_session :: session where
  "zero_session = \<lparr>s_started = False, s_exited = False, s_memory_pressure_fd = 0, s_build_run_isolation = False,
     s_cgroup_path = [], s_session_id = [], s_pid = 0, s_stdout_fd = 0, s_stderr_fd = 0, s_stdin_fd = 0, s_terminal_fd = 0,
     s_stdout_open = False, s_stderr_open = False, s_stdin_open = False, s_stdin_capable = False,
     s_stdin_close_pending = False, s_tty = False, s_terminal_close_pending = False, s_exit_code = 0, s_setup_error = [],
     s_stdout_offset = 0, s_stderr_offset = 0, s_stdin_offset = 0, s_terminal_offset = 0, s_terminal_input_offset = 0,
     s_stdin_pending = [], s_stdin_pending_off = 0, s_terminal_pending = [], s_terminal_pending_off = 0,
     s_stdout_replay = empty_ring REPLAY_CAP, s_stderr_replay = empty_ring REPLAY_CAP\<rparr>"

datatype exec_lookup_mode = EXEC_LOOKUP_EXACT | EXEC_LOOKUP_PATH

record session_start_options =
  o_use_rootfs :: bool
  o_memory_pressure :: bool
  o_build_run_isolation :: bool
  o_exec_lookup :: exec_lookup_mode
  o_nofile_soft :: u64
  o_nofile_hard :: u64
  o_stdin_enabled :: bool
  o_tty :: bool
  o_terminal_rows :: u16
  o_terminal_cols :: u16

section \<open>The session's cgroup\<close>

definition cgroup_child_path :: "nat \<Rightarrow> bytes \<Rightarrow> bytes \<Rightarrow> bytes option" where
  "cgroup_child_path out_len dir file =
     (let p = dir @ lit ''/'' @ file in if length p < out_len then Some p else None)"

definition close_session_cgroup :: "session \<Rightarrow> session io" where
  "close_session_cgroup session =
     iob (if s_memory_pressure_fd session \<ge> 0
          then iob (sys_close (s_memory_pressure_fd session)) (\<lambda>_. ret (session\<lparr>s_memory_pressure_fd := - 1\<rparr>))
          else ret session) (\<lambda>session.
     if s_cgroup_path session \<noteq> [] then
       iob (sys_num ''rmdir'' [] [s_cgroup_path session]) (\<lambda>r.
       case r of
         Inr _ \<Rightarrow> ret (session\<lparr>s_cgroup_path := []\<rparr>)
       | Inl e \<Rightarrow> if e = ENOENT then ret (session\<lparr>s_cgroup_path := []\<rparr>) else ret session)
     else ret session)"

definition session_cgroup_setup_error :: "session \<Rightarrow> bytes \<Rightarrow> (bool \<times> session) io" where
  "session_cgroup_setup_error session step =
     iob stale_errno (\<lambda>e.
     let msg = snprintf 256 (lit ''spore build: RUN cgroup setup failed: '' @ step @ lit '' errno='' @ dec e @ [10]) in
     iob (dprintf 2 msg) (\<lambda>_. ret (False, session\<lparr>s_setup_error := msg\<rparr>)))"

definition memory_high_step_bytes :: u64 where "memory_high_step_bytes = 1073741824"

definition memory_high_limit :: bytes where "memory_high_limit = lit ''268435456'' @ [10]"

text \<open>A file of the session's cgroup is written; the path or the write may fail.\<close>

definition write_cgroup_file :: "session \<Rightarrow> bytes \<Rightarrow> bytes \<Rightarrow> bool io" where
  "write_cgroup_file session file msg =
     (case cgroup_child_path 192 (s_cgroup_path session) file of
        None \<Rightarrow> ret False
      | Some path \<Rightarrow> write_text_file path msg)"

definition setup_session_cgroup :: "session \<Rightarrow> int \<Rightarrow> bool \<Rightarrow> (bool \<times> session) io" where
  "setup_session_cgroup session pid memory_pressure =
     iob (if memory_pressure then write_text_file (lit ''/sys/fs/cgroup/cgroup.subtree_control'') (lit ''+memory'' @ [10])
          else ret True) (\<lambda>ok.
     if \<not> ok then session_cgroup_setup_error session (lit ''enable memory controller'')
     else
       let path = lit ''/sys/fs/cgroup/spore-run-'' @ dec_int pid; session = session\<lparr>s_cgroup_path := snprintf 128 path\<rparr> in
       if length path \<ge> 128 then session_cgroup_setup_error session (lit ''format cgroup path'')
       else iob (sys_num ''mkdir'' [0x1ed] [s_cgroup_path session]) (\<lambda>r.
         if r \<noteq> Inr 0 then session_cgroup_setup_error session (lit ''create cgroup'')
         else iob (if memory_pressure then write_cgroup_file session (lit ''memory.high'') memory_high_limit else ret True) (\<lambda>ok.
           if \<not> ok then session_cgroup_setup_error session (lit ''set high limit'')
           else iob (case cgroup_child_path 192 (s_cgroup_path session) (lit ''cgroup.procs'') of
                       None \<Rightarrow> ret False | Some path \<Rightarrow> write_pid_file path pid) (\<lambda>ok.
             if \<not> ok then session_cgroup_setup_error session (lit ''move process'')
             else iob (if s_build_run_isolation session then spore_build_run_sandbox_attach_device_policy (s_cgroup_path session) 192
                       else ret (Inr ())) (\<lambda>r.
               case r of
                 Inl sandbox_error \<Rightarrow>
                   iob (dprintf 2 (sandbox_error @ [10])) (\<lambda>_.
                   ret (False, session\<lparr>s_setup_error := snprintf 256 (sandbox_error @ [10])\<rparr>))
               | Inr _ \<Rightarrow>
                   if \<not> memory_pressure then ret (True, session)
                   else (case cgroup_child_path 192 (s_cgroup_path session) (lit ''memory.events'') of
                       None \<Rightarrow> session_cgroup_setup_error session (lit ''format events path'')
                     | Some path \<Rightarrow>
                         iob (sys_num ''open'' [O_RDONLY OR O_CLOEXEC OR O_NONBLOCK] [path]) (\<lambda>r.
                         case r of
                           Inl e \<Rightarrow> session_cgroup_setup_error (session\<lparr>s_memory_pressure_fd := - 1\<rparr>) (lit ''open events'')
                         | Inr fd \<Rightarrow> iob (sys_read fd 256) (\<lambda>_. ret (True, session\<lparr>s_memory_pressure_fd := fd\<rparr>)))))))))"

text \<open>Reads and waits repeated while interrupted.\<close>

function read_retry :: "int \<Rightarrow> nat \<Rightarrow> bytes sysret io" where
  "read_retry fd n w =
     iob (sys_read fd n) (\<lambda>r w'. if r = Inl EINTR then read_retry fd n w' else ret r w') w"
  by pat_completeness auto
termination
  by (relation "measure (\<lambda>(fd, n, w). length (w_answers w))") (auto dest: calls_less)

declare read_retry.simps [simp del]

function wait_child_blocking :: "int \<Rightarrow> unit io" where
  "wait_child_blocking pid w =
     iob (sys_wait pid False) (\<lambda>r w'. if r = Inl EINTR then wait_child_blocking pid w' else ret () w') w"
  by pat_completeness auto
termination
  by (relation "measure (\<lambda>(pid, w). length (w_answers w))") (auto dest: calls_less)

declare wait_child_blocking.simps [simp del]

text \<open>Whether the cgroup has processes; \<open>None\<close> is an error.\<close>

definition session_cgroup_populated :: "session \<Rightarrow> bool option io" where
  "session_cgroup_populated session =
     (case cgroup_child_path 192 (s_cgroup_path session) (lit ''cgroup.procs'') of
        None \<Rightarrow> ret None
      | Some path \<Rightarrow>
          iob (sys_num ''open'' [O_RDONLY OR O_CLOEXEC] [path]) (\<lambda>r.
          case r of
            Inl e \<Rightarrow> ret None
          | Inr fd \<Rightarrow>
              iob (read_retry fd 1) (\<lambda>n.
              iob (sys_close fd) (\<lambda>_.
              case n of Inl e \<Rightarrow> ret None | Inr bs \<Rightarrow> ret (Some (bs \<noteq> []))))))"

lemma shrinks_read_retry [shrinks_intro]: "shrinks (read_retry fd n)"
proof -
  have "length (w_answers w') \<le> length (w_answers w)" if "read_retry fd n w = (Ret x, w')" for x w w'
    using that
  proof (induction fd n w rule: read_retry.induct)
    case (1 fd n w)
    from "1.prems" obtain r w1 where r: "sys_read fd n w = (Ret r, w1)"
        "(if r = Inl EINTR then read_retry fd n w1 else ret r w1) = (Ret x, w')"
      by (subst (asm) read_retry.simps) (auto simp: iob_eq_Ret)
    with calls_less(1) [OF r(1)] "1.IH" [OF r(1)] show ?case
      by (auto simp: ret_def split: if_split_asm)
  qed
  then show ?thesis by (simp add: shrinks_def)
qed

lemma shrinks_session_cgroup_populated [shrinks_intro]: "shrinks (session_cgroup_populated session)"
  unfolding session_cgroup_populated_def by (auto intro!: shrinks_intro split: option.split sum.split)

text \<open>Waits for the cgroup to empty, at most until the deadline.\<close>

function wait_cgroup_empty :: "session \<Rightarrow> i64 \<Rightarrow> bool io" where
  "wait_cgroup_empty session deadline w =
     iob (session_cgroup_populated session) (\<lambda>populated w1.
       if populated = Some False then ret True w1
       else if populated = None then ret False w1
       else iob now_ms (\<lambda>now w2.
         if sint now \<ge> sint deadline then ret False w2
         else iob (sys_num ''usleep'' [1000] []) (\<lambda>_ w3. wait_cgroup_empty session deadline w3) w2) w1) w"
  by pat_completeness auto
termination
  by (relation "measure (\<lambda>(session, deadline, w). length (w_answers w))")
     (auto dest!: calls_less shrinksD [OF shrinks_now_ms] shrinksD [OF shrinks_session_cgroup_populated])

declare wait_cgroup_empty.simps [simp del]

definition kill_process :: "int \<Rightarrow> unit io" where
  "kill_process pid = iob (sys_num ''kill'' [pid, 9] []) (\<lambda>_. ret ())"

definition abort_session_cgroup_setup :: "session \<Rightarrow> int \<Rightarrow> (bool \<times> session) io" where
  "abort_session_cgroup_setup session pid =
     iob (if s_cgroup_path session \<noteq> [] then
            iob (write_cgroup_file session (lit ''cgroup.kill'') (lit ''1'' @ [10])) (\<lambda>ok. if ok then ret () else kill_process pid)
          else kill_process pid) (\<lambda>_.
     iob (wait_child_blocking pid) (\<lambda>_.
     iob (if s_cgroup_path session \<noteq> [] then iob now_ms (\<lambda>now. wait_cgroup_empty session (now + 5000)) else ret True) (\<lambda>ok.
     if \<not> ok then ret (False, session)
     else iob (close_session_cgroup session) (\<lambda>session. ret (s_cgroup_path session = [], session)))))"

definition drain_memory_pressure_events :: "session \<Rightarrow> unit io" where
  "drain_memory_pressure_events session =
     iob (sys_num ''lseek'' [s_memory_pressure_fd session, 0, 0] []) (\<lambda>_.
     iob (sys_read (s_memory_pressure_fd session) 256) (\<lambda>_. ret ()))"

definition rearm_memory_pressure_limit :: "session \<Rightarrow> bool io" where
  "rearm_memory_pressure_limit session =
     (case cgroup_child_path 192 (s_cgroup_path session) (lit ''memory.current'') of
        None \<Rightarrow> ret False
      | Some path \<Rightarrow>
          iob (read_u64_file path) (\<lambda>r.
          case r of
            None \<Rightarrow> ret False
          | Some current \<Rightarrow>
              let next' = current + memory_high_step_bytes in
              if next' < current then ret False
              else (case cgroup_child_path 192 (s_cgroup_path session) (lit ''memory.high'') of
                  None \<Rightarrow> ret False
                | Some path \<Rightarrow>
                    let limit = dec (unat next') @ [10] in
                    if length limit \<ge> 32 then ret False else write_text_file path limit)))"

section \<open>Children\<close>

datatype wait_result = Reaped wstatus rusage | StillRunning | WaitFailed

function wait_child :: "int \<Rightarrow> wait_result io" where
  "wait_child pid w =
     iob (sys_wait pid True) (\<lambda>r w'.
       case r of
         Inr (p, status, usage) \<Rightarrow> ret (if p = pid then Reaped status usage else if p = 0 then StillRunning else WaitFailed) w'
       | Inl e \<Rightarrow> if e = EINTR then wait_child pid w' else ret WaitFailed w') w"
  by pat_completeness auto
termination
  by (relation "measure (\<lambda>(pid, w). length (w_answers w))") (auto dest: calls_less)

declare wait_child.simps [simp del]

function reap_exited_children :: "unit io" where
  "reap_exited_children w =
     iob (sys_wait (- 1) True) (\<lambda>r w'.
       case r of
         Inr (p, status, usage) \<Rightarrow> if p > 0 then reap_exited_children w' else ret () w'
       | Inl e \<Rightarrow> if e = EINTR then reap_exited_children w' else ret () w') w"
  by pat_completeness auto
termination
  by (relation "measure (\<lambda>w. length (w_answers w))") (auto dest: calls_less)

declare reap_exited_children.simps [simp del]

definition sigchld_handler :: "unit io" where
  "sigchld_handler =
     iob (gets w_sigchld_pipe) (\<lambda>p.
     if snd p \<ge> 0 then iob (sys_write (snd p) [1]) (\<lambda>_. ret ()) else ret ())"

definition setup_sigchld_wakeup :: "bool io" where
  "setup_sigchld_wakeup =
     iob (sys_pipe2 (O_CLOEXEC OR O_NONBLOCK)) (\<lambda>r.
     case r of
       Inl e \<Rightarrow> ret False
     | Inr p \<Rightarrow>
         iob (modify (\<lambda>w. w\<lparr>w_sigchld_pipe := p\<rparr>)) (\<lambda>_.
         iob (sys_num ''sigaction_sigchld'' [] []) (\<lambda>r. ret (r = Inr 0))))"

function drain_sigchld_wakeup :: "unit io" where
  "drain_sigchld_wakeup w =
     iob (sys_read (fst (w_sigchld_pipe w)) 32) (\<lambda>r w'.
       case r of Inr bs \<Rightarrow> if bs \<noteq> [] then drain_sigchld_wakeup w' else ret () w' | Inl e \<Rightarrow> ret () w') w"
  by pat_completeness auto
termination
  by (relation "measure (\<lambda>w. length (w_answers w))") (auto dest: calls_less)

declare drain_sigchld_wakeup.simps [simp del]

section \<open>Terminals\<close>

definition apply_terminal_size :: "int \<Rightarrow> u16 \<Rightarrow> u16 \<Rightarrow> bool io" where
  "apply_terminal_size fd rows cols =
     iob (sys_num ''ioctl_TIOCSWINSZ'' [fd, uint rows, uint cols] []) (\<lambda>r. ret (r = Inr 0))"

fun close_fds :: "int list \<Rightarrow> unit io" where
  "close_fds [] = ret ()"
| "close_fds (fd # fds) = iob (sys_close fd) (\<lambda>_. close_fds fds)"

definition open_session_pty :: "u16 \<Rightarrow> u16 \<Rightarrow> (int \<times> int) option io" where
  "open_session_pty rows cols =
     iob (sys_num ''posix_openpt'' [0x80102] []) (\<lambda>r.
     case r of
       Inl e \<Rightarrow> ret None
     | Inr master \<Rightarrow>
         iob (iob (sys_num ''grantpt'' [master] []) (\<lambda>r.
              if r \<noteq> Inr 0 then ret False else iob (sys_num ''unlockpt'' [master] []) (\<lambda>r. ret (r = Inr 0)))) (\<lambda>ok.
         if \<not> ok then iob (close_fds [master]) (\<lambda>_. ret None)
         else iob (sys_data ''ptsname'' 64 [master] []) (\<lambda>r.
           case r of
             Inl e \<Rightarrow> iob (close_fds [master]) (\<lambda>_. ret None)
           | Inr slave_path \<Rightarrow>
               iob (sys_num ''open'' [0x80102] [slave_path]) (\<lambda>r.
               case r of
                 Inl e \<Rightarrow> iob (close_fds [master]) (\<lambda>_. ret None)
               | Inr slave \<Rightarrow>
                   iob (set_nonblock master) (\<lambda>ok.
                   if \<not> ok then iob (close_fds [slave, master]) (\<lambda>_. ret None)
                   else iob (apply_terminal_size slave rows cols) (\<lambda>_. ret (Some (master, slave))))))))"

section \<open>Finding the executable\<close>

definition exec_failure_code :: "errno \<Rightarrow> nat" where
  "exec_failure_code err = (if err = ENOENT \<or> err = ENOTDIR then 127 else 126)"

definition MAX_EXEC_PATH_LEN :: nat where "MAX_EXEC_PATH_LEN = 250"

definition MAX_EXEC_PATH_ENTRIES :: nat where "MAX_EXEC_PATH_ENTRIES = 64"

definition MAX_EXEC_CANDIDATE_LEN :: nat where "MAX_EXEC_CANDIDATE_LEN = 512"

fun env_value :: "bytes list \<Rightarrow> bytes \<Rightarrow> bytes option" where
  "env_value [] name = None"
| "env_value (e # envp) name =
     (if prefix (name @ lit ''='') e then Some (drop (length name + 1) e) else env_value envp name)"

fun path_entries :: "bytes \<Rightarrow> bytes list" where
  "path_entries [] = [[]]"
| "path_entries (c # cs) =
     (if c = of_char (CHR '':'') then [] # path_entries cs
      else (case path_entries cs of e # es \<Rightarrow> (c # e) # es | [] \<Rightarrow> [[c]]))"

definition S_ISREG :: "int \<Rightarrow> bool" where
  "S_ISREG mode \<longleftrightarrow> mode AND 0xF000 = 0x8000"

fun resolve_entries :: "bytes \<Rightarrow> nat \<Rightarrow> bytes list \<Rightarrow> (errno + bytes) io" where
  "resolve_entries command cap [] = ret (Inl ENOENT)"
| "resolve_entries command cap (entry # rest) =
     (let dir = (if entry = [] then lit ''.'' else entry) in
      if length dir + 1 + length command + 1 > MAX_EXEC_CANDIDATE_LEN \<or> length dir + 1 + length command + 1 > cap then ret (Inl ENAMETOOLONG)
      else
        let executable = dir @ lit ''/'' @ command in
        iob (iob (sys_num ''stat'' [] [executable]) (\<lambda>st.
             case st of
               Inl e \<Rightarrow> ret False
             | Inr mode \<Rightarrow> if \<not> S_ISREG mode then ret False else iob (sys_num ''access'' [1] [executable]) (\<lambda>r. ret (r = Inr 0)))) (\<lambda>ok.
        if ok then ret (if hd dir \<noteq> of_char (CHR ''/'') then Inl 13 else Inr executable)
        else resolve_entries command cap rest))"

definition resolve_exec_path :: "bytes \<Rightarrow> bytes option \<Rightarrow> nat \<Rightarrow> (errno + bytes) io" where
  "resolve_exec_path command path executable_cap =
     (case path of
        None \<Rightarrow> ret (Inl ENOENT)
      | Some p \<Rightarrow>
          if p = [] then ret (Inl ENOENT)
          else if length p > MAX_EXEC_PATH_LEN then ret (Inl ENAMETOOLONG)
          else if length (path_entries p) > MAX_EXEC_PATH_ENTRIES then ret (Inl 7)
          else resolve_entries command executable_cap (path_entries p))"

text \<open>A successful \<^verbatim>\<open>execve\<close> never returns.\<close>

definition execve :: "bytes \<Rightarrow> bytes list \<Rightarrow> bytes list \<Rightarrow> errno io" where
  "execve executable argv envp =
     iob (sys_num ''execve'' [int (length argv), int (length envp)] (executable # argv @ envp)) (\<lambda>r.
     case r of Inr _ \<Rightarrow> block | Inl e \<Rightarrow> ret e)"

definition execve_or_report :: "bytes list \<Rightarrow> bytes list \<Rightarrow> bool \<Rightarrow> int \<Rightarrow> exec_lookup_mode \<Rightarrow> 'a io" where
  "execve_or_report argv envp use_rootfs failure_fd exec_lookup =
     (case argv of
        [] \<Rightarrow> undef
      | command # _ \<Rightarrow>
          iob (if exec_lookup = EXEC_LOOKUP_PATH \<and> of_char (CHR ''/'') \<notin> set command then
                 iob (resolve_exec_path command (env_value envp (lit ''PATH'')) MAX_EXEC_CANDIDATE_LEN) (\<lambda>r.
                 case r of Inl e \<Rightarrow> ret e | Inr executable \<Rightarrow> execve executable argv envp)
               else execve command argv envp) (\<lambda>err.
          iob (if \<not> use_rootfs \<and> (err = ENOENT \<or> err = ENOTDIR) then
                 dprintf 2 (lit ''spore run: initrd cannot execute '' @ command @
                   lit '': not found; use --image, --rootfs, or provide an initrd containing the command'' @ [10])
               else
                 iob (sys_data ''strerror'' 64 [int err] []) (\<lambda>r.
                 dprintf 2 (lit ''spore run: exec '' @ command @ lit '' failed: '' @ (case r of Inr t \<Rightarrow> t | Inl _ \<Rightarrow> []) @ [10]))) (\<lambda>_.
          iob (if failure_fd \<ge> 0 then iob (write_all failure_fd (lit ''!'')) (\<lambda>_. ret ()) else ret ()) (\<lambda>_.
          exit_process (exec_failure_code err)))))"

section \<open>Starting a session\<close>

definition setup_error_bytes :: "bytes \<Rightarrow> bytes" where
  "setup_error_bytes message =
     (let msg = message @ [10] in
      if length msg < 255 then 0 # msg else 0 # take 254 msg @ [0])"

definition exit_session_setup_error :: "int \<Rightarrow> bytes \<Rightarrow> 'a io" where
  "exit_session_setup_error ready_fd message =
     iob (write_all ready_fd (setup_error_bytes message)) (\<lambda>_.
     iob (sys_close ready_fd) (\<lambda>_. exit_process 126))"

definition exit_session_setup_errno :: "int \<Rightarrow> bytes \<Rightarrow> errno \<Rightarrow> 'a io" where
  "exit_session_setup_errno ready_fd step e =
     exit_session_setup_error ready_fd
       (snprintf 192 (lit ''spore build: RUN sandbox setup failed: '' @ step @ lit '' errno='' @ dec e))"

fun close_open :: "int list \<Rightarrow> unit io" where
  "close_open [] = ret ()"
| "close_open (fd # fds) = (if fd \<ge> 0 then iob (sys_close fd) (\<lambda>_. close_open fds) else close_open fds)"

definition set_command_exit :: "unit io" where
  "set_command_exit = iob now_ms (\<lambda>t. modify (\<lambda>w. w\<lparr>w_t_command_exit := t\<rparr>))"

definition start_failed :: "int list \<Rightarrow> session \<Rightarrow> (int \<times> session) io" where
  "start_failed fds session = iob (close_open fds) (\<lambda>_. iob set_command_exit (\<lambda>_. ret (127, session)))"

definition dup2_or_exit :: "int \<Rightarrow> int \<Rightarrow> unit io" where
  "dup2_or_exit old new =
     iob (sys_num ''dup2'' [old, new] []) (\<lambda>r. case r of Inl e \<Rightarrow> exit_process 127 | Inr _ \<Rightarrow> ret ())"

record start_pipes =
  p_stdin :: "int \<times> int"
  p_stdout :: "int \<times> int"
  p_stderr :: "int \<times> int"
  p_master :: int
  p_slave :: int
  p_start :: "int \<times> int"
  p_ready :: "int \<times> int"

text \<open>The child's standard descriptors.\<close>

definition child_stdio :: "start_pipes \<Rightarrow> session_start_options \<Rightarrow> unit io" where
  "child_stdio p options =
     iob (if o_tty options then
            iob (sys_num ''setsid'' [] []) (\<lambda>r.
            case r of
              Inl e \<Rightarrow> exit_process 127
            | Inr _ \<Rightarrow>
                iob (sys_num ''ioctl_TIOCSCTTY'' [p_slave p] []) (\<lambda>_.
                iob (dup2_or_exit (p_slave p) 0) (\<lambda>_. iob (dup2_or_exit (p_slave p) 1) (\<lambda>_.
                iob (dup2_or_exit (p_slave p) 2) (\<lambda>_. close_fds [p_slave p])))))
          else if o_stdin_enabled options then
            iob (dup2_or_exit (fst (p_stdin p)) 0) (\<lambda>_. close_fds [fst (p_stdin p)])
          else
            iob (sys_num ''open'' [O_RDONLY OR O_CLOEXEC] [lit ''/dev/null'']) (\<lambda>r.
            case r of
              Inl e \<Rightarrow> exit_process 127
            | Inr null_fd \<Rightarrow> iob (dup2_or_exit null_fd 0) (\<lambda>_. close_fds [null_fd]))) (\<lambda>_.
     if \<not> o_tty options then
       iob (dup2_or_exit (snd (p_stdout p)) 1) (\<lambda>_. iob (dup2_or_exit (snd (p_stderr p)) 2) (\<lambda>_.
       close_fds [snd (p_stdout p), snd (p_stderr p)]))
     else ret ())"

definition start_child :: "machine \<Rightarrow> nat \<Rightarrow> start_pipes \<Rightarrow> bytes list \<Rightarrow> bytes list \<Rightarrow> bytes \<Rightarrow> session_start_options \<Rightarrow> 'a io" where
  "start_child m cap_last p argv envp working_dir options =
     iob (close_fds [snd (p_start p), fst (p_ready p)]) (\<lambda>_.
     iob (read_retry (fst (p_start p)) 1) (\<lambda>r.
     if r \<noteq> Inr [1] then exit_process 127
     else iob (if o_nofile_hard options \<noteq> 0 then
                 iob (sys_num ''setrlimit_nofile'' [uint (o_nofile_soft options), uint (o_nofile_hard options)] []) (\<lambda>r.
                 case r of Inl e \<Rightarrow> exit_session_setup_errno (snd (p_ready p)) (lit ''set nofile limit'') e | Inr _ \<Rightarrow> ret ())
               else ret ()) (\<lambda>_.
       iob (close_fds [fst (p_start p)]) (\<lambda>_.
       iob (close_open [snd (p_stdin p), p_master p, fst (p_stdout p), fst (p_stderr p)]) (\<lambda>_.
       iob (child_stdio p options) (\<lambda>_.
       iob (if o_build_run_isolation options then
              (if \<not> o_use_rootfs options then
                 exit_session_setup_error (snd (p_ready p)) (lit ''spore build: RUN sandbox requires a rootfs'')
               else iob (spore_build_run_sandbox_enter m cap_last (lit ''/mnt/rootfs'') (snd (p_ready p)) 192) (\<lambda>r.
                 case r of Inl sandbox_error \<Rightarrow> exit_session_setup_error (snd (p_ready p)) sandbox_error | Inr _ \<Rightarrow> ret ()))
            else if o_use_rootfs options then
              iob (sys_num ''chroot'' [] [lit ''/mnt/rootfs'']) (\<lambda>r. case r of Inl e \<Rightarrow> exit_process 126 | Inr _ \<Rightarrow> ret ())
            else ret ()) (\<lambda>_.
       iob (sys_num ''chdir'' [] [if working_dir \<noteq> [] then working_dir else lit ''/'']) (\<lambda>r.
       case r of
         Inl e \<Rightarrow> exit_session_setup_errno (snd (p_ready p)) (lit ''enter working directory'') e
       | Inr _ \<Rightarrow>
           iob (write_all (snd (p_ready p)) [1]) (\<lambda>ok.
           if \<not> ok then exit_process 127
           else iob (close_fds [snd (p_ready p)]) (\<lambda>_.
             execve_or_report argv envp (o_use_rootfs options) (- 1) (o_exec_lookup options)))))))))))"

definition fail_closed_build_run_cleanup :: "bytes \<Rightarrow> 'a io" where
  "fail_closed_build_run_cleanup phase =
     iob (dprintf 2 (lit ''build RUN cleanup could not be verified: '' @ phase @ [10])) (\<lambda>_. exit_process 125)"

function poll_retry :: "(int \<times> u16) list \<Rightarrow> int \<Rightarrow> u16 list sysret io" where
  "poll_retry fds timeout w =
     iob (sys_poll fds timeout) (\<lambda>r w'. if r = Inl EINTR then poll_retry fds timeout w' else ret r w') w"
  by pat_completeness auto
termination
  by (relation "measure (\<lambda>(fds, timeout, w). length (w_answers w))") (auto dest: calls_less)

declare poll_retry.simps [simp del]

abbreviation (input) "POLLIN \<equiv> (1 :: u16)"
abbreviation (input) "POLLPRI \<equiv> (2 :: u16)"
abbreviation (input) "POLLOUT \<equiv> (4 :: u16)"
abbreviation (input) "POLLERR \<equiv> (8 :: u16)"
abbreviation (input) "POLLHUP \<equiv> (16 :: u16)"
abbreviation (input) "ETIMEDOUT \<equiv> (110 :: errno)"

text \<open>The child's report on the ready pipe, or the error of waiting for it.\<close>

definition read_ready :: "int \<Rightarrow> bool \<Rightarrow> bytes sysret io" where
  "read_ready fd build_run_isolation =
     (if build_run_isolation then
        iob (poll_retry [(fd, POLLIN OR POLLHUP OR POLLERR)] 5000) (\<lambda>r.
        case r of
          Inl e \<Rightarrow> ret (Inl e)
        | Inr revents \<Rightarrow> if \<exists>x \<in> set revents. x \<noteq> 0 then read_retry fd 255 else ret (Inl ETIMEDOUT))
      else read_retry fd 255)"

definition setup_error_of :: "bytes sysret \<Rightarrow> bytes \<Rightarrow> bytes" where
  "setup_error_of r old =
     (let msg = (case r of
          Inr (c # rest) \<Rightarrow> if rest \<noteq> [] \<and> c = 0 then takeWhile (\<lambda>b. b \<noteq> 0) (take 255 rest) else old
        | _ \<Rightarrow> old)
      in if msg = [] \<and> r = Inl ETIMEDOUT then lit ''spore build: RUN sandbox setup timed out'' @ [10] else msg)"

definition start_parent :: "start_pipes \<Rightarrow> session \<Rightarrow> int \<Rightarrow> bytes \<Rightarrow> session_start_options \<Rightarrow> (int \<times> session) io" where
  "start_parent p session pid session_id options =
     iob (iob (if o_memory_pressure options \<or> o_build_run_isolation options
               then setup_session_cgroup session pid (o_memory_pressure options) else ret (True, session)) (\<lambda>(ok, session).
          if \<not> ok then ret (False, session)
          else iob (write_all (snd (p_start p)) [1]) (\<lambda>ok. ret (ok, session)))) (\<lambda>(ok, session).
     let parent_fds = [snd (p_stdin p), p_master p, fst (p_stdout p), fst (p_stderr p)] in
     if \<not> ok then
       iob (close_fds [snd (p_start p), fst (p_ready p)]) (\<lambda>_.
       iob (abort_session_cgroup_setup session pid) (\<lambda>(cleaned, session).
       iob (close_open parent_fds) (\<lambda>_.
       if \<not> cleaned then fail_closed_build_run_cleanup (lit ''setup'')
       else iob set_command_exit (\<lambda>_. ret (127, session)))))
     else
       iob (close_fds [snd (p_start p)]) (\<lambda>_.
       iob (read_ready (fst (p_ready p)) (o_build_run_isolation options)) (\<lambda>r.
       iob (close_fds [fst (p_ready p)]) (\<lambda>_.
       if r \<noteq> Inr [1] then
         iob (abort_session_cgroup_setup session pid) (\<lambda>(cleaned, session).
         let session = session\<lparr>s_setup_error := setup_error_of r (s_setup_error session)\<rparr> in
         iob (close_open parent_fds) (\<lambda>_.
         if \<not> cleaned then fail_closed_build_run_cleanup (lit ''readiness'')
         else iob set_command_exit (\<lambda>_. ret (127, session))))
       else ret (0, session\<lparr>s_started := True, s_session_id := snprintf 64 session_id, s_pid := pid,
         s_stdin_fd := snd (p_stdin p), s_terminal_fd := p_master p,
         s_stdout_fd := (if o_tty options then p_master p else fst (p_stdout p)), s_stderr_fd := fst (p_stderr p),
         s_stdin_open := snd (p_stdin p) \<ge> 0, s_stdin_capable := o_stdin_enabled options, s_tty := o_tty options,
         s_stdout_open := (if o_tty options then p_master p \<ge> 0 else True), s_stderr_open := \<not> o_tty options\<rparr>)))))"

definition no_pipe :: "int \<times> int" where "no_pipe = (- 1, - 1)"

text \<open>The terminal, or the output pipes; \<open>None\<close> after a failure with everything closed again.\<close>

definition open_output :: "session_start_options \<Rightarrow> start_pipes option io" where
  "open_output options =
     (let p = \<lparr>p_stdin = no_pipe, p_stdout = no_pipe, p_stderr = no_pipe, p_master = - 1, p_slave = - 1, p_start = no_pipe, p_ready = no_pipe\<rparr> in
      if o_tty options then
        iob (open_session_pty (o_terminal_rows options) (o_terminal_cols options)) (\<lambda>r.
        case r of
          None \<Rightarrow> ret None
        | Some (master, slave) \<Rightarrow> ret (Some (p\<lparr>p_master := master, p_slave := slave\<rparr>)))
      else
        iob (sys_pipe2 O_CLOEXEC) (\<lambda>r.
        case r of
          Inl e \<Rightarrow> ret None
        | Inr out \<Rightarrow>
            iob (sys_pipe2 O_CLOEXEC) (\<lambda>r.
            case r of
              Inl e \<Rightarrow> iob (close_fds [fst out, snd out]) (\<lambda>_. ret None)
            | Inr err \<Rightarrow>
                iob (iob (set_nonblock (fst out)) (\<lambda>ok. if \<not> ok then ret False else set_nonblock (fst err))) (\<lambda>ok.
                if \<not> ok then iob (close_fds [fst out, snd out, fst err, snd err]) (\<lambda>_. ret None)
                else ret (Some (p\<lparr>p_stdout := out, p_stderr := err\<rparr>))))))"

definition output_fds :: "start_pipes \<Rightarrow> int list" where
  "output_fds p = [p_master p, p_slave p, fst (p_stdout p), snd (p_stdout p), fst (p_stderr p), snd (p_stderr p)]"

definition start_session :: "machine \<Rightarrow> nat \<Rightarrow> bytes \<Rightarrow> bytes list \<Rightarrow> bytes list \<Rightarrow> bytes \<Rightarrow> session_start_options \<Rightarrow> (int \<times> session) io" where
  "start_session m cap_last session_id argv envp working_dir options =
     (let session = zero_session\<lparr>s_memory_pressure_fd := - 1\<rparr> in
      iob now_ms (\<lambda>t.
      iob (modify (\<lambda>w. w\<lparr>w_t_command_start := t, w_t_command_exit := 0, w_t_command_user_us := - 1, w_t_command_system_us := - 1\<rparr>)) (\<lambda>_.
      iob (open_output options) (\<lambda>r.
      case r of
        None \<Rightarrow> start_failed [] session
      | Some p \<Rightarrow>
          iob (if o_stdin_enabled options then
                 iob (sys_pipe2 O_CLOEXEC) (\<lambda>r.
                 case r of
                   Inl e \<Rightarrow> iob (close_open (output_fds p)) (\<lambda>_. ret None)
                 | Inr sin \<Rightarrow>
                     iob (set_nonblock (snd sin)) (\<lambda>ok.
                     if \<not> ok then iob (close_fds [fst sin, snd sin]) (\<lambda>_. iob (close_open (output_fds p)) (\<lambda>_. ret None))
                     else ret (Some (p\<lparr>p_stdin := sin\<rparr>))))
               else ret (Some p)) (\<lambda>r.
          case r of
            None \<Rightarrow> start_failed [] session
          | Some p \<Rightarrow>
              iob (sys_pipe2 O_CLOEXEC) (\<lambda>r.
              case r of
                Inl e \<Rightarrow> start_failed ([fst (p_stdin p), snd (p_stdin p)] @ output_fds p) session
              | Inr start_pipe \<Rightarrow>
                  iob (sys_pipe2 O_CLOEXEC) (\<lambda>r.
                  case r of
                    Inl e \<Rightarrow> iob (close_fds [fst start_pipe, snd start_pipe]) (\<lambda>_.
                      start_failed ([fst (p_stdin p), snd (p_stdin p)] @ output_fds p) session)
                  | Inr ready_pipe \<Rightarrow>
                      let p = p\<lparr>p_start := start_pipe, p_ready := ready_pipe\<rparr> in
                      iob (sys_num ''fork'' [] []) (\<lambda>pid.
                      if pid = Inr 0 then start_child m cap_last p argv envp working_dir options
                      else
                        iob (close_open [fst (p_stdin p), p_slave p, snd (p_stdout p), snd (p_stderr p)]) (\<lambda>_.
                        iob (close_fds [fst start_pipe, snd ready_pipe]) (\<lambda>_.
                        case pid of
                          Inl e \<Rightarrow>
                            iob (close_fds [snd start_pipe, fst ready_pipe]) (\<lambda>_.
                            start_failed [snd (p_stdin p), p_master p, fst (p_stdout p), fst (p_stderr p)] session)
                        | Inr pid \<Rightarrow>
                            start_parent p (session\<lparr>s_build_run_isolation := o_build_run_isolation options\<rparr>) pid session_id options))))))))))"

section \<open>Well-formed sessions\<close>

text \<open>
  The pending buffers are within their arrays, the replay buffers end at the stream offsets, a stream
  that is open has a descriptor, and a terminal session writes and reads one descriptor.
\<close>

definition session_wf :: "session \<Rightarrow> bool" where
  "session_wf s \<longleftrightarrow>
     length (s_stdin_pending s) \<le> MAX_FRAME_PAYLOAD \<and> s_stdin_pending_off s \<le> length (s_stdin_pending s) \<and>
     length (s_terminal_pending s) \<le> MAX_FRAME_PAYLOAD \<and> s_terminal_pending_off s \<le> length (s_terminal_pending s) \<and>
     ring_wf REPLAY_CAP (s_stdout_replay s) \<and> ring_end (s_stdout_replay s) = s_stdout_offset s \<and>
     ring_wf REPLAY_CAP (s_stderr_replay s) \<and> ring_end (s_stderr_replay s) = s_stderr_offset s \<and>
     length (s_cgroup_path s) < 128 \<and> length (s_session_id s) < 64 \<and> length (s_setup_error s) < 256 \<and>
     (s_stdin_open s \<longrightarrow> s_stdin_fd s \<ge> 0) \<and> (s_stdout_open s \<longrightarrow> s_stdout_fd s \<ge> 0) \<and> (s_stderr_open s \<longrightarrow> s_stderr_fd s \<ge> 0) \<and>
     (s_tty s \<longrightarrow> \<not> s_stderr_open s \<and> (s_stdout_open s \<longrightarrow> s_terminal_fd s = s_stdout_fd s))"

text \<open>A session whose command is not running has no open stream; this is so between two calls.\<close>

definition session_quiet :: "session \<Rightarrow> bool" where
  "session_quiet s \<longleftrightarrow>
     (s_exited s \<or> \<not> s_started s \<longrightarrow> \<not> s_stdin_open s \<and> \<not> s_stdout_open s \<and> \<not> s_stderr_open s)"

lemma zero_session_wf: "session_wf (zero_session\<lparr>s_memory_pressure_fd := fd\<rparr>)"
  by (simp add: session_wf_def zero_session_def empty_replay)

lemma length_snprintf: "0 < cap \<Longrightarrow> length (snprintf cap msg) < cap"
  by (simp add: snprintf_def)

section \<open>Safety\<close>

lemma safe_close_fds [safe_step]: "Q () \<Longrightarrow> safe (close_fds fds) Q"
  by (induction fds) (auto intro!: safe_step)

lemma safe_close_open [safe_step]: "Q () \<Longrightarrow> safe (close_open fds) Q"
  by (induction fds) (auto intro!: safe_step)

lemma safe_read_retry [safe_step]:
  assumes "\<And>bs. length bs \<le> n \<Longrightarrow> Q (Inr bs)" "\<And>e. Q (Inl e)"
  shows "safe (read_retry fd n) Q"
proof (rule safe_loop [where I = "\<lambda>_. True" and f = "\<lambda>_ :: unit. read_retry fd n" and s = "()"], goal_cases)
  case (1 s w)
  from assms 1 show ?case
    by (subst read_retry.simps) (auto simp: holds_iob intro!: holds_read)
qed simp

lemma safe_poll_retry [safe_step]:
  assumes "\<And>rs. length rs = length fds \<Longrightarrow> Q (Inr rs)" "\<And>e. Q (Inl e)"
  shows "safe (poll_retry fds timeout) Q"
proof (rule safe_loop [where I = "\<lambda>_. True" and f = "\<lambda>_ :: unit. poll_retry fds timeout" and s = "()"], goal_cases)
  case (1 s w)
  from assms 1 show ?case
    by (subst poll_retry.simps) (auto simp: holds_iob intro!: holds_poll)
qed simp

lemma safe_wait_child_blocking [safe_step]:
  assumes "Q ()"
  shows "safe (wait_child_blocking pid) Q"
proof (rule safe_loop [where I = "\<lambda>_. True" and f = "\<lambda>_ :: unit. wait_child_blocking pid" and s = "()"], goal_cases)
  case (1 s w)
  from assms 1 show ?case
    by (subst wait_child_blocking.simps) (auto simp: holds_iob intro!: holds_wait)
qed simp

lemma safe_wait_child [safe_step]:
  assumes "\<And>r. Q r"
  shows "safe (wait_child pid) Q"
proof (rule safe_loop [where I = "\<lambda>_. True" and f = "\<lambda>_ :: unit. wait_child pid" and s = "()"], goal_cases)
  case (1 s w)
  from assms 1 show ?case
    by (subst wait_child.simps) (auto simp: holds_iob intro!: holds_wait)
qed simp

lemma safe_reap_exited_children [safe_step]:
  assumes "Q ()"
  shows "safe reap_exited_children Q"
proof (rule safe_loop [where I = "\<lambda>_. True" and f = "\<lambda>_ :: unit. reap_exited_children" and s = "()"], goal_cases)
  case (1 s w)
  from assms 1 show ?case
    by (subst reap_exited_children.simps) (auto simp: holds_iob intro!: holds_wait)
qed simp

lemma safe_drain_sigchld_wakeup [safe_step]:
  assumes "Q ()"
  shows "safe drain_sigchld_wakeup Q"
proof (rule safe_loop [where I = "\<lambda>_. True" and f = "\<lambda>_ :: unit. drain_sigchld_wakeup" and s = "()"], goal_cases)
  case (1 s w)
  from assms 1 show ?case
    by (subst drain_sigchld_wakeup.simps) (auto simp: holds_iob intro!: holds_read)
qed simp

lemma safe_session_cgroup_populated [safe_step]: "(\<And>r. Q r) \<Longrightarrow> safe (session_cgroup_populated s) Q"
  unfolding session_cgroup_populated_def by (intro safe_step)

lemma safe_wait_cgroup_empty [safe_step]:
  assumes Q: "\<And>r. Q r"
  shows "safe (wait_cgroup_empty s deadline) Q"
proof (rule safe_loop [where I = "\<lambda>_. True" and f = "\<lambda>_ :: unit. wait_cgroup_empty s deadline" and s = "()"], goal_cases)
  case (1 u w)
  have body: "holds (session_cgroup_populated s w) (\<lambda>p w1. length (w_answers w1) \<le> length (w_answers w)) (\<lambda>_. True)"
    for w using safeD [OF safe_session_cgroup_populated [of "\<lambda>_. True", OF TrueI, of s], of w]
    by (rule holds_mono) (auto dest: shrinksD [OF shrinks_session_cgroup_populated])
  have clock: "holds (now_ms w) (\<lambda>p w1. length (w_answers w1) \<le> length (w_answers w)) (\<lambda>_. True)" for w
    using safeD [OF safe_now_ms [of "\<lambda>_. True", OF TrueI], of w]
    by (rule holds_mono) (auto dest: shrinksD [OF shrinks_now_ms])
  have IH: "holds (wait_cgroup_empty s deadline (log c a w1)) (\<lambda>x _. True) (\<lambda>_. True)"
    if "w_answers w1 \<noteq> []" "length (w_answers w1) \<le> length (w_answers w2)" "length (w_answers w2) \<le> length (w_answers w)" for c a w1 w2
  proof -
    have "length (w_answers (log c a w1)) < length (w_answers w)" using that by (cases "w_answers w1") auto
    from 1(2) [OF this] show ?thesis by (simp add: Q)
  qed
  show ?case
    by (subst wait_cgroup_empty.simps, rule holds_bind [OF body])
       (auto simp: Q holds_iob intro!: holds_mono [OF clock] holds_num IH)
qed simp

end
