(* ===== verification/Session_Io.thy ===== *)
theory Session_Io
  imports Session
begin

text \<open>
  \<^verbatim>\<open>session_io.c\<close> and the two output functions of \<^verbatim>\<open>spio.c\<close> that need a session: replay and attach,
  the output pumps, the input drains, the frames of the client, the exit of the command and the
  memory pressure events. A function that changes the session and its client returns both. Where
  the code takes pointers to the fields of one of the two output streams, the model takes the flag
  \<open>is_stdout\<close> that selects them.
\<close>

section \<open>Streams\<close>

definition stream_fd :: "bool \<Rightarrow> session \<Rightarrow> int" where
  "stream_fd is_stdout s = (if is_stdout then s_stdout_fd s else s_stderr_fd s)"

definition stream_open :: "bool \<Rightarrow> session \<Rightarrow> bool" where
  "stream_open is_stdout s = (if is_stdout then s_stdout_open s else s_stderr_open s)"

definition stream_offset :: "bool \<Rightarrow> session \<Rightarrow> u64" where
  "stream_offset is_stdout s = (if is_stdout then s_stdout_offset s else s_stderr_offset s)"

definition stream_replay :: "bool \<Rightarrow> session \<Rightarrow> replay_buffer" where
  "stream_replay is_stdout s = (if is_stdout then s_stdout_replay s else s_stderr_replay s)"

definition client_offset :: "bool \<Rightarrow> client \<Rightarrow> u64" where
  "client_offset is_stdout c = (if is_stdout then c_stdout_offset c else c_stderr_offset c)"

definition set_client_offset :: "bool \<Rightarrow> u64 \<Rightarrow> client \<Rightarrow> client" where
  "set_client_offset is_stdout off c =
     (if is_stdout then c\<lparr>c_stdout_offset := off\<rparr> else c\<lparr>c_stderr_offset := off\<rparr>)"

definition set_stream :: "bool \<Rightarrow> u64 \<Rightarrow> replay_buffer \<Rightarrow> session \<Rightarrow> session" where
  "set_stream is_stdout off replay s =
     (if is_stdout then s\<lparr>s_stdout_offset := off, s_stdout_replay := replay\<rparr>
      else s\<lparr>s_stderr_offset := off, s_stderr_replay := replay\<rparr>)"

definition shut_stream :: "bool \<Rightarrow> session \<Rightarrow> session" where
  "shut_stream is_stdout s =
     (if is_stdout then s\<lparr>s_stdout_fd := - 1, s_stdout_open := False\<rparr>
      else s\<lparr>s_stderr_fd := - 1, s_stderr_open := False\<rparr>)"

definition stream_id :: "bool \<Rightarrow> u32" where
  "stream_id is_stdout = (if is_stdout then SPIO_STDOUT_STREAM else SPIO_STDERR_STREAM)"

section \<open>Finished and reset sessions\<close>

definition session_finished :: "session \<Rightarrow> bool" where
  "session_finished s \<longleftrightarrow> s_started s \<and> s_exited s \<and> \<not> s_stdout_open s \<and> \<not> s_stderr_open s"

definition closed_session :: session where
  "closed_session = zero_session\<lparr>s_stdout_fd := - 1, s_stderr_fd := - 1, s_stdin_fd := - 1, s_terminal_fd := - 1,
     s_memory_pressure_fd := - 1\<rparr>"

definition reset_session :: "session \<Rightarrow> session io" where
  "reset_session s =
     iob (close_session_cgroup s) (\<lambda>s.
     iob (close_open ([s_stdout_fd s, s_stderr_fd s, s_stdin_fd s] @
            (if s_terminal_fd s \<noteq> s_stdout_fd s then [s_terminal_fd s] else []))) (\<lambda>_.
     ret closed_session))"

section \<open>Input of the session\<close>

definition close_session_stdin :: "session \<Rightarrow> session io" where
  "close_session_stdin s =
     iob (if s_stdin_fd s \<ge> 0 then iob (sys_close (s_stdin_fd s)) (\<lambda>_. ret (s\<lparr>s_stdin_fd := - 1\<rparr>)) else ret s) (\<lambda>s.
     ret (s\<lparr>s_stdin_open := False, s_stdin_pending := [], s_stdin_pending_off := 0, s_stdin_close_pending := False\<rparr>))"

text \<open>The end of file character of a terminal.\<close>

definition close_session_terminal_input :: "session \<Rightarrow> session" where
  "close_session_terminal_input s =
     (if \<not> s_tty s then s
      else if s_terminal_pending s = [] then s\<lparr>s_terminal_pending := [4], s_terminal_pending_off := 0\<rparr>
      else s\<lparr>s_terminal_close_pending := True\<rparr>)"

text \<open>
  One turn of a write loop gives the next state, or whether the loop ended at its condition rather
  than by \<^verbatim>\<open>return\<close>.
\<close>

definition write_terminal_turn :: "session \<Rightarrow> (session + bool \<times> session) io" where
  "write_terminal_turn s =
     (if s_tty s \<and> s_terminal_fd s \<ge> 0 \<and> s_terminal_pending_off s < length (s_terminal_pending s) then
        iob (sys_write (s_terminal_fd s) (drop (s_terminal_pending_off s) (s_terminal_pending s))) (\<lambda>r.
        let lost = s\<lparr>s_terminal_pending := [], s_terminal_pending_off := 0, s_terminal_close_pending := False\<rparr> in
        case r of
          Inr n \<Rightarrow> if n > 0 then ret (Inl (s\<lparr>s_terminal_pending_off := s_terminal_pending_off s + n\<rparr>)) else ret (Inr (False, lost))
        | Inl e \<Rightarrow> if e = EINTR then ret (Inl s) else if e = EAGAIN then ret (Inr (False, s)) else ret (Inr (False, lost)))
      else ret (Inr (True, s)))"

lemma write_terminal_less:
  "write_terminal_turn s w = (Ret (Inl s'), w') \<Longrightarrow> length (w_answers w') < length (w_answers w)"
  unfolding write_terminal_turn_def Let_def
  by (auto simp: ret_def split: if_split_asm elim!: iob_calls_less intro!: shrinks_intro)

function write_terminal :: "session \<Rightarrow> (bool \<times> session) io" where
  "write_terminal s w =
     iob (write_terminal_turn s) (\<lambda>r w'. case r of Inl s' \<Rightarrow> write_terminal s' w' | Inr x \<Rightarrow> ret x w') w"
  by pat_completeness auto
termination
  by (relation "measure (\<lambda>(s, w). length (w_answers w))") (auto dest: write_terminal_less)

declare write_terminal.simps [simp del]

definition drain_session_terminal :: "session \<Rightarrow> session io" where
  "drain_session_terminal s =
     iob (write_terminal s) (\<lambda>(done, s).
     ret (if done \<and> s_terminal_pending_off s \<ge> length (s_terminal_pending s) then
            let s = s\<lparr>s_terminal_pending_off := 0, s_terminal_pending := []\<rparr> in
            if s_terminal_close_pending s then close_session_terminal_input (s\<lparr>s_terminal_close_pending := False\<rparr>) else s
          else s))"

definition write_stdin_turn :: "session \<Rightarrow> (session + bool \<times> session) io" where
  "write_stdin_turn s =
     (if s_stdin_open s \<and> s_stdin_pending_off s < length (s_stdin_pending s) then
        iob (sys_write (s_stdin_fd s) (drop (s_stdin_pending_off s) (s_stdin_pending s))) (\<lambda>r.
        let lost = iob (close_session_stdin s) (\<lambda>s. ret (Inr (False, s))) in
        case r of
          Inr n \<Rightarrow> if n > 0 then ret (Inl (s\<lparr>s_stdin_pending_off := s_stdin_pending_off s + n\<rparr>)) else lost
        | Inl e \<Rightarrow> if e = EINTR then ret (Inl s) else if e = EAGAIN then ret (Inr (False, s)) else lost)
      else ret (Inr (True, s)))"

lemma shrinks_close_session_stdin [shrinks_intro]: "shrinks (close_session_stdin s)"
  unfolding close_session_stdin_def by (intro shrinks_intro)

lemma write_stdin_less:
  "write_stdin_turn s w = (Ret (Inl s'), w') \<Longrightarrow> length (w_answers w') < length (w_answers w)"
  unfolding write_stdin_turn_def Let_def
  by (auto simp: ret_def split: if_split_asm elim!: iob_calls_less intro!: shrinks_intro)

function write_stdin :: "session \<Rightarrow> (bool \<times> session) io" where
  "write_stdin s w =
     iob (write_stdin_turn s) (\<lambda>r w'. case r of Inl s' \<Rightarrow> write_stdin s' w' | Inr x \<Rightarrow> ret x w') w"
  by pat_completeness auto
termination
  by (relation "measure (\<lambda>(s, w). length (w_answers w))") (auto dest: write_stdin_less)

declare write_stdin.simps [simp del]

definition drain_session_stdin :: "session \<Rightarrow> session io" where
  "drain_session_stdin s =
     iob (write_stdin s) (\<lambda>(done, s).
     if done \<and> s_stdin_pending_off s \<ge> length (s_stdin_pending s) then
       let s = s\<lparr>s_stdin_pending_off := 0, s_stdin_pending := []\<rparr> in
       if s_stdin_close_pending s then close_session_stdin s else ret s
     else ret s)"

definition close_client_input_lost :: "session \<Rightarrow> client \<Rightarrow> (session \<times> client) io" where
  "close_client_input_lost s c =
     iob (if s_started s \<and> \<not> s_exited s then
            iob (if c_stdin_input_owner c then close_session_stdin s else ret s) (\<lambda>s.
            ret (if c_terminal_input_owner c then close_session_terminal_input s else s))
          else ret s) (\<lambda>s.
     iob (close_client c) (\<lambda>c. ret (s, c)))"

section \<open>Output to the client\<close>

definition send_client_output :: "bool \<Rightarrow> session \<Rightarrow> client \<Rightarrow> u64 \<Rightarrow> bytes \<Rightarrow> (bool \<times> session \<times> client) io" where
  "send_client_output is_stdout s c offset buf =
     (if c_fd c < 0 then ret (False, s, c)
      else if client_offset is_stdout c \<noteq> offset then ret (True, s, c)
      else iob (send_spio_data (c_fd c) (stream_id is_stdout) offset buf) (\<lambda>ok.
        if \<not> ok then iob (close_client_input_lost s c) (\<lambda>(s, c). ret (False, s, c))
        else ret (True, s, set_client_offset is_stdout (client_offset is_stdout c + of_nat (length buf)) c)))"

definition send_client_terminal_output :: "session \<Rightarrow> client \<Rightarrow> u64 \<Rightarrow> bytes \<Rightarrow> (bool \<times> session \<times> client) io" where
  "send_client_terminal_output s c offset buf =
     (if c_fd c < 0 then ret (False, s, c)
      else if c_terminal_offset c \<noteq> offset then ret (True, s, c)
      else iob (send_spio_data (c_fd c) SPIO_TERMINAL_STREAM offset buf) (\<lambda>ok.
        if \<not> ok then iob (close_client_input_lost s c) (\<lambda>(s, c). ret (False, s, c))
        else ret (True, s, c\<lparr>c_terminal_offset := c_terminal_offset c + of_nat (length buf)\<rparr>)))"

text \<open>
  The replay loop sends the bytes from the client's offset to the end of the ring in at most two
  pieces. A turn that succeeds has advanced the client.
\<close>

definition send_replay_piece :: "bool \<Rightarrow> replay_buffer \<Rightarrow> session \<Rightarrow> client \<Rightarrow> (bool \<times> session \<times> client) io" where
  "send_replay_piece is_stdout replay s c =
     (let at' = unat (client_offset is_stdout c) mod REPLAY_CAP;
          left = unat (ring_end replay - client_offset is_stdout c);
          len = (if left > REPLAY_CAP - at' then REPLAY_CAP - at' else left)
      in if at' + len \<le> length (rb_data replay)
         then send_client_output is_stdout s c (client_offset is_stdout c) (take len (drop at' (rb_data replay)))
         else undef)"

lemma client_offset_set [simp]: "client_offset b (set_client_offset b off c) = off"
  by (simp add: client_offset_def set_client_offset_def)

lemma send_client_output_advances:
  assumes "send_client_output b s c (client_offset b c) buf w = (Ret (True, s', c'), w')"
  shows "client_offset b c' = client_offset b c + of_nat (length buf)"
  using assms by (auto simp: send_client_output_def iob_eq_Ret ret_def split: if_split_asm)

lemma replay_piece_advances:
  assumes "send_replay_piece b r s c w = (Ret (True, s', c'), w')" "client_offset b c < ring_end r"
  shows "unat (ring_end r - client_offset b c') < unat (ring_end r - client_offset b c)"
proof -
  define at' where "at' = unat (client_offset b c) mod REPLAY_CAP"
  define left where "left = unat (ring_end r - client_offset b c)"
  define len where "len = (if left > REPLAY_CAP - at' then REPLAY_CAP - at' else left)"
  have at: "at' < REPLAY_CAP" by (simp add: at'_def REPLAY_CAP_def)
  have "0 < left" using assms(2) by (auto simp: left_def unat_gt_0 word_less_nat_alt)
  with at have len: "0 < len" "len \<le> left" by (auto simp: len_def)
  from assms(1) have fits: "at' + len \<le> length (rb_data r)"
    and sent: "send_client_output b s c (client_offset b c) (take len (drop at' (rb_data r))) w = (Ret (True, s', c'), w')"
    by (auto simp: send_replay_piece_def Let_def undef_def simp flip: at'_def left_def len_def split: if_split_asm)
  from fits have "length (take len (drop at' (rb_data r))) = len" by simp
  with send_client_output_advances [OF sent]
  have "ring_end r - client_offset b c' = ring_end r - client_offset b c - of_nat len"
    by (simp only: diff_diff_eq)
  moreover have "unat (ring_end r - client_offset b c - of_nat len) = left - len"
  proof -
    have "left < 2 ^ LENGTH(64)" unfolding left_def by (rule unsigned_less)
    with len(2) have "unat (of_nat len :: u64) = len" by (simp add: unat_of_nat)
    then show ?thesis
      using len(2) by (subst unat_sub) (simp_all add: word_le_nat_alt left_def)
  qed
  ultimately have "unat (ring_end r - client_offset b c') = left - len" by (simp only:)
  with len show ?thesis unfolding left_def [symmetric] by linarith
qed

definition send_replay_turn :: "bool \<Rightarrow> replay_buffer \<Rightarrow> session \<times> client \<Rightarrow> (session \<times> client + bool \<times> session \<times> client) io" where
  "send_replay_turn is_stdout replay p =
     (if client_offset is_stdout (snd p) < ring_end replay then
        iob (send_replay_piece is_stdout replay (fst p) (snd p)) (\<lambda>(ok, p). if ok then ret (Inl p) else ret (Inr (False, p)))
      else ret (Inr (True, p)))"

lemma send_replay_less:
  "send_replay_turn b r p w = (Ret (Inl p'), w') \<Longrightarrow>
   unat (ring_end r - client_offset b (snd p')) < unat (ring_end r - client_offset b (snd p))"
  by (cases p') (auto simp: send_replay_turn_def iob_eq_Ret ret_def split: if_split_asm prod.splits intro: replay_piece_advances)

function send_replay_loop :: "bool \<Rightarrow> replay_buffer \<Rightarrow> session \<times> client \<Rightarrow> (bool \<times> session \<times> client) io" where
  "send_replay_loop is_stdout replay p w =
     iob (send_replay_turn is_stdout replay p) (\<lambda>r w'. case r of Inl p' \<Rightarrow> send_replay_loop is_stdout replay p' w' | Inr x \<Rightarrow> ret x w') w"
  by pat_completeness auto
termination
  by (relation "measure (\<lambda>(b, r, p, w). unat (ring_end r - client_offset b (snd p)))") (auto dest: send_replay_less)

declare send_replay_loop.simps [simp del]

definition send_replay :: "bool \<Rightarrow> session \<Rightarrow> client \<Rightarrow> (bool \<times> session \<times> client) io" where
  "send_replay is_stdout s c =
     (if \<not> replay_available (stream_replay is_stdout s) (client_offset is_stdout c) (stream_offset is_stdout s)
      then ret (False, s, c)
      else send_replay_loop is_stdout (stream_replay is_stdout s) (s, c))"

definition attach_client :: "session \<Rightarrow> client \<Rightarrow> u64 \<Rightarrow> u64 \<Rightarrow> (bool \<times> session \<times> client) io" where
  "attach_client s c stdout_offset stderr_offset =
     (let c = c\<lparr>c_stdout_offset := stdout_offset, c_stderr_offset := stderr_offset\<rparr> in
      iob (iob (send_replay True s c) (\<lambda>(ok, s, c). if \<not> ok then ret (False, s, c) else send_replay False s c)) (\<lambda>(ok, s, c).
      if \<not> ok then
        iob (send_client_error_exit c 125 (lit ''spore run: requested replay offset is unavailable'' @ [10])) (\<lambda>(_, c).
        iob (close_client c) (\<lambda>c. ret (False, s, c)))
      else if s_exited s \<and> \<not> s_stdout_open s \<and> \<not> s_stderr_open s then
        iob (send_client_exit c (s_exit_code s)) (\<lambda>_. iob (close_client c) (\<lambda>c. ret (True, s, c)))
      else ret (True, s, c)))"

section \<open>Computations that only consume answers\<close>

lemma shrinks_turns [shrinks_intro]:
  "shrinks (close_client_input_lost s c)" "shrinks (write_terminal_turn s)" "shrinks (write_stdin_turn s)"
  unfolding close_client_input_lost_def write_terminal_turn_def write_stdin_turn_def by (intro shrinks_intro)+

lemma shrinks_write_terminal [shrinks_intro]: "shrinks (write_terminal s)"
  by (rule shrinks_iterate [OF write_terminal.simps write_terminal_less shrinks_turns(2)])

lemma shrinks_write_stdin [shrinks_intro]: "shrinks (write_stdin s)"
  by (rule shrinks_iterate [OF write_stdin.simps write_stdin_less shrinks_turns(3)])

lemma shrinks_drains [shrinks_intro]: "shrinks (drain_session_terminal s)" "shrinks (drain_session_stdin s)"
  unfolding drain_session_terminal_def drain_session_stdin_def by (intro shrinks_intro)+

lemma shrinks_output [shrinks_intro]:
  "shrinks (send_client_output is_stdout s c offset buf)" "shrinks (send_client_terminal_output s c offset buf)"
  unfolding send_client_output_def send_client_terminal_output_def by (intro shrinks_intro)+

section \<open>Output pumps\<close>

definition pump_stream_turn :: "bool \<Rightarrow> session \<times> client \<Rightarrow> (session \<times> client + session \<times> client) io" where
  "pump_stream_turn is_stdout p =
     (let (s, c) = p; shut = iob (sys_close (stream_fd is_stdout s)) (\<lambda>_. ret (Inr (shut_stream is_stdout s, c))) in
      iob (sys_read (stream_fd is_stdout s) (SPIO_BATCH_FRAMES * MAX_FRAME_PAYLOAD)) (\<lambda>r.
      case r of
        Inr buf \<Rightarrow>
          if buf \<noteq> [] then
            (let frame_offset = stream_offset is_stdout s in
             iob (mirror_console is_stdout buf) (\<lambda>_.
             case replay_append (stream_replay is_stdout s) frame_offset buf of
               Ok replay \<Rightarrow>
                 (let s = set_stream is_stdout (frame_offset + of_nat (length buf)) replay s in
                  if c_fd c \<ge> 0 then iob (send_client_output is_stdout s c frame_offset buf) (\<lambda>(_, p). ret (Inl p))
                  else ret (Inl (s, c)))
             | Bad \<Rightarrow> undef
             | UB \<Rightarrow> undef))
          else shut
      | Inl e \<Rightarrow> if e = EINTR then ret (Inl (s, c)) else if e = EAGAIN then ret (Inr (s, c)) else shut))"

lemma shrinks_pump_stream_turn [shrinks_intro]: "shrinks (pump_stream_turn is_stdout p)"
  unfolding pump_stream_turn_def Let_def by (intro shrinks_intro)

lemma pump_stream_less:
  "pump_stream_turn is_stdout p w = (Ret (Inl p'), w') \<Longrightarrow> length (w_answers w') < length (w_answers w)"
  unfolding pump_stream_turn_def Let_def case_prod_unfold
  by (erule iob_calls_less) (intro shrinks_intro)

function pump_stream_loop :: "bool \<Rightarrow> session \<times> client \<Rightarrow> (session \<times> client) io" where
  "pump_stream_loop is_stdout p w =
     iob (pump_stream_turn is_stdout p) (\<lambda>r w'. case r of Inl p' \<Rightarrow> pump_stream_loop is_stdout p' w' | Inr p' \<Rightarrow> ret p' w') w"
  by pat_completeness auto
termination
  by (relation "measure (\<lambda>(is_stdout, p, w). length (w_answers w))") (auto dest: pump_stream_less)

declare pump_stream_loop.simps [simp del]

definition pump_session_stream :: "bool \<Rightarrow> session \<Rightarrow> client \<Rightarrow> (session \<times> client) io" where
  "pump_session_stream is_stdout s c =
     (if \<not> stream_open is_stdout s then ret (s, c) else pump_stream_loop is_stdout (s, c))"

definition shut_terminal :: "session \<Rightarrow> session" where
  "shut_terminal s = s\<lparr>s_terminal_fd := - 1, s_stdout_fd := - 1, s_stdout_open := False\<rparr>"

definition pump_terminal_turn :: "session \<times> client \<Rightarrow> (session \<times> client + session \<times> client) io" where
  "pump_terminal_turn p =
     (let (s, c) = p; shut = iob (sys_close (s_terminal_fd s)) (\<lambda>_. ret (Inr (shut_terminal s, c))) in
      iob (sys_read (s_terminal_fd s) MAX_FRAME_PAYLOAD) (\<lambda>r.
      case r of
        Inr buf \<Rightarrow>
          if buf \<noteq> [] then
            iob (mirror_console True buf) (\<lambda>_.
            let s = s\<lparr>s_terminal_offset := s_terminal_offset s + of_nat (length buf)\<rparr> in
            if c_fd c \<ge> 0 then iob (send_client_terminal_output s c (c_terminal_offset c) buf) (\<lambda>(_, p). ret (Inl p))
            else ret (Inl (s, c)))
          else shut
      | Inl e \<Rightarrow> if e = EINTR then ret (Inl (s, c)) else if e = EAGAIN then ret (Inr (s, c)) else shut))"

lemma shrinks_pump_terminal_turn [shrinks_intro]: "shrinks (pump_terminal_turn p)"
  unfolding pump_terminal_turn_def Let_def by (intro shrinks_intro)

lemma pump_terminal_less:
  "pump_terminal_turn p w = (Ret (Inl p'), w') \<Longrightarrow> length (w_answers w') < length (w_answers w)"
  unfolding pump_terminal_turn_def Let_def case_prod_unfold
  by (erule iob_calls_less) (intro shrinks_intro)

function pump_terminal_loop :: "session \<times> client \<Rightarrow> (session \<times> client) io" where
  "pump_terminal_loop p w =
     iob (pump_terminal_turn p) (\<lambda>r w'. case r of Inl p' \<Rightarrow> pump_terminal_loop p' w' | Inr p' \<Rightarrow> ret p' w') w"
  by pat_completeness auto
termination
  by (relation "measure (\<lambda>(p, w). length (w_answers w))") (auto dest: pump_terminal_less)

declare pump_terminal_loop.simps [simp del]

definition pump_session_terminal :: "session \<Rightarrow> client \<Rightarrow> (session \<times> client) io" where
  "pump_session_terminal s c =
     (if \<not> s_tty s \<or> \<not> s_stdout_open s \<or> s_terminal_fd s < 0 then ret (s, c) else pump_terminal_loop (s, c))"

text \<open>The entries of the poll set for the session's output: descriptor, events and role.\<close>

definition add_session_output_fds :: "session \<Rightarrow> nat \<Rightarrow> (int \<times> u16 \<times> nat) list" where
  "add_session_output_fds s stdout_role =
     (if s_stdout_open s then
        [(s_stdout_fd s,
          (POLLIN OR POLLHUP OR POLLERR) OR (if s_tty s \<and> s_terminal_pending s \<noteq> [] then POLLOUT else 0), stdout_role)]
      else []) @
     (if s_stderr_open s then [(s_stderr_fd s, POLLIN OR POLLHUP OR POLLERR, stdout_role + 1)] else [])"

definition pump_session_output :: "session \<Rightarrow> client \<Rightarrow> bool \<Rightarrow> u16 \<Rightarrow> (session \<times> client) io" where
  "pump_session_output s c is_stdout revents =
     (if is_stdout \<and> s_tty s then
        iob (if revents AND POLLOUT \<noteq> 0 then drain_session_terminal s else ret s) (\<lambda>s.
        if revents AND (POLLIN OR POLLHUP OR POLLERR) \<noteq> 0 then pump_session_terminal s c else ret (s, c))
      else pump_session_stream is_stdout s c)"

section \<open>Frames from the client\<close>

definition parse_spio_header :: "client \<Rightarrow> (bool \<times> client) cres" where
  "parse_spio_header c =
     (let h = c_v1_header c in
      if length h < 4 then UB
      else if take 4 h \<noteq> SPIO_MAGIC then Ok (False, c)
      else bnd (rd h 4) (\<lambda>version.
        if version \<noteq> SPIO_VERSION then Ok (False, c)
        else bnd (rd h 5) (\<lambda>type.
          let c = c\<lparr>c_v1_type := type\<rparr> in
          bnd (read_le16 (drop 6 h)) (\<lambda>flags.
          if flags \<noteq> 0 then Ok (False, c)
          else bnd (read_le32 (drop 8 h)) (\<lambda>sid.
            bnd (read_le64 (drop 12 h)) (\<lambda>offset.
            bnd (read_le32 (drop 20 h)) (\<lambda>payload_len.
            let c = c\<lparr>c_v1_stream_id := sid, c_v1_offset := offset, c_v1_payload_len := payload_len\<rparr> in
            if unat payload_len > MAX_FRAME_PAYLOAD then Ok (False, c)
            else Ok (True, c\<lparr>c_v1_payload := []\<rparr>))))))))"

text \<open>The payload of the current frame; reading past what was received is undefined.\<close>

definition frame_payload :: "client \<Rightarrow> bytes cres" where
  "frame_payload c =
     (if unat (c_v1_payload_len c) \<le> length (c_v1_payload c) then Ok (take (unat (c_v1_payload_len c)) (c_v1_payload c)) else UB)"

definition handle_terminal_data :: "session \<Rightarrow> client \<Rightarrow> (bool \<times> session \<times> client) io" where
  "handle_terminal_data s c =
     (if \<not> s_tty s \<or> s_terminal_fd s < 0 \<or> \<not> c_terminal_input_owner c \<or> c_v1_offset c \<noteq> c_terminal_input_offset c \<or>
         s_terminal_pending s \<noteq> [] then ret (False, s, c)
      else (case frame_payload c of
          Ok payload \<Rightarrow>
            (let c = c\<lparr>c_terminal_input_offset := c_terminal_input_offset c + ucast (c_v1_payload_len c)\<rparr>;
                 s = s\<lparr>s_terminal_pending := payload, s_terminal_pending_off := 0, s_terminal_input_offset := c_terminal_input_offset c\<rparr>
             in iob (drain_session_terminal s) (\<lambda>s. ret (True, s, c)))
        | Bad \<Rightarrow> undef
        | UB \<Rightarrow> undef))"

definition handle_stdin_data :: "session \<Rightarrow> client \<Rightarrow> (bool \<times> session \<times> client) io" where
  "handle_stdin_data s c =
     (if c_v1_stream_id c \<noteq> SPIO_STDIN_STREAM \<or> \<not> c_stdin_input_owner c \<or> \<not> s_stdin_open s \<or>
         c_v1_offset c \<noteq> c_stdin_offset c \<or> s_stdin_pending s \<noteq> [] then ret (False, s, c)
      else (case frame_payload c of
          Ok payload \<Rightarrow>
            (let c = c\<lparr>c_stdin_offset := c_stdin_offset c + ucast (c_v1_payload_len c)\<rparr>;
                 s = s\<lparr>s_stdin_pending := payload, s_stdin_pending_off := 0, s_stdin_offset := c_stdin_offset c\<rparr>
             in iob (drain_session_stdin s) (\<lambda>s. ret (True, s, c)))
        | Bad \<Rightarrow> undef
        | UB \<Rightarrow> undef))"

definition handle_close :: "session \<Rightarrow> client \<Rightarrow> (bool \<times> session \<times> client) io" where
  "handle_close s c =
     (if c_v1_stream_id c = SPIO_TERMINAL_STREAM then
        (if \<not> s_tty s \<or> c_v1_payload_len c \<noteq> 0 \<or> \<not> c_terminal_input_owner c \<or> c_v1_offset c \<noteq> c_terminal_input_offset c
         then ret (False, s, c) else ret (True, close_session_terminal_input s, c))
      else if c_v1_stream_id c \<noteq> SPIO_STDIN_STREAM \<or> c_v1_payload_len c \<noteq> 0 \<or> \<not> c_stdin_input_owner c \<or>
        c_v1_offset c \<noteq> c_stdin_offset c then ret (False, s, c)
      else if s_stdin_pending s = [] then iob (close_session_stdin s) (\<lambda>s. ret (True, s, c))
      else ret (True, s\<lparr>s_stdin_close_pending := True\<rparr>, c))"

definition handle_resize :: "session \<Rightarrow> client \<Rightarrow> (bool \<times> session \<times> client) io" where
  "handle_resize s c =
     (if \<not> s_tty s \<or> c_v1_stream_id c \<noteq> SPIO_TERMINAL_STREAM \<or> c_v1_payload_len c \<noteq> 4 then ret (False, s, c)
      else (case (read_le16 (c_v1_payload c), read_le16 (drop 2 (c_v1_payload c))) of
          (Ok rows, Ok cols) \<Rightarrow>
            if rows = 0 \<or> cols = 0 then ret (False, s, c)
            else if s_terminal_fd s \<ge> 0 then iob (apply_terminal_size (s_terminal_fd s) rows cols) (\<lambda>_. ret (True, s, c))
            else ret (True, s, c)
        | _ \<Rightarrow> undef))"

definition handle_spio_frame :: "session \<Rightarrow> client \<Rightarrow> (bool \<times> session \<times> client) io" where
  "handle_spio_frame s c =
     (if c_v1_type c = SPIO_DATA then
        (if c_v1_stream_id c = SPIO_TERMINAL_STREAM then handle_terminal_data s c else handle_stdin_data s c)
      else if c_v1_type c = SPIO_CLOSE then handle_close s c
      else if c_v1_type c = SPIO_RESIZE then handle_resize s c
      else ret (False, s, c))"

lemma shrinks_apply_terminal_size [shrinks_intro]: "shrinks (apply_terminal_size fd rows cols)"
  unfolding apply_terminal_size_def by (intro shrinks_intro)

lemma shrinks_handlers [shrinks_intro]:
  "shrinks (handle_terminal_data s c)" "shrinks (handle_stdin_data s c)" "shrinks (handle_close s c)" "shrinks (handle_resize s c)"
  unfolding handle_terminal_data_def handle_stdin_data_def handle_close_def handle_resize_def by (intro shrinks_intro)+

lemma shrinks_handle_spio_frame [shrinks_intro]: "shrinks (handle_spio_frame s c)"
  unfolding handle_spio_frame_def by (intro shrinks_intro)

text \<open>
  The header of the next frame. \<open>Again\<close> repeats the outer loop, \<open>Payload\<close> goes on to the payload and
  \<open>Done\<close> returns.
\<close>

datatype pump_next = Again | Payload | Done

definition recv_header :: "session \<Rightarrow> client \<Rightarrow> (pump_next \<times> session \<times> client) io" where
  "recv_header s c =
     (let lost = (\<lambda>s c. iob (close_client_input_lost s c) (\<lambda>p. ret (Done, p))) in
      iob (sys_recv (c_fd c) (SPIO_HEADER_LEN - length (c_v1_header c))) (\<lambda>r.
      case r of
        Inr bs \<Rightarrow>
          if bs = [] then lost s c
          else
            (let c = c\<lparr>c_v1_header := c_v1_header c @ bs\<rparr> in
             if length (c_v1_header c) < SPIO_HEADER_LEN then ret (Done, s, c)
             else (case parse_spio_header c of
                 Ok (ok, c) \<Rightarrow>
                   if \<not> ok then lost s c
                   else if c_v1_payload_len c = 0 then
                     iob (handle_spio_frame s c) (\<lambda>(ok, s, c).
                     iob (if \<not> ok then close_client_input_lost s c else ret (s, c)) (\<lambda>(s, c).
                     ret (Done, s, c\<lparr>c_v1_header := []\<rparr>)))
                   else ret (Payload, s, c)
               | Bad \<Rightarrow> undef
               | UB \<Rightarrow> undef))
      | Inl e \<Rightarrow> if e = EINTR then ret (Again, s, c) else if e = EAGAIN then ret (Done, s, c) else lost s c))"

text \<open>The payload loop gives whether the payload is complete.\<close>

definition recv_payload_turn :: "session \<times> client \<Rightarrow> (session \<times> client + bool \<times> session \<times> client) io" where
  "recv_payload_turn p =
     (let (s, c) = p; lost = iob (close_client_input_lost s c) (\<lambda>p. ret (Inr (False, p))) in
      if length (c_v1_payload c) < unat (c_v1_payload_len c) then
        iob (sys_recv (c_fd c) (unat (c_v1_payload_len c) - length (c_v1_payload c))) (\<lambda>r.
        case r of
          Inr bs \<Rightarrow> if bs \<noteq> [] then ret (Inl (s, c\<lparr>c_v1_payload := c_v1_payload c @ bs\<rparr>)) else lost
        | Inl e \<Rightarrow> if e = EINTR then ret (Inl (s, c)) else if e = EAGAIN then ret (Inr (False, s, c)) else lost)
      else ret (Inr (True, s, c)))"

lemma shrinks_recv [shrinks_intro]: "shrinks (recv_header s c)" "shrinks (recv_payload_turn p)"
  unfolding recv_header_def recv_payload_turn_def Let_def by (intro shrinks_intro)+

lemma recv_payload_less:
  "recv_payload_turn p w = (Ret (Inl p'), w') \<Longrightarrow> length (w_answers w') < length (w_answers w)"
  unfolding recv_payload_turn_def Let_def case_prod_unfold
  by (auto simp: ret_def split: if_split_asm elim!: iob_calls_less intro!: shrinks_intro)

function recv_payload :: "session \<times> client \<Rightarrow> (bool \<times> session \<times> client) io" where
  "recv_payload p w =
     iob (recv_payload_turn p) (\<lambda>r w'. case r of Inl p' \<Rightarrow> recv_payload p' w' | Inr x \<Rightarrow> ret x w') w"
  by pat_completeness auto
termination
  by (relation "measure (\<lambda>(p, w). length (w_answers w))") (auto dest: recv_payload_less)

declare recv_payload.simps [simp del]

lemma shrinks_recv_payload [shrinks_intro]: "shrinks (recv_payload p)"
  by (rule shrinks_iterate [OF recv_payload.simps recv_payload_less shrinks_recv(2)])

definition pump_frame :: "session \<times> client \<Rightarrow> (session \<times> client + session \<times> client) io" where
  "pump_frame p =
     iob (recv_payload p) (\<lambda>(complete, s, c).
     if \<not> complete then ret (Inr (s, c))
     else iob (handle_spio_frame s c) (\<lambda>(ok, s, c).
       if \<not> ok then iob (close_client_input_lost s c) (\<lambda>p. ret (Inr p))
       else
         let c = c\<lparr>c_v1_header := [], c_v1_payload_len := 0, c_v1_payload := []\<rparr> in
         if s_stdin_pending s \<noteq> [] \<or> s_terminal_pending s \<noteq> [] then ret (Inr (s, c)) else ret (Inl (s, c))))"

definition pump_client_turn :: "session \<times> client \<Rightarrow> (session \<times> client + session \<times> client) io" where
  "pump_client_turn p =
     iob (if length (c_v1_header (snd p)) < SPIO_HEADER_LEN then recv_header (fst p) (snd p) else ret (Payload, p)) (\<lambda>(next', p).
     case next' of Again \<Rightarrow> ret (Inl p) | Done \<Rightarrow> ret (Inr p) | Payload \<Rightarrow> pump_frame p)"

lemma shrinks_pump_frame [shrinks_intro]: "shrinks (pump_frame p)"
  unfolding pump_frame_def Let_def by (intro shrinks_intro)

lemma pump_frame_header: "pump_frame p w = (Ret (Inl p'), w') \<Longrightarrow> c_v1_header (snd p') = []"
  by (auto simp: pump_frame_def Let_def iob_eq_Ret ret_def split: if_split_asm prod.splits)

text \<open>
  A turn that goes on has received something, or has handled a frame received before and leaves the
  header empty.
\<close>

definition pump_client_measure :: "session \<times> client \<Rightarrow> world \<Rightarrow> nat" where
  "pump_client_measure p w = 2 * length (w_answers w) + (if length (c_v1_header (snd p)) < SPIO_HEADER_LEN then 0 else 1)"

lemma recv_header_less: "recv_header s c w = (Ret r, w') \<Longrightarrow> length (w_answers w') < length (w_answers w)"
  unfolding recv_header_def Let_def by (erule iob_calls_less) (intro shrinks_intro)

lemma pump_client_less:
  assumes "pump_client_turn p w = (Ret (Inl p'), w')"
  shows "pump_client_measure p' w' < pump_client_measure p w"
proof -
  from assms obtain n q w1 where head:
      "(if length (c_v1_header (snd p)) < SPIO_HEADER_LEN then recv_header (fst p) (snd p) else ret (Payload, p)) w = (Ret (n, q), w1)"
    and tail: "(case n of Again \<Rightarrow> ret (Inl q) | Done \<Rightarrow> ret (Inr q) | Payload \<Rightarrow> pump_frame q) w1 = (Ret (Inl p'), w')"
    by (auto simp: pump_client_turn_def iob_eq_Ret)
  then have rest: "n = Again \<and> p' = q \<and> w' = w1 \<or> length (w_answers w') \<le> length (w_answers w1) \<and> c_v1_header (snd p') = []"
    by (cases n) (auto simp: ret_def dest: shrinksD [OF shrinks_pump_frame] pump_frame_header)
  show ?thesis
  proof (cases "length (c_v1_header (snd p)) < SPIO_HEADER_LEN")
    case True
    with head have "length (w_answers w1) < length (w_answers w)" by (auto dest: recv_header_less)
    with rest show ?thesis by (auto simp: pump_client_measure_def)
  next
    case False
    with head rest show ?thesis by (auto simp: pump_client_measure_def ret_def SPIO_HEADER_LEN_def)
  qed
qed

function pump_client_loop :: "session \<times> client \<Rightarrow> (session \<times> client) io" where
  "pump_client_loop p w =
     iob (pump_client_turn p) (\<lambda>r w'. case r of Inl p' \<Rightarrow> pump_client_loop p' w' | Inr p' \<Rightarrow> ret p' w') w"
  by pat_completeness auto
termination
  by (relation "measure (\<lambda>(p, w). pump_client_measure p w)") (auto dest: pump_client_less)

declare pump_client_loop.simps [simp del]

definition pump_client_v1 :: "session \<Rightarrow> client \<Rightarrow> (session \<times> client) io" where
  "pump_client_v1 s c =
     (if c_fd c < 0 \<or> s_stdin_pending s \<noteq> [] \<or> s_terminal_pending s \<noteq> [] then ret (s, c) else pump_client_loop (s, c))"

section \<open>The exit of the command\<close>

definition exit_status :: "wait_result \<Rightarrow> int" where
  "exit_status wr = (case wr of
     Reaped (Exited n) _ \<Rightarrow> int n | Reaped (Signaled n) _ \<Rightarrow> 128 + int n | Reaped OtherStatus _ \<Rightarrow> 1 | _ \<Rightarrow> 127)"

definition record_usage :: "wait_result \<Rightarrow> unit io" where
  "record_usage wr = (case wr of
     Reaped _ usage \<Rightarrow> modify (\<lambda>w. w\<lparr>
       w_t_command_user_us := of_int (ru_utime_sec usage) * 1000000 + of_int (ru_utime_usec usage),
       w_t_command_system_us := of_int (ru_stime_sec usage) * 1000000 + of_int (ru_stime_usec usage)\<rparr>)
   | _ \<Rightarrow> ret ())"

text \<open>Output left in the pipes is read once more; then the descriptors are closed in any case.\<close>

definition close_output :: "session \<Rightarrow> client \<Rightarrow> (session \<times> client) io" where
  "close_output s c =
     (if s_tty s then
        iob (pump_session_terminal s c) (\<lambda>(s, c).
        if s_terminal_fd s \<ge> 0 then iob (sys_close (s_terminal_fd s)) (\<lambda>_. ret (shut_terminal s, c)) else ret (s, c))
      else
        iob (pump_session_stream True s c) (\<lambda>(s, c).
        iob (pump_session_stream False s c) (\<lambda>(s, c).
        iob (if s_stdout_open s then iob (sys_close (s_stdout_fd s)) (\<lambda>_. ret (shut_stream True s)) else ret s) (\<lambda>s.
        iob (if s_stderr_open s then iob (sys_close (s_stderr_fd s)) (\<lambda>_. ret (shut_stream False s)) else ret s) (\<lambda>s.
        ret (s, c))))))"

definition poll_session_exit :: "session \<Rightarrow> client \<Rightarrow> (session \<times> client) io" where
  "poll_session_exit s c =
     (if \<not> s_started s \<or> s_exited s then ret (s, c)
      else iob (wait_child (s_pid s)) (\<lambda>wr.
        if wr = StillRunning then ret (s, c)
        else
          iob set_command_exit (\<lambda>_.
          iob (record_usage wr) (\<lambda>_.
          iob (close_session_stdin (s\<lparr>s_exit_code := exit_status wr, s_exited := True\<rparr>)) (\<lambda>s.
          iob (close_output s c) (\<lambda>(s, c).
          iob (if \<not> s_build_run_isolation s then close_session_cgroup s else ret s) (\<lambda>s. ret (s, c))))))))"

definition maybe_send_session_exit :: "session \<Rightarrow> client \<Rightarrow> client io" where
  "maybe_send_session_exit s c =
     (if c_fd c < 0 \<or> \<not> s_started s \<or> \<not> s_exited s \<or> s_stdout_open s \<or> s_stderr_open s then ret c
      else iob (send_client_exit c (s_exit_code s)) (\<lambda>_. close_client c))"

definition maybe_send_memory_pressure :: "session \<Rightarrow> client \<Rightarrow> (session \<times> client) io" where
  "maybe_send_memory_pressure s c =
     (if s_memory_pressure_fd s < 0 then ret (s, c)
      else iob (drain_memory_pressure_events s) (\<lambda>_.
        if c_fd c < 0 \<or> \<not> s_started s \<or> s_exited s then ret (s, c)
        else iob (send_spio_event (c_fd c) (lit ''memory-pressure'')) (\<lambda>ok.
          if \<not> ok then iob (close_client c) (\<lambda>c. ret (s, c))
          else iob (rearm_memory_pressure_limit s) (\<lambda>ok.
            if \<not> ok then
              iob stale_errno (\<lambda>e.
              iob (dprintf 2 (lit ''memory pressure setup failed: rearm high limit errno='' @ dec e @ [10])) (\<lambda>_.
              iob (sys_close (s_memory_pressure_fd s)) (\<lambda>_. ret (s\<lparr>s_memory_pressure_fd := - 1\<rparr>, c))))
            else ret (s, c)))))"

end
