(* ===== verification/Session_Safe.thy ===== *)
theory Session_Safe
  imports Session_Io
begin

text \<open>
  Memory safety of the session: every operation of \<^verbatim>\<open>session.c\<close> and \<^verbatim>\<open>session_io.c\<close> keeps the session and
  its client well-formed and never leaves a buffer, whatever the kernel answers and whatever the
  client sends. The rules have the form of weakest preconditions, so that the event loop composes
  them by resolution.
\<close>

section \<open>What an operation keeps of a session\<close>

text \<open>The running command is the same and no stream has been opened.\<close>

definition kept :: "session \<Rightarrow> session \<Rightarrow> bool" where
  "kept s s' \<longleftrightarrow>
     s_started s' = s_started s \<and> s_exited s' = s_exited s \<and> s_tty s' = s_tty s \<and> s_pid s' = s_pid s \<and>
     s_exit_code s' = s_exit_code s \<and> s_build_run_isolation s' = s_build_run_isolation s \<and>
     s_session_id s' = s_session_id s \<and> s_memory_pressure_fd s' = s_memory_pressure_fd s \<and>
     (s_stdin_open s' \<longrightarrow> s_stdin_open s) \<and> (s_stdout_open s' \<longrightarrow> s_stdout_open s) \<and> (s_stderr_open s' \<longrightarrow> s_stderr_open s)"

lemma kept_refl [simp, intro]: "kept s s"
  by (simp add: kept_def)

lemma kept_trans: "kept s t \<Longrightarrow> kept t u \<Longrightarrow> kept s u"
  by (simp add: kept_def)

lemma kept_stdin: "kept s s' \<Longrightarrow> \<not> s_stdin_open s \<Longrightarrow> \<not> s_stdin_open s'"
  by (auto simp: kept_def)

lemma kept_quiet: "kept s s' \<Longrightarrow> session_quiet s \<Longrightarrow> session_quiet s'"
  by (auto simp: kept_def session_quiet_def)

definition client_wf :: "client \<Rightarrow> bool" where
  "client_wf c \<longleftrightarrow>
     length (c_v1_header c) \<le> SPIO_HEADER_LEN \<and> unat (c_v1_payload_len c) \<le> MAX_FRAME_PAYLOAD \<and>
     length (c_v1_payload c) \<le> unat (c_v1_payload_len c)"

lemma fresh_client_wf [simp]: "client_wf (fresh_client fd)"
  by (simp add: client_wf_def fresh_client_def)

section \<open>Input\<close>

lemma safe_close_session_stdin [safe_step]:
  assumes "session_wf s" "\<And>s'. session_wf s' \<Longrightarrow> kept s s' \<Longrightarrow> \<not> s_stdin_open s' \<Longrightarrow> Q s'"
  shows "safe (close_session_stdin s) Q"
  unfolding close_session_stdin_def
  by (intro safe_step; rule assms(2); use assms(1) in \<open>simp add: session_wf_def kept_def\<close>)

lemma close_session_terminal_input_wf [simp]:
  "session_wf s \<Longrightarrow> session_wf (close_session_terminal_input s)" "kept s (close_session_terminal_input t) = kept s t"
  by (auto simp: close_session_terminal_input_def session_wf_def kept_def MAX_FRAME_PAYLOAD_def)

lemma wf_ignores [simp]:
  "session_wf (s\<lparr>s_terminal_close_pending := b\<rparr>) = session_wf s" "session_wf (s\<lparr>s_stdin_close_pending := b\<rparr>) = session_wf s"
  "session_wf (s\<lparr>s_exited := b\<rparr>) = session_wf s" "session_wf (s\<lparr>s_started := b\<rparr>) = session_wf s"
  "session_wf (s\<lparr>s_exit_code := k\<rparr>) = session_wf s" "session_wf (s\<lparr>s_memory_pressure_fd := k\<rparr>) = session_wf s"
  "session_wf (s\<lparr>s_terminal_offset := off\<rparr>) = session_wf s" "session_wf (s\<lparr>s_terminal_input_offset := off\<rparr>) = session_wf s"
  "session_wf (s\<lparr>s_stdin_offset := off\<rparr>) = session_wf s"
  by (simp_all add: session_wf_def)

lemma kept_ignores [simp]:
  "kept s (t\<lparr>s_terminal_close_pending := b\<rparr>) = kept s t" "kept s (t\<lparr>s_stdin_close_pending := b\<rparr>) = kept s t"
  "kept s (t\<lparr>s_terminal_offset := off\<rparr>) = kept s t" "kept s (t\<lparr>s_terminal_input_offset := off\<rparr>) = kept s t"
  "kept s (t\<lparr>s_stdin_offset := off\<rparr>) = kept s t" "kept s (t\<lparr>s_terminal_pending := p\<rparr>) = kept s t"
  "kept s (t\<lparr>s_terminal_pending_off := n\<rparr>) = kept s t" "kept s (t\<lparr>s_stdin_pending := p\<rparr>) = kept s t"
  "kept s (t\<lparr>s_stdin_pending_off := n\<rparr>) = kept s t"
  "kept (s\<lparr>s_terminal_close_pending := b\<rparr>) t = kept s t" "kept (s\<lparr>s_stdin_close_pending := b\<rparr>) t = kept s t"
  "kept (s\<lparr>s_terminal_offset := off\<rparr>) t = kept s t" "kept (s\<lparr>s_terminal_input_offset := off\<rparr>) t = kept s t"
  "kept (s\<lparr>s_stdin_offset := off\<rparr>) t = kept s t" "kept (s\<lparr>s_terminal_pending := p\<rparr>) t = kept s t"
  "kept (s\<lparr>s_terminal_pending_off := n\<rparr>) t = kept s t" "kept (s\<lparr>s_stdin_pending := p\<rparr>) t = kept s t"
  "kept (s\<lparr>s_stdin_pending_off := n\<rparr>) t = kept s t"
  by (simp_all add: kept_def)

lemma wf_pending:
  "session_wf s \<Longrightarrow> n \<le> length (s_terminal_pending s) \<Longrightarrow> session_wf (s\<lparr>s_terminal_pending_off := n\<rparr>)"
  "session_wf s \<Longrightarrow> n \<le> length (s_stdin_pending s) \<Longrightarrow> session_wf (s\<lparr>s_stdin_pending_off := n\<rparr>)"
  "session_wf s \<Longrightarrow> length p \<le> MAX_FRAME_PAYLOAD \<Longrightarrow> session_wf (s\<lparr>s_terminal_pending := p, s_terminal_pending_off := 0\<rparr>)"
  "session_wf s \<Longrightarrow> length p \<le> MAX_FRAME_PAYLOAD \<Longrightarrow> session_wf (s\<lparr>s_stdin_pending := p, s_stdin_pending_off := 0\<rparr>)"
  by (simp_all add: session_wf_def)

lemma wf_off: "session_wf s \<Longrightarrow> s_terminal_pending_off s \<le> length (s_terminal_pending s)"
  "session_wf s \<Longrightarrow> s_stdin_pending_off s \<le> length (s_stdin_pending s)"
  by (simp_all add: session_wf_def)

lemma safe_write_terminal [safe_step]:
  assumes "session_wf s" "\<And>b s'. session_wf s' \<Longrightarrow> kept s s' \<Longrightarrow> Q (b, s')"
  shows "safe (write_terminal s) Q"
proof (rule safe_iterate [OF write_terminal.simps write_terminal_less, where I = "\<lambda>t. session_wf t \<and> kept s t"])
  fix t assume t: "session_wf t \<and> kept s t"
  then have lost: "Q (False, t\<lparr>s_terminal_pending := [], s_terminal_pending_off := 0, s_terminal_close_pending := False\<rparr>)"
    by (intro assms(2)) (simp_all add: wf_pending)
  show "safe (write_terminal_turn t) (case_sum (\<lambda>t. session_wf t \<and> kept s t) Q)"
    unfolding write_terminal_turn_def Let_def
    by (intro safe_step) (use t lost in \<open>simp_all add: assms(2) wf_pending\<close>)
qed (use assms(1) in auto)

lemma safe_write_stdin [safe_step]:
  assumes "session_wf s" "\<And>b s'. session_wf s' \<Longrightarrow> kept s s' \<Longrightarrow> Q (b, s')"
  shows "safe (write_stdin s) Q"
proof (rule safe_iterate [OF write_stdin.simps write_stdin_less, where I = "\<lambda>t. session_wf t \<and> kept s t"])
  fix t assume t: "session_wf t \<and> kept s t"
  then have Q: "session_wf s' \<Longrightarrow> kept t s' \<Longrightarrow> Q (b, s')" for b s'
    by (blast intro: assms(2) kept_trans)
  show "safe (write_stdin_turn t) (case_sum (\<lambda>t. session_wf t \<and> kept s t) Q)"
    unfolding write_stdin_turn_def Let_def
    by (intro safe_step) (use t in \<open>simp_all add: Q wf_pending\<close>)
qed (use assms(1) in auto)

lemma safe_drain_session_terminal [safe_step]:
  assumes "session_wf s" "\<And>s'. session_wf s' \<Longrightarrow> kept s s' \<Longrightarrow> Q s'"
  shows "safe (drain_session_terminal s) Q"
proof -
  have flushed: "session_wf (t\<lparr>s_terminal_pending_off := 0, s_terminal_pending := []\<rparr>)" if "session_wf t" for t
    using that by (simp add: session_wf_def)
  have "Q (let t = t\<lparr>s_terminal_pending_off := 0, s_terminal_pending := []\<rparr> in
      if s_terminal_close_pending t then close_session_terminal_input (t\<lparr>s_terminal_close_pending := False\<rparr>) else t)"
    if "session_wf t" "kept s t" for t
    using that flushed [OF that(1)] by (auto simp: Let_def intro!: assms(2))
  with assms show ?thesis
    unfolding drain_session_terminal_def by (intro safe_step) auto
qed

lemma safe_drain_session_stdin [safe_step]:
  assumes "session_wf s" "\<And>s'. session_wf s' \<Longrightarrow> kept s s' \<Longrightarrow> Q s'"
  shows "safe (drain_session_stdin s) Q"
proof -
  have flushed: "session_wf (t\<lparr>s_stdin_pending_off := 0, s_stdin_pending := []\<rparr>)" if "session_wf t" for t
    using that by (simp add: session_wf_def)
  show ?thesis
    unfolding drain_session_stdin_def Let_def
    by (intro safe_step; (rule assms(2))?)
       (use assms(1) flushed in \<open>auto intro: kept_trans\<close>)
qed

lemma safe_close_client_input_lost [safe_step]:
  assumes "session_wf s" "\<And>s' fd. session_wf s' \<Longrightarrow> kept s s' \<Longrightarrow> fd < 0 \<Longrightarrow> Q (s', fresh_client fd)"
  shows "safe (close_client_input_lost s c) Q"
  unfolding close_client_input_lost_def
  by (intro safe_step assms) (use assms(1) in \<open>auto intro!: assms(2)\<close>)

section \<open>Output\<close>

lemma client_wf_offsets [simp]:
  "client_wf (c\<lparr>c_stdout_offset := off\<rparr>) = client_wf c" "client_wf (c\<lparr>c_stderr_offset := off\<rparr>) = client_wf c"
  "client_wf (c\<lparr>c_terminal_offset := off\<rparr>) = client_wf c" "client_wf (c\<lparr>c_stdin_offset := off\<rparr>) = client_wf c"
  "client_wf (c\<lparr>c_terminal_input_offset := off\<rparr>) = client_wf c" "client_wf (c\<lparr>c_fd := fd\<rparr>) = client_wf c"
  "client_wf (c\<lparr>c_stdin_input_owner := b\<rparr>) = client_wf c" "client_wf (c\<lparr>c_terminal_input_owner := b\<rparr>) = client_wf c"
  "client_wf (set_client_offset is_stdout off c) = client_wf c"
  by (simp_all add: client_wf_def set_client_offset_def)

lemma safe_send_client_output [safe_step]:
  assumes "session_wf s" "client_wf c" "\<And>ok s' c'. session_wf s' \<Longrightarrow> kept s s' \<Longrightarrow> client_wf c' \<Longrightarrow> Q (ok, s', c')"
  shows "safe (send_client_output is_stdout s c offset buf) Q"
    "safe (send_client_terminal_output s c offset buf) Q"
  unfolding send_client_output_def send_client_terminal_output_def
  by (intro safe_step; auto intro!: assms)+

lemma stream_simps [simp]:
  "stream_replay b (set_stream b off r s) = r" "stream_offset b (set_stream b off r s) = off"
  "stream_fd b (set_stream b' off r s) = stream_fd b s" "stream_open b (set_stream b' off r s) = stream_open b s"
  by (simp_all add: stream_replay_def stream_offset_def stream_fd_def stream_open_def set_stream_def)

lemma stream_wf:
  assumes "session_wf s"
  shows "ring_wf REPLAY_CAP (stream_replay b s)" "ring_end (stream_replay b s) = stream_offset b s"
  using assms by (simp_all add: session_wf_def stream_replay_def stream_offset_def)

lemma set_stream_wf:
  "session_wf s \<Longrightarrow> ring_wf REPLAY_CAP r \<Longrightarrow> ring_end r = off \<Longrightarrow> session_wf (set_stream b off r s)"
  by (simp add: session_wf_def set_stream_def)

lemma shut_wf [simp]:
  "session_wf s \<Longrightarrow> session_wf (shut_stream b s)" "session_wf s \<Longrightarrow> session_wf (shut_terminal s)"
  by (simp_all add: session_wf_def shut_stream_def shut_terminal_def)

lemma kept_streams [simp]:
  "kept s (set_stream b off r t) = kept s t" "kept (set_stream b off r s) t = kept s t"
  "kept s t \<Longrightarrow> kept s (shut_stream b t)" "kept s t \<Longrightarrow> kept s (shut_terminal t)"
  by (simp_all add: kept_def set_stream_def shut_stream_def shut_terminal_def)

text \<open>Appending what was read to the replay buffer is in bounds and keeps it at the stream offset.\<close>

lemma replay_append_stream:
  assumes "session_wf s"
  shows "replay_append (stream_replay b s) (stream_offset b s) buf = Ok (replay_push (stream_replay b s) buf)"
    "session_wf (set_stream b (stream_offset b s + of_nat (length buf)) (replay_push (stream_replay b s) buf) s)"
proof -
  show "replay_append (stream_replay b s) (stream_offset b s) buf = Ok (replay_push (stream_replay b s) buf)"
    by (rule replay_append_ok) (simp_all add: stream_wf [OF assms])
  show "session_wf (set_stream b (stream_offset b s + of_nat (length buf)) (replay_push (stream_replay b s) buf) s)"
    using assms stream_wf [OF assms, of b] by (intro set_stream_wf) (simp_all add: replay.valid_append replay.end_append)
qed

lemma safe_pump_stream_loop:
  assumes "session_wf s" "client_wf c" "\<And>s' c'. session_wf s' \<Longrightarrow> kept s s' \<Longrightarrow> client_wf c' \<Longrightarrow> Q (s', c')"
  shows "safe (pump_stream_loop is_stdout (s, c)) Q"
proof (rule safe_iterate [OF pump_stream_loop.simps pump_stream_less,
    where I = "\<lambda>p. session_wf (fst p) \<and> kept s (fst p) \<and> client_wf (snd p)"])
  fix p :: "session \<times> client"
  assume p: "session_wf (fst p) \<and> kept s (fst p) \<and> client_wf (snd p)"
  obtain t d where td: "p = (t, d)" by (cases p)
  from p have Q: "session_wf s' \<Longrightarrow> kept t s' \<Longrightarrow> client_wf c' \<Longrightarrow> Q (s', c')" for s' c'
    by (auto simp: td intro: assms(3) kept_trans)
  show "safe (pump_stream_turn is_stdout p) (case_sum (\<lambda>p. session_wf (fst p) \<and> kept s (fst p) \<and> client_wf (snd p)) Q)"
    unfolding pump_stream_turn_def td Let_def prod.case
    using p by (intro safe_step) (auto simp: td replay_append_stream Q intro!: safe_step elim: kept_trans)
qed (use assms in auto)

lemma safe_pump_session_stream [safe_step]:
  assumes "session_wf s" "client_wf c" "\<And>s' c'. session_wf s' \<Longrightarrow> kept s s' \<Longrightarrow> client_wf c' \<Longrightarrow> Q (s', c')"
  shows "safe (pump_session_stream is_stdout s c) Q"
  unfolding pump_session_stream_def by (intro safe_step safe_pump_stream_loop) (auto intro: assms)

lemma safe_pump_terminal_loop:
  assumes "session_wf s" "client_wf c" "\<And>s' c'. session_wf s' \<Longrightarrow> kept s s' \<Longrightarrow> client_wf c' \<Longrightarrow> Q (s', c')"
  shows "safe (pump_terminal_loop (s, c)) Q"
proof (rule safe_iterate [OF pump_terminal_loop.simps pump_terminal_less,
    where I = "\<lambda>p. session_wf (fst p) \<and> kept s (fst p) \<and> client_wf (snd p)"])
  fix p :: "session \<times> client"
  assume p: "session_wf (fst p) \<and> kept s (fst p) \<and> client_wf (snd p)"
  obtain t d where td: "p = (t, d)" by (cases p)
  from p have Q: "session_wf s' \<Longrightarrow> kept t s' \<Longrightarrow> client_wf c' \<Longrightarrow> Q (s', c')" for s' c'
    by (auto simp: td intro: assms(3) kept_trans)
  show "safe (pump_terminal_turn p) (case_sum (\<lambda>p. session_wf (fst p) \<and> kept s (fst p) \<and> client_wf (snd p)) Q)"
    unfolding pump_terminal_turn_def td Let_def prod.case
    using p by (intro safe_step) (auto simp: td Q intro!: safe_step elim: kept_trans)
qed (use assms in auto)

lemma safe_pump_session_terminal [safe_step]:
  assumes "session_wf s" "client_wf c" "\<And>s' c'. session_wf s' \<Longrightarrow> kept s s' \<Longrightarrow> client_wf c' \<Longrightarrow> Q (s', c')"
  shows "safe (pump_session_terminal s c) Q"
  unfolding pump_session_terminal_def by (intro safe_step safe_pump_terminal_loop) (auto intro: assms)

lemma safe_pump_session_output [safe_step]:
  assumes "session_wf s" "client_wf c" "\<And>s' c'. session_wf s' \<Longrightarrow> kept s s' \<Longrightarrow> client_wf c' \<Longrightarrow> Q (s', c')"
  shows "safe (pump_session_output s c is_stdout revents) Q"
  unfolding pump_session_output_def
  by (intro safe_step) (auto intro: assms kept_trans)

section \<open>Replay\<close>

lemma safe_send_replay_piece:
  assumes "session_wf s" "client_wf c" "ring_wf REPLAY_CAP r"
    "\<And>ok s' c'. session_wf s' \<Longrightarrow> kept s s' \<Longrightarrow> client_wf c' \<Longrightarrow> Q (ok, s', c')"
  shows "safe (send_replay_piece is_stdout r s c) Q"
proof -
  have "unat (client_offset is_stdout c) mod REPLAY_CAP < REPLAY_CAP" by (simp add: REPLAY_CAP_def)
  moreover have "length (rb_data r) = REPLAY_CAP" using assms(3) by (simp add: ring_wf_def)
  ultimately show ?thesis
    using assms(1,2,4) unfolding send_replay_piece_def Let_def by (auto intro!: safe_step)
qed

lemma safe_send_replay_loop:
  assumes "session_wf s" "client_wf c" "ring_wf REPLAY_CAP r"
    "\<And>ok s' c'. session_wf s' \<Longrightarrow> kept s s' \<Longrightarrow> client_wf c' \<Longrightarrow> Q (ok, s', c')"
  shows "safe (send_replay_loop is_stdout r (s, c)) Q"
proof (rule safe_iterate [OF send_replay_loop.simps send_replay_less,
    where I = "\<lambda>p. session_wf (fst p) \<and> kept s (fst p) \<and> client_wf (snd p)"])
  fix p :: "session \<times> client"
  assume p: "session_wf (fst p) \<and> kept s (fst p) \<and> client_wf (snd p)"
  then have Q: "session_wf s' \<Longrightarrow> kept (fst p) s' \<Longrightarrow> client_wf c' \<Longrightarrow> Q (ok, s', c')" for ok s' c'
    by (blast intro: assms(4) kept_trans)
  show "safe (send_replay_turn is_stdout r p)
      (case_sum (\<lambda>p. session_wf (fst p) \<and> kept s (fst p) \<and> client_wf (snd p)) Q)"
    unfolding send_replay_turn_def
    using p assms(3) Q [of "fst p" "snd p"]
    by (intro safe_step safe_send_replay_piece) (auto simp: Q intro!: safe_step elim: kept_trans)
qed (use assms in auto)

lemma safe_send_replay [safe_step]:
  assumes "session_wf s" "client_wf c" "\<And>ok s' c'. session_wf s' \<Longrightarrow> kept s s' \<Longrightarrow> client_wf c' \<Longrightarrow> Q (ok, s', c')"
  shows "safe (send_replay is_stdout s c) Q"
  unfolding send_replay_def
  by (intro safe_step safe_send_replay_loop) (auto intro: assms stream_wf)

lemma safe_attach_client [safe_step]:
  assumes "session_wf s" "client_wf c" "\<And>ok s' c'. session_wf s' \<Longrightarrow> kept s s' \<Longrightarrow> client_wf c' \<Longrightarrow> Q (ok, s', c')"
  shows "safe (attach_client s c stdout_offset stderr_offset) Q"
  unfolding attach_client_def Let_def
  by (intro safe_step; (simp only: prod.inject)?) (auto intro!: safe_step intro: assms kept_trans)

section \<open>Frames of the client\<close>

lemma parse_spio_header_wf:
  assumes "length (c_v1_header c) = SPIO_HEADER_LEN"
  obtains ok c' where "parse_spio_header c = Ok (ok, c')" "c_fd c' = c_fd c" "ok \<Longrightarrow> client_wf c'"
    "ok \<Longrightarrow> length (c_v1_header c') = SPIO_HEADER_LEN" "ok \<Longrightarrow> c_v1_payload c' = []"
proof -
  let ?h = "c_v1_header c"
  have len: "length ?h = 24" using assms by (simp add: SPIO_HEADER_LEN_def)
  obtain flags sid off n where r: "read_le16 (drop 6 ?h) = Ok flags" "read_le32 (drop 8 ?h) = Ok sid"
      "read_le64 (drop 12 ?h) = Ok off" "read_le32 (drop 20 ?h) = Ok n"
    using read_le_defined(1) [of "drop 6 ?h"] read_le_defined(2) [of "drop 8 ?h"] read_le_defined(3) [of "drop 12 ?h"]
      read_le_defined(2) [of "drop 20 ?h"] len by auto
  define d where "d = c\<lparr>c_v1_type := ?h ! 5\<rparr>"
  define e where "e = d\<lparr>c_v1_stream_id := sid, c_v1_offset := off, c_v1_payload_len := n\<rparr>"
  have eq: "parse_spio_header c =
      (if take 4 ?h \<noteq> SPIO_MAGIC then Ok (False, c)
       else if ?h ! 4 \<noteq> SPIO_VERSION then Ok (False, c)
       else if flags \<noteq> 0 then Ok (False, d)
       else if unat n > MAX_FRAME_PAYLOAD then Ok (False, e) else Ok (True, e\<lparr>c_v1_payload := []\<rparr>))"
  proof -
    have "\<not> length ?h < 4" "4 < length ?h" "5 < length ?h" using len by simp_all
    then show ?thesis
      unfolding parse_spio_header_def Let_def rd_def d_def e_def
      by (simp only: r bnd.simps if_True if_False simp_thms)
  qed
  have fd: "c_fd d = c_fd c" "c_fd e = c_fd c" by (simp_all add: d_def e_def)
  show thesis
  proof (cases "take 4 ?h \<noteq> SPIO_MAGIC \<or> ?h ! 4 \<noteq> SPIO_VERSION \<or> flags \<noteq> 0 \<or> unat n > MAX_FRAME_PAYLOAD")
    case True
    then have "parse_spio_header c \<in> {Ok (False, c), Ok (False, d), Ok (False, e)}"
      unfolding eq by (simp only: insert_iff if_True if_False simp_thms split: if_split) satx
    then consider "parse_spio_header c = Ok (False, c)" | "parse_spio_header c = Ok (False, d)" | "parse_spio_header c = Ok (False, e)"
      by (elim insertE emptyE)
    then show thesis by cases (erule that; simp only: fd simp_thms)+
  next
    case False
    then have p: "parse_spio_header c = Ok (True, e\<lparr>c_v1_payload := []\<rparr>)"
      by (simp only: eq simp_thms if_False de_Morgan_disj not_not)
    have "client_wf (e\<lparr>c_v1_payload := []\<rparr>)" "length (c_v1_header (e\<lparr>c_v1_payload := []\<rparr>)) = SPIO_HEADER_LEN"
      using False assms by (simp_all add: e_def d_def client_wf_def)
    with p show thesis by (intro that [OF p]) (simp_all add: fd)
  qed
qed

text \<open>A client whose current frame is complete.\<close>

definition frame_complete :: "client \<Rightarrow> bool" where
  "frame_complete c \<longleftrightarrow> client_wf c \<and> length (c_v1_payload c) = unat (c_v1_payload_len c)"

lemma frame_payload_complete: "frame_complete c \<Longrightarrow> frame_payload c = Ok (c_v1_payload c) \<and> length (c_v1_payload c) \<le> MAX_FRAME_PAYLOAD"
  by (simp add: frame_complete_def frame_payload_def client_wf_def)

lemma safe_handle_terminal_data:
  assumes "session_wf s" "frame_complete c"
    "\<And>ok s' c'. session_wf s' \<Longrightarrow> kept s s' \<Longrightarrow> client_wf c' \<Longrightarrow> c_v1_header c' = c_v1_header c \<Longrightarrow> Q (ok, s', c')"
  shows "safe (handle_terminal_data s c) Q"
proof -
  have c: "client_wf c" using assms(2) by (simp add: frame_complete_def)
  show ?thesis
    using assms(1) c frame_payload_complete [OF assms(2)] unfolding handle_terminal_data_def Let_def
    by (intro safe_step) (auto simp: wf_pending intro!: assms(3) safe_step)
qed

lemma safe_handle_stdin_data:
  assumes "session_wf s" "frame_complete c"
    "\<And>ok s' c'. session_wf s' \<Longrightarrow> kept s s' \<Longrightarrow> client_wf c' \<Longrightarrow> c_v1_header c' = c_v1_header c \<Longrightarrow> Q (ok, s', c')"
  shows "safe (handle_stdin_data s c) Q"
proof -
  have c: "client_wf c" using assms(2) by (simp add: frame_complete_def)
  show ?thesis
    using assms(1) c frame_payload_complete [OF assms(2)] unfolding handle_stdin_data_def Let_def
    by (intro safe_step) (auto simp: wf_pending intro!: assms(3) safe_step)
qed

lemma safe_handle_close:
  assumes "session_wf s" "client_wf c" "\<And>ok s'. session_wf s' \<Longrightarrow> kept s s' \<Longrightarrow> Q (ok, s', c)"
  shows "safe (handle_close s c) Q"
  unfolding handle_close_def using assms(1) by (intro safe_step) (simp_all add: assms(3))

lemma safe_apply_terminal_size [safe_step]: "(\<And>ok. Q ok) \<Longrightarrow> safe (apply_terminal_size fd rows cols) Q"
  unfolding apply_terminal_size_def by (intro safe_step)

lemma safe_handle_resize:
  assumes "session_wf s" "frame_complete c" "\<And>ok. Q (ok, s, c)"
  shows "safe (handle_resize s c) Q"
proof -
  have "length (c_v1_payload c) = 4" if "c_v1_payload_len c = 4"
    using assms(2) that by (simp add: frame_complete_def)
  then have "\<exists>rows cols. read_le16 (c_v1_payload c) = Ok rows \<and> read_le16 (drop 2 (c_v1_payload c)) = Ok cols" if "c_v1_payload_len c = 4"
    using that read_le_defined(1) [of "c_v1_payload c"] read_le_defined(1) [of "drop 2 (c_v1_payload c)"] by auto
  then show ?thesis
    unfolding handle_resize_def by (intro safe_step) (auto intro!: safe_step assms(3))
qed

lemma safe_handle_spio_frame:
  assumes "session_wf s" "frame_complete c"
    "\<And>ok s' c'. session_wf s' \<Longrightarrow> kept s s' \<Longrightarrow> client_wf c' \<Longrightarrow> Q (ok, s', c')"
  shows "safe (handle_spio_frame s c) Q"
proof -
  have c: "client_wf c" using assms(2) by (simp add: frame_complete_def)
  show ?thesis
    unfolding handle_spio_frame_def
    by (intro safe_step safe_handle_terminal_data safe_handle_stdin_data safe_handle_close safe_handle_resize)
       (use assms c in auto)
qed

lemma client_wf_receive:
  "client_wf c \<Longrightarrow> length h \<le> SPIO_HEADER_LEN \<Longrightarrow> client_wf (c\<lparr>c_v1_header := h\<rparr>)"
  "client_wf c \<Longrightarrow> length p \<le> unat (c_v1_payload_len c) \<Longrightarrow> client_wf (c\<lparr>c_v1_payload := p\<rparr>)"
  "client_wf (c\<lparr>c_v1_header := [], c_v1_payload_len := 0, c_v1_payload := []\<rparr>)"
  by (simp_all add: client_wf_def)

lemma safe_recv_header:
  assumes "session_wf s" "client_wf c" "length (c_v1_header c) < SPIO_HEADER_LEN"
    "\<And>n s' c'. session_wf s' \<Longrightarrow> kept s s' \<Longrightarrow> client_wf c' \<Longrightarrow> Q (n, s', c')"
  shows "safe (recv_header s c) Q"
proof -
  have received: "safe (case parse_spio_header d of
        Ok (ok, c) \<Rightarrow> if \<not> ok then iob (close_client_input_lost s c) (\<lambda>p. ret (Done, p))
          else if c_v1_payload_len c = 0 then
            iob (handle_spio_frame s c) (\<lambda>(ok, s, c).
            iob (if \<not> ok then close_client_input_lost s c else ret (s, c)) (\<lambda>(s, c).
            ret (Done, s, c\<lparr>c_v1_header := []\<rparr>)))
          else ret (Payload, s, c)
      | Bad \<Rightarrow> undef | UB \<Rightarrow> undef) Q" if "length (c_v1_header d) = SPIO_HEADER_LEN" for d
  proof -
    from parse_spio_header_wf [OF that] obtain ok c' where p: "parse_spio_header d = Ok (ok, c')"
        "ok \<Longrightarrow> client_wf c'" "ok \<Longrightarrow> c_v1_payload c' = []" by metis
    have "safe (handle_spio_frame s c') (\<lambda>(ok, s', c'). session_wf s' \<and> kept s s' \<and> client_wf c')" if "ok" "c_v1_payload_len c' = 0"
      by (rule safe_handle_spio_frame) (use p that assms(1) in \<open>auto simp: frame_complete_def\<close>)
    then show ?thesis
      using p assms(1)
      by (auto intro!: safe_step assms(4) elim!: safe_mono elim: kept_trans simp: client_wf_receive)
  qed
  show ?thesis
    unfolding recv_header_def Let_def
    by (intro safe_step) (use assms(1-3) received in \<open>auto simp: client_wf_receive intro!: assms(4)\<close>)
qed

lemma safe_recv_payload:
  assumes "session_wf s" "client_wf c"
    "\<And>ok s' c'. session_wf s' \<Longrightarrow> kept s s' \<Longrightarrow> client_wf c' \<Longrightarrow> ok \<longrightarrow> frame_complete c' \<Longrightarrow> Q (ok, s', c')"
  shows "safe (recv_payload (s, c)) Q"
proof (rule safe_iterate [OF recv_payload.simps recv_payload_less,
    where I = "\<lambda>p. fst p = s \<and> client_wf (snd p)"])
  fix p :: "session \<times> client"
  assume p: "fst p = s \<and> client_wf (snd p)"
  then obtain d where d: "p = (s, d)" "client_wf d" by (cases p) auto
  then have "frame_complete d" if "\<not> length (c_v1_payload d) < unat (c_v1_payload_len d)"
    using that by (auto simp: frame_complete_def client_wf_def)
  with assms(1) d show "safe (recv_payload_turn p) (case_sum (\<lambda>p. fst p = s \<and> client_wf (snd p)) Q)"
    unfolding recv_payload_turn_def d Let_def prod.case
    by (intro safe_step) (auto simp: client_wf_receive intro!: assms(3))
qed (use assms in auto)

lemma safe_pump_frame:
  assumes "session_wf s" "client_wf c" "\<And>s' c'. session_wf s' \<Longrightarrow> kept s s' \<Longrightarrow> client_wf c' \<Longrightarrow> Q (Inl (s', c')) \<and> Q (Inr (s', c'))"
  shows "safe (pump_frame (s, c)) Q"
proof -
  let ?handled = "\<lambda>(ok, s, c). if \<not> ok then iob (close_client_input_lost s c) (\<lambda>p. ret (Inr p))
    else let c = c\<lparr>c_v1_header := [], c_v1_payload_len := 0, c_v1_payload := []\<rparr> in
      if s_stdin_pending s \<noteq> [] \<or> s_terminal_pending s \<noteq> [] then ret (Inr (s, c)) else ret (Inl (s, c))"
  have Q: "Q (Inl (s', c'))" "Q (Inr (s', c'))" if "session_wf s'" "kept s s'" "client_wf c'" for s' c'
    using assms(3) [OF that] by simp_all
  have handled: "safe (?handled (ok, t, d)) Q" if "session_wf t" "kept s t" "client_wf d" for ok t d
    using that by (auto simp: Let_def intro!: safe_step Q client_wf_receive elim: kept_trans)
  have "safe (iob (handle_spio_frame t d) ?handled) Q" if "session_wf t" "kept s t" "frame_complete d" for t d
    by (rule safe_iob, rule safe_handle_spio_frame [OF that(1,3)]) (rule handled; use that in \<open>blast intro: kept_trans\<close>)
  with assms(1,2) show ?thesis
    unfolding pump_frame_def
    by (intro safe_iob, intro safe_recv_payload) (auto intro!: safe_step Q)
qed

lemma safe_pump_client_v1 [safe_step]:
  assumes "session_wf s" "client_wf c" "\<And>s' c'. session_wf s' \<Longrightarrow> kept s s' \<Longrightarrow> client_wf c' \<Longrightarrow> Q (s', c')"
  shows "safe (pump_client_v1 s c) Q"
proof -
  let ?I = "\<lambda>p. session_wf (fst p) \<and> kept s (fst p) \<and> client_wf (snd p)"
  have "safe (pump_client_loop (s, c)) Q"
  proof (rule safe_iterate [OF pump_client_loop.simps pump_client_less, where I = ?I])
    fix p :: "session \<times> client"
    assume p: "?I p"
    have frame: "safe (pump_frame q) (case_sum ?I Q)" if "?I q" for q
      using that by (cases q) (auto intro!: safe_pump_frame intro: assms(3) [OF _ kept_trans] kept_trans)
    have "safe (if length (c_v1_header (snd p)) < SPIO_HEADER_LEN then recv_header (fst p) (snd p) else ret (Payload, p))
        (\<lambda>(n, q). ?I q)"
      using p by (intro safe_step safe_recv_header) (auto elim: kept_trans)
    then show "safe (pump_client_turn p) (case_sum ?I Q)"
      unfolding pump_client_turn_def
      by (intro safe_iob, elim safe_mono)
         (auto intro!: safe_step frame assms(3) split: pump_next.split)
  qed (use assms in auto)
  with assms show ?thesis
    unfolding pump_client_v1_def by (intro safe_step) auto
qed

section \<open>The exit of the command\<close>

lemma safe_close_session_cgroup [safe_step]:
  assumes "session_wf s" "\<And>fd path. session_wf (s\<lparr>s_memory_pressure_fd := fd, s_cgroup_path := path\<rparr>) \<Longrightarrow>
      Q (s\<lparr>s_memory_pressure_fd := fd, s_cgroup_path := path\<rparr>)"
  shows "safe (close_session_cgroup s) Q"
proof -
  have wf: "session_wf (s\<lparr>s_memory_pressure_fd := fd, s_cgroup_path := []\<rparr>)"
    "session_wf (s\<lparr>s_memory_pressure_fd := fd, s_cgroup_path := s_cgroup_path s\<rparr>)" for fd
    using assms(1) by (simp_all add: session_wf_def)
  have same: "s\<lparr>s_cgroup_path := path\<rparr> = s\<lparr>s_memory_pressure_fd := s_memory_pressure_fd s, s_cgroup_path := path\<rparr>"
    "s\<lparr>s_memory_pressure_fd := fd\<rparr> = s\<lparr>s_memory_pressure_fd := fd, s_cgroup_path := s_cgroup_path s\<rparr>"
    "s = s\<lparr>s_memory_pressure_fd := s_memory_pressure_fd s, s_cgroup_path := s_cgroup_path s\<rparr>" for fd path
    by simp_all
  have Q: "Q (s\<lparr>s_memory_pressure_fd := fd, s_cgroup_path := []\<rparr>)" "Q (s\<lparr>s_cgroup_path := []\<rparr>)"
    "Q (s\<lparr>s_memory_pressure_fd := fd\<rparr>)" "Q s" for fd
    using assms(2) [OF wf(1)] assms(2) [OF wf(2)] same by metis+
  show ?thesis
    unfolding close_session_cgroup_def by (intro safe_step) (use Q in \<open>auto intro!: safe_step\<close>)
qed

lemma safe_close_output:
  assumes "session_wf s" "client_wf c"
    "\<And>s' c'. session_wf s' \<Longrightarrow> kept s s' \<Longrightarrow> \<not> s_stdout_open s' \<Longrightarrow> \<not> s_stderr_open s' \<Longrightarrow> client_wf c' \<Longrightarrow> Q (s', c')"
  shows "safe (close_output s c) Q"
proof -
  have shut [simp]: "\<not> s_stdout_open (shut_terminal t)" "s_stderr_open (shut_terminal t) = s_stderr_open t"
    "s_stdout_open (shut_stream b t) = (\<not> b \<and> s_stdout_open t)" "s_stderr_open (shut_stream b t) = (b \<and> s_stderr_open t)" for b t
    by (simp_all add: shut_terminal_def shut_stream_def)
  have tty: "\<not> s_stderr_open t" "s_terminal_fd t < 0 \<Longrightarrow> \<not> s_stdout_open t" if "session_wf t" "kept s t" "s_tty s" for t
    using that by (auto simp: session_wf_def kept_def)
  show ?thesis
    unfolding close_output_def
    by (intro safe_step) (use assms(1,2) tty in \<open>auto intro!: assms(3) elim: kept_trans\<close>)
qed

lemma safe_record_usage [safe_step]: "Q () \<Longrightarrow> safe (record_usage wr) Q"
  unfolding record_usage_def by (auto intro!: safe_step split: wait_result.split)

lemma safe_set_command_exit [safe_step]: "Q () \<Longrightarrow> safe set_command_exit Q"
  unfolding set_command_exit_def by (intro safe_step)

lemma safe_poll_session_exit [safe_step]:
  assumes "session_wf s" "session_quiet s" "client_wf c"
    "\<And>s' c'. session_wf s' \<Longrightarrow> session_quiet s' \<Longrightarrow> client_wf c' \<Longrightarrow> Q (s', c')"
  shows "safe (poll_session_exit s c) Q"
proof -
  have same: "Q (s, c)" by (rule assms(4) [OF assms(1-3)])
  have Q: "Q (t, d)" if "session_wf t" "\<not> s_stdin_open t" "\<not> s_stdout_open t" "\<not> s_stderr_open t" "client_wf d" for t d
    by (rule assms(4)) (use that in \<open>auto simp: session_quiet_def\<close>)
  show ?thesis
    unfolding poll_session_exit_def
    by (intro safe_step safe_close_output)
       (use same assms(1,3) in \<open>auto intro!: Q dest: kept_stdin\<close>)
qed

lemma safe_maybe_send_session_exit [safe_step]:
  assumes "client_wf c" "\<And>c'. client_wf c' \<Longrightarrow> Q c'"
  shows "safe (maybe_send_session_exit s c) Q"
  unfolding maybe_send_session_exit_def by (intro safe_step) (auto intro!: assms)

lemma safe_memory_pressure_files [safe_step]:
  "Q () \<Longrightarrow> safe (drain_memory_pressure_events s) Q" "(\<And>ok. R ok) \<Longrightarrow> safe (rearm_memory_pressure_limit s) R"
  unfolding drain_memory_pressure_events_def rearm_memory_pressure_limit_def by (intro safe_step; simp)+

lemma safe_maybe_send_memory_pressure [safe_step]:
  assumes "session_wf s" "client_wf c"
    "\<And>s' c'. session_wf s' \<Longrightarrow> session_quiet s' = session_quiet s \<Longrightarrow> client_wf c' \<Longrightarrow> Q (s', c')"
  shows "safe (maybe_send_memory_pressure s c) Q"
  unfolding maybe_send_memory_pressure_def
  by (intro safe_step) (use assms(1,2) in \<open>auto intro!: assms(3) simp: session_quiet_def\<close>)

lemma closed_session_ok: "session_wf closed_session" "session_quiet closed_session"
  by (simp_all add: closed_session_def session_wf_def session_quiet_def zero_session_def empty_replay)

lemma safe_reset_session [safe_step]:
  "session_wf s \<Longrightarrow> Q closed_session \<Longrightarrow> safe (reset_session s) Q"
  unfolding reset_session_def by (intro safe_step)

section \<open>The sandbox\<close>

lemma safe_sandbox_steps [safe_step]:
  assumes Q: "\<And>r. Q r"
  shows "safe (ensure_dir cap path mode) Q" "safe (detach_if_mounted cap path) Q" "safe (mount_at cap source path type flags opts) Q"
    "safe (remount_readonly cap path) Q" "safe (make_device cap path mode major_num minor_num) Q" "safe (replace_link cap path path') Q"
    "safe (install_syscall_policy m cap) Q" "safe (spore_build_run_sandbox_attach_device_policy path cap) Q"
  unfolding ensure_dir_def detach_if_mounted_def mount_at_def remount_readonly_def make_device_def replace_link_def
    install_syscall_policy_def spore_build_run_sandbox_attach_device_policy_def mount_def
  by (intro safe_step Q; simp)+

lemma safe_sandbox_paths [safe_step]:
  assumes Q: "\<And>r. Q r"
  shows "safe (readonly_bind_if_present cap path) Q" "safe (mask_path_if_present cap path) Q"
    "(\<And>p. safe (f p) Q) \<Longrightarrow> safe (root_path cap rootfs sub f) Q"
  unfolding readonly_bind_if_present_def mask_path_if_present_def root_path_def mount_def
  by (intro safe_step Q; auto intro!: safe_step Q)+

lemma safe_mount_dir [safe_step]:
  assumes Q: "\<And>r. Q r"
  shows "safe (mount_dir cap rootfs sub mode source type flags opts) Q"
  unfolding mount_dir_def by (intro safe_step Q) (auto intro!: safe_step Q split: sum.split)

lemma safe_attempt_any: "safe m (\<lambda>_. True) \<Longrightarrow> (\<And>x. safe (f x) (\<lambda>_. True)) \<Longrightarrow> safe (attempt m f) (\<lambda>_. True)"
  unfolding attempt_def by (intro safe_step, erule safe_mono) (auto intro!: safe_step split: sum.split)

lemma safe_setup_operation_mounts: "safe (setup_operation_mounts cap rootfs) (\<lambda>_. True)"
  unfolding setup_operation_mounts_def mount_def
  by (intro safe_attempt_any safe_step) (auto intro!: safe_step)

lemma safe_drop_capabilities: "safe (drop_capabilities cap_last cap) (\<lambda>_. True)"
  unfolding drop_capabilities_def by (intro safe_attempt_any safe_step) (auto intro!: safe_step)

lemma safe_supervisor_exit [safe_step]: "safe (supervisor_exit_with_status status) Q"
  unfolding supervisor_exit_with_status_def by (auto intro!: safe_step split: wstatus.split)

lemma safe_supervise [safe_step]: "safe (supervise pid) Q"
proof (rule safe_loop [where I = "\<lambda>_. True" and f = "\<lambda>_ :: unit. supervise pid" and s = "()"], goal_cases)
  case (1 s w)
  then show ?case
    by (subst supervise.simps) (auto simp: holds_iob intro!: holds_wait safeD [OF safe_supervisor_exit])
qed simp

lemma safe_sandbox_enter [safe_step]:
  assumes "\<And>r. Q r"
  shows "safe (spore_build_run_sandbox_enter m cap_last rootfs ready_fd cap) Q"
proof -
  have "safe (spore_build_run_sandbox_enter m cap_last rootfs ready_fd cap) (\<lambda>_. True)"
    unfolding spore_build_run_sandbox_enter_def mount_def
    by (intro safe_attempt_any safe_setup_operation_mounts safe_drop_capabilities safe_step) simp_all
  then show ?thesis by (rule safe_mono) (rule assms)
qed

end
