(* ===== verification/Session_Start.thy ===== *)
theory Session_Start
  imports Session_Safe
begin

text \<open>
  Starting the command of a session (\<^verbatim>\<open>session.c\<close>, \<open>start_session\<close>): whatever the system calls answer, neither
  the agent nor the child it forks reaches an undefined operation, and the session that is left is
  well formed and, unless its command was started, quiet.
\<close>

section \<open>Starting a session\<close>

text \<open>A session before its command runs.\<close>

definition idle_session :: "session \<Rightarrow> bool" where
  "idle_session s \<longleftrightarrow> session_wf s \<and> \<not> s_started s \<and> \<not> s_exited s \<and> \<not> s_stdin_open s \<and> \<not> s_stdout_open s \<and> \<not> s_stderr_open s"

lemma idle_quiet: "idle_session s \<Longrightarrow> session_wf s \<and> session_quiet s"
  by (simp add: idle_session_def session_quiet_def)

lemma idle_updates:
  "idle_session s \<Longrightarrow> idle_session (s\<lparr>s_memory_pressure_fd := fd\<rparr>)" "idle_session s \<Longrightarrow> idle_session (s\<lparr>s_build_run_isolation := b\<rparr>)"
  "idle_session s \<Longrightarrow> length path < 128 \<Longrightarrow> idle_session (s\<lparr>s_cgroup_path := path\<rparr>)"
  "idle_session s \<Longrightarrow> length msg < 256 \<Longrightarrow> idle_session (s\<lparr>s_setup_error := msg\<rparr>)"
  "idle_session (zero_session\<lparr>s_memory_pressure_fd := fd\<rparr>)"
  using zero_session_wf [of fd] by (simp_all add: idle_session_def session_wf_def zero_session_def)

lemma safe_session_cgroup_setup_error [safe_step]:
  assumes "idle_session s" "\<And>s'. idle_session s' \<Longrightarrow> Q (False, s')"
  shows "safe (session_cgroup_setup_error s step) Q"
  unfolding session_cgroup_setup_error_def
  by (intro safe_step assms(2) idle_updates assms(1)) (simp add: length_snprintf)

lemma safe_write_cgroup_file [safe_step]: "(\<And>ok. Q ok) \<Longrightarrow> safe (write_cgroup_file s file msg) Q"
  unfolding write_cgroup_file_def by (intro safe_step)

lemma safe_setup_session_cgroup [safe_step]:
  assumes "idle_session s" "\<And>ok s'. idle_session s' \<Longrightarrow> Q (ok, s')"
  shows "safe (setup_session_cgroup s pid memory_pressure) Q"
proof -
  have path: "idle_session (s\<lparr>s_cgroup_path := snprintf 128 p\<rparr>)" for p
    using assms(1) by (simp add: idle_updates length_snprintf)
  show ?thesis
    unfolding setup_session_cgroup_def Let_def
    by (intro safe_any safe_step assms path idle_updates(1,4) TrueI) (simp_all add: length_snprintf)
qed

lemma safe_kill_process [safe_step]: "Q () \<Longrightarrow> safe (kill_process pid) Q"
  unfolding kill_process_def by (intro safe_step)

lemma safe_abort_session_cgroup_setup [safe_step]:
  assumes "idle_session s" "\<And>ok s'. idle_session s' \<Longrightarrow> Q (ok, s')"
  shows "safe (abort_session_cgroup_setup s pid) Q"
proof -
  have "idle_session (s\<lparr>s_memory_pressure_fd := fd, s_cgroup_path := p\<rparr>)"
    if "session_wf (s\<lparr>s_memory_pressure_fd := fd, s_cgroup_path := p\<rparr>)" for fd p
    using assms(1) that by (simp add: idle_session_def)
  then show ?thesis
    unfolding abort_session_cgroup_setup_def
    by (intro safe_step assms(2)) (use assms(1) in \<open>simp_all add: idle_session_def\<close>)
qed

lemma safe_resolve_entries: "(\<And>r. Q r) \<Longrightarrow> safe (resolve_entries command cap entries) Q"
  by (induction entries) (auto simp: Let_def intro!: safe_step)

lemma safe_resolve_exec_path [safe_step]: "(\<And>r. Q r) \<Longrightarrow> safe (resolve_exec_path command path cap) Q"
  unfolding resolve_exec_path_def by (intro safe_step safe_resolve_entries)

lemma safe_execve_or_report [safe_step]: "argv \<noteq> [] \<Longrightarrow> safe (execve_or_report argv envp use_rootfs failure_fd exec_lookup) Q"
  unfolding execve_or_report_def execve_def by (cases argv) (auto intro!: safe_step)

lemma safe_session_setup_error [safe_step]:
  "safe (exit_session_setup_error ready_fd message) Q" "safe (exit_session_setup_errno ready_fd step e) Q"
  unfolding exit_session_setup_errno_def exit_session_setup_error_def by (intro safe_step)+

lemma safe_dup2_or_exit [safe_step]: "Q () \<Longrightarrow> safe (dup2_or_exit old new) Q"
  unfolding dup2_or_exit_def by (intro safe_step)

lemma safe_child_stdio [safe_step]: "Q () \<Longrightarrow> safe (child_stdio p options) Q"
  unfolding child_stdio_def by (intro safe_step)

lemma safe_start_child [safe_step]: "argv \<noteq> [] \<Longrightarrow> safe (start_child m cap_last p argv envp working_dir options) Q"
  unfolding start_child_def by (intro safe_step)

lemma safe_fail_closed [safe_step]: "safe (fail_closed_build_run_cleanup phase) Q"
  unfolding fail_closed_build_run_cleanup_def by (intro safe_step)

lemma safe_read_ready [safe_step]: "(\<And>r. Q r) \<Longrightarrow> safe (read_ready fd isolated) Q"
  unfolding read_ready_def by (intro safe_step)

lemma safe_start_failed [safe_step]: "Q (127, s) \<Longrightarrow> safe (start_failed fds s) Q"
  unfolding start_failed_def by (intro safe_step)

lemma length_setup_error_of: "length old < 256 \<Longrightarrow> length (setup_error_of r old) < 256"
proof -
  assume old: "length old < 256"
  have "length (takeWhile P (take 255 l)) < 256" for P and l :: bytes
    using length_takeWhile_le [of P "take 255 l"] by simp
  with old show ?thesis
    by (auto simp: setup_error_of_def Let_def lit_def split: sum.splits list.splits)
qed

text \<open>The descriptors a command is started with: the ends the parent keeps are valid.\<close>

definition pipes_ok :: "session_start_options \<Rightarrow> start_pipes \<Rightarrow> bool" where
  "pipes_ok options p \<longleftrightarrow> (\<not> o_tty options \<longrightarrow> 0 \<le> fst (p_stdout p) \<and> 0 \<le> fst (p_stderr p))"

lemma safe_start_parent [safe_step]:
  assumes "idle_session s" "pipes_ok options p" "\<And>rc s'. session_wf s' \<Longrightarrow> session_quiet s' \<Longrightarrow> Q (rc, s')"
  shows "safe (start_parent p s pid session_id options) Q"
proof -
  have Q: "Q (rc, t)" if "idle_session t" for rc t
    using assms(3) idle_quiet [OF that] by blast
  have err: "idle_session (t\<lparr>s_setup_error := setup_error_of r (s_setup_error t)\<rparr>)" if "idle_session t" for t r
    by (intro idle_updates that length_setup_error_of) (use that in \<open>simp add: idle_session_def session_wf_def\<close>)
  have started: "Q (0, t\<lparr>s_started := True, s_session_id := snprintf 64 session_id, s_pid := pid,
         s_stdin_fd := snd (p_stdin p), s_terminal_fd := p_master p,
         s_stdout_fd := (if o_tty options then p_master p else fst (p_stdout p)), s_stderr_fd := fst (p_stderr p),
         s_stdin_open := snd (p_stdin p) \<ge> 0, s_stdin_capable := o_stdin_enabled options, s_tty := o_tty options,
         s_stdout_open := (if o_tty options then p_master p \<ge> 0 else True), s_stderr_open := \<not> o_tty options\<rparr>)"
    if "idle_session t" for t
    by (rule assms(3)) (use that assms(2) in \<open>simp_all add: idle_session_def session_wf_def session_quiet_def pipes_ok_def length_snprintf\<close>)
  show ?thesis
    unfolding start_parent_def Let_def
    by (intro safe_step started Q err assms(1)) (auto simp: assms(1))
qed

lemma safe_open_session_pty [safe_step]:
  "Q None \<Longrightarrow> (\<And>m s. Q (Some (m, s))) \<Longrightarrow> safe (open_session_pty rows cols) Q"
  unfolding open_session_pty_def by (intro safe_any safe_step TrueI)

lemma safe_open_output [safe_step]:
  assumes "Q None" "\<And>p. pipes_ok options p \<Longrightarrow> p_stdin p = no_pipe \<Longrightarrow> Q (Some p)"
  shows "safe (open_output options) Q"
  unfolding open_output_def Let_def by (intro safe_step assms) (auto simp: pipes_ok_def)

lemma safe_start_session [safe_step]:
  assumes "argv \<noteq> []" "\<And>rc s'. session_wf s' \<Longrightarrow> session_quiet s' \<Longrightarrow> Q (rc, s')"
  shows "safe (start_session m cap_last session_id argv envp working_dir options) Q"
proof -
  have zero: "idle_session (zero_session\<lparr>s_memory_pressure_fd := - 1\<rparr>)"
    by (rule idle_updates)
  have Q: "Q (127, zero_session\<lparr>s_memory_pressure_fd := - 1\<rparr>)"
    using assms(2) idle_quiet [OF zero] by blast
  show ?thesis
    unfolding start_session_def Let_def
    by (intro safe_constr safe_step Q zero assms idle_updates(2)) (auto simp: pipes_ok_def)
qed

end
