(* ===== verification/Descriptors.thy ===== *)
theory Descriptors
  imports Util
begin

text \<open>
  Accounting of file descriptors. \<open>bal k tr\<close> is how often a trace obtained the descriptor \<open>k\<close> minus
  how often it closed it. \<open>owns k m Q\<close>: when \<open>m\<close> returns \<open>x\<close> after a trace with balance \<open>b\<close>, \<open>Q x b\<close>
  holds. A function that returns with balance zero for every \<open>k\<close> leaks no descriptor and closes none
  it does not own.
\<close>

section \<open>The balance of a trace\<close>

definition opens :: "string \<Rightarrow> bool" where
  "opens name \<longleftrightarrow> name \<in> {''open'', ''openat'', ''posix_openpt'', ''bpf_prog_load'', ''socket'', ''accept4'', ''dup''}"

definition u :: "int \<Rightarrow> int \<Rightarrow> int" where
  "u k fd = (if fd = k then 1 else 0)"

fun ev_bal :: "int \<Rightarrow> event \<Rightarrow> int" where
  "ev_bal k (Pipe flags, Fds a b) = u k a + u k b"
| "ev_bal k (Sys name is ss, Num n) = (if opens name then u k n else 0)"
| "ev_bal k (Close fd, a) = - u k fd"
| "ev_bal k _ = 0"

definition bal :: "int \<Rightarrow> event list \<Rightarrow> int" where
  "bal k tr = sum_list (map (ev_bal k) tr)"

lemma bal_simps [simp]: "bal k [] = 0" "bal k (e # tr) = ev_bal k e + bal k tr" "bal k (a @ b) = bal k a + bal k b"
  by (simp_all add: bal_def)

lemma u_negative: "0 \<le> k \<Longrightarrow> fd < 0 \<Longrightarrow> u k fd = 0"
  by (simp add: u_def)

lemma opens_simps [simp]:
  "opens ''open''" "opens ''openat''" "opens ''posix_openpt''" "opens ''bpf_prog_load''" "opens ''accept4''"
  "\<not> opens ''mkdir''" "\<not> opens ''fork''" "\<not> opens ''usleep''" "\<not> opens ''kill''" "\<not> opens ''rmdir''" "\<not> opens ''errno''"
  "\<not> opens ''dprintf''" "\<not> opens ''fcntl''" "\<not> opens ''grantpt''" "\<not> opens ''unlockpt''" "\<not> opens ''ioctl_TIOCSWINSZ''"
  "\<not> opens ''bpf_prog_attach''" "\<not> opens ''getpid''" "\<not> opens ''unlink''" "\<not> opens ''rename''" "\<not> opens ''stat''"
  "\<not> opens ''access''" "\<not> opens ''lseek''" "\<not> opens ''fsync''" "\<not> opens ''write''" "\<not> opens ''dup2''" "\<not> opens ''chdir''" "\<not> opens ''chroot''"
  by (simp_all add: opens_def)

section \<open>Rules\<close>

definition owns :: "int \<Rightarrow> 'a io \<Rightarrow> ('a \<Rightarrow> int \<Rightarrow> bool) \<Rightarrow> bool" where
  "owns k m Q \<longleftrightarrow> (\<forall>w. holds (m w) (\<lambda>x. extends (\<lambda>tr. Q x (bal k tr)) w) (\<lambda>_. True))"

named_theorems owns_step "rules of the descriptor accounting"

lemma ownsD: "owns k m Q \<Longrightarrow> holds (m w) (\<lambda>x. extends (\<lambda>tr. Q x (bal k tr)) w) (\<lambda>_. True)"
  by (simp add: owns_def)

lemma owns_adds: "adds m P F \<Longrightarrow> (\<And>x tr. P x tr \<Longrightarrow> Q x (bal k tr)) \<Longrightarrow> owns k m Q"
  unfolding owns_def adds_def by (blast intro: holds_mono extends_mono)

lemma owns_never: "safe m (\<lambda>_. False) \<Longrightarrow> owns k m Q"
  unfolding owns_def by (auto intro: holds_mono [OF safeD])

lemma owns_mono:
  assumes "owns k m P" "\<And>x b. P x b \<Longrightarrow> Q x b"
  shows "owns k m Q"
  unfolding owns_def
proof
  show "holds (m w) (\<lambda>x. extends (\<lambda>tr. Q x (bal k tr)) w) (\<lambda>_. True)" for w
    using ownsD [OF assms(1)] by (rule holds_mono) (auto intro: extends_mono assms(2))
qed

lemma owns_iob [owns_step]:
  assumes "owns k m (\<lambda>x b. owns k (f x) (\<lambda>y b'. Q y (b + b')))"
  shows "owns k (iob m f) Q"
  unfolding owns_def
proof
  fix w
  show "holds (iob m f w) (\<lambda>x. extends (\<lambda>tr. Q x (bal k tr)) w) (\<lambda>_. True)"
  proof (rule holds_bind [OF ownsD [OF assms]])
    fix x w'
    assume "extends (\<lambda>tr. owns k (f x) (\<lambda>y b'. Q y (bal k tr + b'))) w w'"
    then obtain tr where e: "extends (\<lambda>t. t = tr) w w'" and f: "owns k (f x) (\<lambda>y b'. Q y (bal k tr + b'))"
      by (auto simp: extends_def)
    from ownsD [OF f] show "holds (f x w') (\<lambda>x. extends (\<lambda>tr. Q x (bal k tr)) w) (\<lambda>_. True)"
      by (rule holds_mono) (auto elim: extends_trans [OF e])
  qed
qed

lemma owns_basic [owns_step]:
  "Q x 0 \<Longrightarrow> owns k (ret x) Q" "owns k (exit_process c) Q" "owns k block Q" "(\<And>x. R x 0) \<Longrightarrow> owns k (gets f) R"
  by (simp_all add: owns_def extends_refl)

lemma owns_modify [owns_step]: "Q () 0 \<Longrightarrow> (\<And>w. w_trace (h w) = w_trace w) \<Longrightarrow> owns k (modify h) Q"
  by (simp add: owns_def extends_def)

lemma owns_if [owns_step]: "(b \<Longrightarrow> owns k m Q) \<Longrightarrow> (\<not> b \<Longrightarrow> owns k n Q) \<Longrightarrow> owns k (if b then m else n) Q"
  by simp

lemma owns_cases [owns_step]:
  "(\<And>e. r = Inl e \<Longrightarrow> owns k (f e) Q) \<Longrightarrow> (\<And>x. r = Inr x \<Longrightarrow> owns k (g x) Q) \<Longrightarrow> owns k (case_sum f g r) Q"
  "(o' = None \<Longrightarrow> owns k m Q) \<Longrightarrow> (\<And>x. o' = Some x \<Longrightarrow> owns k (h x) Q) \<Longrightarrow> owns k (case_option m h o') Q"
  "(\<And>a b. p = (a, b) \<Longrightarrow> owns k (j a b) Q) \<Longrightarrow> owns k (case_prod j p) Q"
  "owns k (l x) Q \<Longrightarrow> owns k (Let x l) Q"
  by (auto split: sum.split option.split prod.split)

text \<open>A case distinction on a known value: to be tried before \<open>owns_cases\<close>.\<close>

lemma owns_constr:
  "owns k (f x) Q \<Longrightarrow> owns k (case Inl x of Inl x \<Rightarrow> f x | Inr y \<Rightarrow> g y) Q"
  "owns k (g y) Q \<Longrightarrow> owns k (case Inr y of Inl x \<Rightarrow> f x | Inr y \<Rightarrow> g y) Q"
  "owns k n Q \<Longrightarrow> owns k (case None of None \<Rightarrow> n | Some z \<Rightarrow> j z) Q" "owns k (j z) Q \<Longrightarrow> owns k (case Some z of None \<Rightarrow> n | Some z \<Rightarrow> j z) Q"
  "owns k (h a b) Q \<Longrightarrow> owns k (case (a, b) of (a, b) \<Rightarrow> h a b) Q"
  by simp_all

lemma owns_calls [owns_step]:
  "(\<And>r. Q1 r 0) \<Longrightarrow> owns k (sys_read fd n) Q1" "(\<And>r. Q1 r 0) \<Longrightarrow> owns k (sys_recv fd n) Q1"
  "(\<And>r. Q1 r 0) \<Longrightarrow> owns k (sys_data name n is ss) Q1" "(\<And>r. Q2 r 0) \<Longrightarrow> owns k (sys_write fd bs) Q2"
  "(\<And>r. Q3 r 0) \<Longrightarrow> owns k sys_clock Q3" "(\<And>r. Q4 r 0) \<Longrightarrow> owns k (sys_wait pid nohang) Q4"
  "(\<And>r. Q5 r 0) \<Longrightarrow> owns k (sys_poll fds timeout) Q5" "(\<And>ok. Q6 ok (- u k fd)) \<Longrightarrow> owns k (sys_close fd) Q6"
  by (rule owns_adds, intro adds_read adds_recv adds_data adds_write adds_clock adds_wait adds_poll adds_close; simp; fail)+

lemma owns_opens [owns_step]:
  "(\<And>e. Q7 (Inl e) 0) \<Longrightarrow> (\<And>a b. 0 \<le> a \<Longrightarrow> 0 \<le> b \<Longrightarrow> a \<noteq> b \<Longrightarrow> Q7 (Inr (a, b)) (u k a + u k b)) \<Longrightarrow> owns k (sys_pipe2 flags) Q7"
  "(\<And>e. Q8 (Inl e) 0) \<Longrightarrow> (\<And>n. 0 \<le> n \<Longrightarrow> Q8 (Inr n) (if opens name then u k n else 0)) \<Longrightarrow> owns k (sys_num name is ss) Q8"
proof -
  assume Q: "\<And>e. Q7 (Inl e) 0" "\<And>a b. 0 \<le> a \<Longrightarrow> 0 \<le> b \<Longrightarrow> a \<noteq> b \<Longrightarrow> Q7 (Inr (a, b)) (u k a + u k b)"
  show "owns k (sys_pipe2 flags) Q7"
    by (rule owns_adds [OF adds_pipe2 [where P = "\<lambda>x tr. Q7 x (bal k tr)" and F = "\<lambda>_. True"]]) (auto intro: Q)
next
  assume Q: "\<And>e. Q8 (Inl e) 0" "\<And>n. 0 \<le> n \<Longrightarrow> Q8 (Inr n) (if opens name then u k n else 0)"
  show "owns k (sys_num name is ss) Q8"
    by (rule owns_adds [OF adds_num [where P = "\<lambda>x tr. Q8 x (bal k tr)" and F = "\<lambda>_. True"]]) (use Q in auto)
qed

text \<open>Computations that leave the balance as it is.\<close>

definition neutral :: "'a io \<Rightarrow> bool" where
  "neutral m \<longleftrightarrow> (\<forall>k\<ge>0. owns k m (\<lambda>_ b. b = 0))"

lemma owns_neutral: "neutral m \<Longrightarrow> 0 \<le> k \<Longrightarrow> (\<And>x. Q x 0) \<Longrightarrow> owns k m Q"
  unfolding neutral_def by (blast intro: owns_mono)

lemma neutralI: "(\<And>k. 0 \<le> k \<Longrightarrow> owns k m (\<lambda>_ b. b = 0)) \<Longrightarrow> neutral m"
  by (simp add: neutral_def)

lemma neutral_basic:
  "neutral (ret x)" "neutral m \<Longrightarrow> (\<And>x. neutral (f x)) \<Longrightarrow> neutral (iob m f)"
  "(b \<Longrightarrow> neutral m) \<Longrightarrow> (\<not> b \<Longrightarrow> neutral n) \<Longrightarrow> neutral (if b then m else n)"
  by (auto simp: neutral_def intro!: owns_basic owns_iob intro: owns_mono)

lemma neutral_cases:
  "neutral n \<Longrightarrow> (\<And>z. neutral (j z)) \<Longrightarrow> neutral (case_option n j o')" "(\<And>x. neutral (f x)) \<Longrightarrow> (\<And>y. neutral (g y)) \<Longrightarrow> neutral (case_sum f g r)"
  by (auto split: option.split sum.split)

lemma neutral_calls:
  "neutral (sys_read fd n)" "neutral (sys_wait pid nohang)" "neutral (sys_poll fds timeout)" "neutral (sys_data name cap is ss)"
  by (rule neutralI, intro owns_step, simp)+

lemma neutral_num: "\<not> opens name \<Longrightarrow> neutral (sys_num name is ss)"
  by (rule neutralI, intro owns_step) simp_all

text \<open>A step that keeps the balance need not be followed branch by branch; an \<^verbatim>\<open>open\<close> is followed.\<close>

lemma owns_any: "neutral m \<Longrightarrow> 0 \<le> k \<Longrightarrow> (\<And>x. owns k (f x) Q) \<Longrightarrow> owns k (iob m f) Q"
  by (intro owns_iob owns_neutral [of m]) simp_all

lemma owns_open_any:
  "(\<And>e. owns k (f (Inl e)) Q) \<Longrightarrow> (\<And>n. 0 \<le> n \<Longrightarrow> owns k (f (Inr n)) (\<lambda>y b. Q y (u k n + b))) \<Longrightarrow>
   owns k (iob (sys_num ''open'' is ss) f) Q"
  by (intro owns_iob owns_opens) simp_all

text \<open>Loops in the form of turns.\<close>

lemma neutral_iterate:
  assumes eq: "\<And>w. f w = iob turn (\<lambda>r w'. case r of Inl _ \<Rightarrow> f w' | Inr x \<Rightarrow> ret x w') w"
    and less: "\<And>w s w'. turn w = (Ret (Inl s), w') \<Longrightarrow> length (w_answers w') < length (w_answers w)"
    and "neutral turn"
  shows "neutral f"
proof (rule neutralI)
  fix k :: int assume "0 \<le> k"
  with assms(3) have turn: "owns k turn (\<lambda>_ b. b = 0)" by (simp add: neutral_def)
  have "holds (f w) (\<lambda>x. extends (\<lambda>tr. bal k tr = 0) w) (\<lambda>_. True)" for w
  proof (induction "length (w_answers w)" arbitrary: w rule: less_induct)
    case (less w)
    show ?case
      unfolding eq [of w]
    proof (rule holds_bind [OF ownsD [OF turn]])
      fix r w'
      assume run: "turn w = (Ret r, w')" and e: "extends (\<lambda>tr. bal k tr = 0) w w'"
      show "holds (case r of Inl _ \<Rightarrow> f w' | Inr x \<Rightarrow> ret x w') (\<lambda>x. extends (\<lambda>tr. bal k tr = 0) w) (\<lambda>_. True)"
      proof (cases r)
        case (Inl s)
        have "holds (f w') (\<lambda>x. extends (\<lambda>tr. bal k tr = 0) w) (\<lambda>_. True)"
          using less.hyps [OF assms(2) [OF run [unfolded Inl]]]
          by (rule holds_mono) (auto elim!: extends_trans [OF e])
        with Inl show ?thesis by simp
      next
        case (Inr x)
        with e show ?thesis by simp
      qed
    qed
  qed
  then show "owns k f (\<lambda>_ b. b = 0)" by (simp add: owns_def)
qed

section \<open>The helpers\<close>

lemma neutral_write_all: "neutral (write_all fd buf)"
proof -
  have "bal k tr = 0" if "writes_only fd tr" for k tr
    using that
  proof (induction tr)
    case (Cons e tr)
    then obtain c a where e: "e = (c, a)" by (cases e)
    with Cons show ?case by (cases a) (auto simp: writes_only_def)
  qed simp
  then show ?thesis
    by (intro neutralI owns_adds [OF adds_write_all]) (auto simp: writes_def)
qed

lemmas owns_write_all [owns_step] = neutral_write_all [THEN owns_neutral]

lemma neutral_helpers:
  "neutral now_ms" "neutral getpid" "neutral (dprintf fd msg)" "neutral stale_errno" "neutral (set_nonblock fd)"
  "neutral (unlink path)" "neutral (write_text_file path msg)"
  unfolding now_ms_def getpid_def dprintf_def stale_errno_def set_nonblock_def unlink_def write_text_file_def
  by (rule neutralI, intro owns_constr owns_step, simp_all)+

lemma neutral_write_pid_file: "neutral (write_pid_file path pid)"
  unfolding write_pid_file_def Let_def by (intro neutral_basic neutral_helpers)

lemmas owns_helpers [owns_step] = neutral_helpers [THEN owns_neutral] neutral_write_pid_file [THEN owns_neutral]

lemma owns_close_fd_if_open [owns_step]:
  "0 \<le> k \<Longrightarrow> (\<And>fd'. fd' < 0 \<Longrightarrow> Q fd' (- u k fd)) \<Longrightarrow> owns k (close_fd_if_open fd) Q"
  unfolding close_fd_if_open_def by (intro owns_step) (auto simp: u_negative)

end
