(* ===== verification/Session_Descriptors.thy ===== *)
theory Session_Descriptors
  imports Session_Start Descriptors
begin

text \<open>
  The descriptors of a session: starting a command leaves open exactly the descriptors that the
  session records, and a failed start leaves none.
\<close>

section \<open>Steps that keep the balance\<close>

lemma owns_close_fds [owns_step]: "Q () (- sum_list (map (u k) fds)) \<Longrightarrow> owns k (close_fds fds) Q"
proof (induction fds arbitrary: Q)
  case (Cons fd fds)
  then show ?case by (auto intro!: owns_step Cons.IH simp: algebra_simps)
qed (auto intro!: owns_step)

lemma owns_close_open [owns_step]: "0 \<le> k \<Longrightarrow> Q () (- sum_list (map (u k) fds)) \<Longrightarrow> owns k (close_open fds) Q"
proof (induction fds arbitrary: Q)
  case (Cons fd fds)
  then show ?case by (auto intro!: owns_step Cons.IH simp: algebra_simps u_negative)
qed (auto intro!: owns_step)

lemma neutral_retry:
  assumes "\<And>w. f w = iob m (\<lambda>r w'. if again r then f w' else ret (g r) w') w" "neutral m"
    "\<And>w r w'. m w = (Ret r, w') \<Longrightarrow> length (w_answers w') < length (w_answers w)"
  shows "neutral f"
proof (rule neutral_iterate [where turn = "iob m (\<lambda>r. ret (if again r then Inl () else Inr (g r)))"])
  show "f w = iob (iob m (\<lambda>r. ret (if again r then Inl () else Inr (g r)))) (\<lambda>r w'. case r of Inl _ \<Rightarrow> f w' | Inr x \<Rightarrow> ret x w') w" for w
    by (subst assms(1), unfold iob_assoc, rule iob_cong) (auto simp: iob_def ret_def)
qed (auto intro!: neutral_basic assms(2) dest: assms(3) simp: iob_eq_Ret ret_def)

lemma neutral_loops: "neutral (read_retry fd n)" "neutral (wait_child_blocking pid)" "neutral (poll_retry fds timeout)"
  by (rule neutral_retry [OF read_retry.simps neutral_calls(1) calls_less(1)]
        neutral_retry [OF wait_child_blocking.simps neutral_calls(2)] neutral_retry [OF poll_retry.simps neutral_calls(3)];
      auto dest: calls_less; fail)+

lemmas owns_loops [owns_step] = neutral_loops [THEN owns_neutral]

lemma neutral_session_cgroup_populated: "neutral (session_cgroup_populated s)"
  unfolding session_cgroup_populated_def
  by (rule neutralI, intro owns_constr owns_step) simp_all

lemma iob_ext: "(\<And>x w. f x w = g x w) \<Longrightarrow> iob m f w' = iob m g w'"
  by (auto simp: iob_def split: prod.split outcome.split)

lemma neutral_wait_cgroup_empty: "neutral (wait_cgroup_empty s deadline)"
proof (rule neutral_iterate [where turn = "iob (session_cgroup_populated s) (\<lambda>populated.
      if populated = Some False then ret (Inr True) else if populated = None then ret (Inr False)
      else iob now_ms (\<lambda>now. if sint now \<ge> sint deadline then ret (Inr False)
        else iob (sys_num ''usleep'' [1000] []) (\<lambda>_. ret (Inl ()))))"])
  let ?turn = "iob (session_cgroup_populated s) (\<lambda>populated.
      if populated = Some False then ret (Inr True) else if populated = None then ret (Inr False)
      else iob now_ms (\<lambda>now. if sint now \<ge> sint deadline then ret (Inr False)
        else iob (sys_num ''usleep'' [1000] []) (\<lambda>_. ret (Inl ()))))"
  show "wait_cgroup_empty s deadline w = iob ?turn (\<lambda>r w'. case r of Inl _ \<Rightarrow> wait_cgroup_empty s deadline w' | Inr x \<Rightarrow> ret x w') w" for w
    by (subst wait_cgroup_empty.simps, unfold iob_assoc, rule iob_ext, simp add: iob_assoc, intro impI iob_ext)
       (simp add: iob_assoc)
  show "neutral ?turn"
    by (rule neutralI, intro owns_neutral [OF neutral_session_cgroup_populated] owns_step) simp_all
  show "length (w_answers w') < length (w_answers w)" if "?turn w = (Ret (Inl t), w')" for w t w'
    using that by (auto simp: iob_eq_Ret ret_def split: if_split_asm
        dest!: calls_less shrinksD [OF shrinks_now_ms] shrinksD [OF shrinks_session_cgroup_populated])
qed

lemma neutral_start_steps:
  "neutral (kill_process pid)" "neutral set_command_exit" "neutral (apply_terminal_size fd rows cols)"
  "neutral (session_cgroup_setup_error s msg)" "neutral (write_cgroup_file s file msg)" "neutral (read_ready fd isolated)"
  "neutral (spore_build_run_sandbox_attach_device_policy path cap)"
  unfolding kill_process_def set_command_exit_def apply_terminal_size_def session_cgroup_setup_error_def write_cgroup_file_def
    read_ready_def spore_build_run_sandbox_attach_device_policy_def Let_def
  by (rule neutralI, intro owns_constr owns_step; simp; fail)+

lemmas owns_start_steps [owns_step] = neutral_wait_cgroup_empty [THEN owns_neutral] neutral_start_steps [THEN owns_neutral]

section \<open>The cgroup\<close>

lemma owns_close_session_cgroup [owns_step]:
  "0 \<le> k \<Longrightarrow> (\<And>s'. Q s' (u k (s_memory_pressure_fd s') - u k (s_memory_pressure_fd s))) \<Longrightarrow> owns k (close_session_cgroup s) Q"
proof -
  assume k: "0 \<le> k" and Q: "\<And>s'. Q s' (u k (s_memory_pressure_fd s') - u k (s_memory_pressure_fd s))"
  have "Q s' (- u k (s_memory_pressure_fd s))" if "s_memory_pressure_fd s' < 0" for s'
    using Q [of s'] k that by (simp add: u_negative)
  moreover have "Q s' 0" if "s_memory_pressure_fd s' = s_memory_pressure_fd s" for s'
    using Q [of s'] that by simp
  ultimately show ?thesis
    unfolding close_session_cgroup_def by (intro owns_constr owns_step) simp_all
qed

lemma owns_setup_session_cgroup [owns_step]:
  assumes k: "0 \<le> k" and s: "s_memory_pressure_fd s < 0" and Q: "\<And>ok s'. Q (ok, s') (u k (s_memory_pressure_fd s'))"
  shows "owns k (setup_session_cgroup s pid memory_pressure) Q"
proof -
  have Q0: "Q (ok, t) 0" if "s_memory_pressure_fd t < 0" for ok t
    using Q [of ok t] u_negative [OF k that] by simp
  have Q1: "Q (ok, t\<lparr>s_memory_pressure_fd := n\<rparr>) (u k n)" for ok t n
    using Q [of ok "t\<lparr>s_memory_pressure_fd := n\<rparr>"] by simp
  show ?thesis
    unfolding setup_session_cgroup_def session_cgroup_setup_error_def Let_def
    by (intro owns_open_any owns_any neutral_basic neutral_cases neutral_calls neutral_helpers neutral_write_pid_file
          neutral_start_steps neutral_num owns_constr owns_if owns_cases owns_basic)
       (use k s in \<open>simp_all add: Q0 Q1\<close>)
qed

lemma owns_abort_session_cgroup_setup [owns_step]:
  assumes "0 \<le> k" "\<And>ok s'. Q (ok, s') (u k (s_memory_pressure_fd s') - u k (s_memory_pressure_fd s))"
  shows "owns k (abort_session_cgroup_setup s pid) Q"
proof -
  have "Q (False, s) 0" using assms(2) [of False s] by simp
  with assms show ?thesis
    unfolding abort_session_cgroup_setup_def by (intro owns_constr owns_step) simp_all
qed

section \<open>The start\<close>

lemma owns_open_session_pty [owns_step]:
  "0 \<le> k \<Longrightarrow> Q None 0 \<Longrightarrow> (\<And>m s. Q (Some (m, s)) (u k m + u k s)) \<Longrightarrow> owns k (open_session_pty rows cols) Q"
  unfolding open_session_pty_def by (intro owns_constr owns_step) simp_all

text \<open>The descriptors a session has open: those of its streams once it has started, and its memory events.\<close>

definition session_fds :: "int \<Rightarrow> int \<Rightarrow> session \<Rightarrow> int" where
  "session_fds k rc s = u k (s_memory_pressure_fd s) +
     (if rc = 0 then u k (s_stdin_fd s) + u k (s_stdout_fd s) + u k (s_stderr_fd s) else 0)"

definition parent_ends :: "int \<Rightarrow> start_pipes \<Rightarrow> int" where
  "parent_ends k p = u k (snd (p_stdin p)) + u k (p_master p) + u k (fst (p_stdout p)) + u k (fst (p_stderr p))"

lemma owns_start_parent [owns_step]:
  assumes k: "0 \<le> k" and s: "s_memory_pressure_fd s < 0"
    and tty: "if o_tty options then fst (p_stdout p) < 0 else p_master p < 0"
    and Q: "\<And>rc s'. Q (rc, s') (session_fds k rc s' - parent_ends k p - u k (snd (p_start p)) - u k (fst (p_ready p)))"
  shows "owns k (start_parent p s pid session_id options) Q"
proof -
  have Q': "Q (rc, t) b" if "b = session_fds k rc t - parent_ends k p - u k (snd (p_start p)) - u k (fst (p_ready p))" for rc t b
    using Q that by simp
  show ?thesis
    unfolding start_parent_def Let_def
    by (intro owns_constr owns_step owns_never safe_fail_closed Q' k s)
       (use k s tty in \<open>simp_all add: session_fds_def parent_ends_def u_negative split: if_split_asm\<close>)
qed

lemma owns_start_failed [owns_step]: "0 \<le> k \<Longrightarrow> Q (127, s) (- sum_list (map (u k) fds)) \<Longrightarrow> owns k (start_failed fds s) Q"
  unfolding start_failed_def by (intro owns_step) simp_all

definition pipes_own :: "session_start_options \<Rightarrow> start_pipes \<Rightarrow> bool" where
  "pipes_own options p \<longleftrightarrow> (if o_tty options then p_stdout p = no_pipe \<and> p_stderr p = no_pipe else p_master p = - 1 \<and> p_slave p = - 1)"

lemma owns_open_output [owns_step]:
  assumes "0 \<le> k" "Q None 0"
    "\<And>p. pipes_own options p \<Longrightarrow> p_stdin p = no_pipe \<Longrightarrow> Q (Some p) (sum_list (map (u k) (output_fds p)))"
  shows "owns k (open_output options) Q"
proof -
  have Q: "Q (Some p) b" if "pipes_own options p" "p_stdin p = no_pipe" "b = sum_list (map (u k) (output_fds p))" for p b
    using assms(3) that by simp
  show ?thesis
    unfolding open_output_def Let_def
    by (intro owns_constr owns_step Q assms(1))
       (use assms(1,2) in \<open>simp_all add: pipes_own_def output_fds_def no_pipe_def u_negative\<close>)
qed



end
