(* ===== verification/Detached.thy ===== *)
theory Detached
  imports Session_Descriptors "HOL-Library.Multiset"
begin

text \<open>
  \<^verbatim>\<open>detached.c\<close>: commands that run on after their request has been answered, the reaping of them,
  and the bounded output that is retained of the first command of a machine.
\<close>

section \<open>State\<close>

definition MAX_DETACHED_CHILDREN :: nat where "MAX_DETACHED_CHILDREN = 32"

definition INITIAL_OUTPUT_HEADER_LEN :: nat where "INITIAL_OUTPUT_HEADER_LEN = 3"

definition INITIAL_OUTPUT_CAP :: nat where "INITIAL_OUTPUT_CAP = 16 * 1024 - INITIAL_OUTPUT_HEADER_LEN"

text \<open>The first \<open>count\<close> entries of an array are a list; its capacity is checked where it grows.\<close>

record detached_children =
  dc_pids :: "int list"
  dc_retained_pid :: int
  dc_retained_stdout_fd :: int
  dc_retained_stderr_fd :: int
  dc_retained_exited :: bool
  dc_retained_exit_code :: int
  dc_retained_stdout_truncated :: bool
  dc_retained_stderr_truncated :: bool
  dc_retained_stdout :: bytes
  dc_retained_stderr :: bytes

section \<open>Reaping\<close>

definition retained_code :: "wstatus option \<Rightarrow> int" where
  "retained_code st = (case st of
     Some (Exited n) \<Rightarrow> int n
   | Some (Signaled n) \<Rightarrow> (if 128 + int n > 255 then 255 else 128 + int n)
   | _ \<Rightarrow> 255)"

text \<open>The last entry takes the place of the removed one. \<open>st\<close> is the status, none when there is no such child.\<close>

definition remove_child :: "nat \<Rightarrow> wstatus option \<Rightarrow> detached_children \<Rightarrow> detached_children" where
  "remove_child i st children =
     (let pids = dc_pids children;
          children = (if pids ! i = dc_retained_pid children \<and> \<not> dc_retained_exited children
            then children\<lparr>dc_retained_exited := True, dc_retained_exit_code := retained_code st\<rparr> else children);
          count = length pids - 1
      in children\<lparr>dc_pids := (if i < count then (take count pids)[i := pids ! count] else take count pids)\<rparr>)"

definition reap_turn :: "nat \<times> detached_children \<Rightarrow> (nat \<times> detached_children + detached_children) io" where
  "reap_turn s =
     (let (i, children) = s in
      if i \<ge> length (dc_pids children) then ret (Inr children)
      else iob (sys_wait (dc_pids children ! i) True) (\<lambda>r.
        case r of
          Inr (rc, status, _) \<Rightarrow>
            if rc = dc_pids children ! i then ret (Inl (i, remove_child i (Some status) children)) else ret (Inl (i + 1, children))
        | Inl e \<Rightarrow>
            if e = ECHILD then ret (Inl (i, remove_child i None children))
            else if e = EINTR then ret (Inl (i, children)) else ret (Inl (i + 1, children))))"

lemma iob_wait_less:
  "iob (sys_wait p b) f w = (Ret y, w') \<Longrightarrow> (\<And>r. shrinks (f r)) \<Longrightarrow> length (w_answers w') < length (w_answers w)"
  by (fastforce simp: iob_eq_Ret dest: calls_less shrinksD)

lemma reap_turn_less: "reap_turn s w = (Ret (Inl s'), w') \<Longrightarrow> length (w_answers w') < length (w_answers w)"
  unfolding reap_turn_def Let_def case_prod_unfold
  by (split if_split_asm, simp add: ret_def, erule iob_wait_less) (intro shrinks_intro shrinks_cases)

function reap_loop :: "nat \<times> detached_children \<Rightarrow> detached_children io" where
  "reap_loop s w = iob (reap_turn s) (\<lambda>r w'. case r of Inl s' \<Rightarrow> reap_loop s' w' | Inr x \<Rightarrow> ret x w') w"
  by pat_completeness auto
termination
  by (relation "measure (\<lambda>(s, w). length (w_answers w))") (auto dest: reap_turn_less)

declare reap_loop.simps [simp del]

definition reap_detached_children :: "detached_children \<Rightarrow> detached_children io" where
  "reap_detached_children children = reap_loop (0, children)"

section \<open>Retained output\<close>

text \<open>Once the buffer is full, output is read and dropped, and the stream is marked truncated.\<close>

definition drain_turn :: "int \<times> bytes \<times> bool \<Rightarrow> (int \<times> bytes \<times> bool + int \<times> bytes \<times> bool) io" where
  "drain_turn s =
     (let (fd, output, truncated) = s;
          to_output = length output < INITIAL_OUTPUT_CAP;
          shut = iob (close_fd_if_open fd) (\<lambda>fd. ret (Inr (fd, output, truncated)))
      in iob (sys_read fd (if to_output then INITIAL_OUTPUT_CAP - length output else MAX_FRAME_PAYLOAD)) (\<lambda>r.
        case r of
          Inr bs \<Rightarrow>
            if bs \<noteq> [] then ret (Inl (if to_output then (fd, output @ bs, truncated) else (fd, output, True))) else shut
        | Inl e \<Rightarrow> if e = EINTR then ret (Inl s) else if e = EAGAIN then ret (Inr s) else shut))"

lemma shrinks_close_fd_if_open [shrinks_intro]: "shrinks (close_fd_if_open fd)"
  unfolding close_fd_if_open_def by (intro shrinks_intro)

lemma drain_turn_less: "drain_turn s w = (Ret (Inl s'), w') \<Longrightarrow> length (w_answers w') < length (w_answers w)"
  unfolding drain_turn_def Let_def case_prod_unfold
  by (erule iob_calls_less) (intro shrinks_intro shrinks_cases)

function drain_loop :: "int \<times> bytes \<times> bool \<Rightarrow> (int \<times> bytes \<times> bool) io" where
  "drain_loop s w = iob (drain_turn s) (\<lambda>r w'. case r of Inl s' \<Rightarrow> drain_loop s' w' | Inr x \<Rightarrow> ret x w') w"
  by pat_completeness auto
termination
  by (relation "measure (\<lambda>(s, w). length (w_answers w))") (auto dest: drain_turn_less)

declare drain_loop.simps [simp del]

definition drain_retained_stream :: "int \<Rightarrow> bytes \<Rightarrow> bool \<Rightarrow> (int \<times> bytes \<times> bool) io" where
  "drain_retained_stream fd output truncated = (if fd < 0 then ret (fd, output, truncated) else drain_loop (fd, output, truncated))"

definition drain_retained_output :: "detached_children \<Rightarrow> detached_children io" where
  "drain_retained_output children =
     iob (drain_retained_stream (dc_retained_stdout_fd children) (dc_retained_stdout children)
       (dc_retained_stdout_truncated children)) (\<lambda>(fd, output, truncated).
     let children = children\<lparr>dc_retained_stdout_fd := fd, dc_retained_stdout := output, dc_retained_stdout_truncated := truncated\<rparr> in
     iob (drain_retained_stream (dc_retained_stderr_fd children) (dc_retained_stderr children)
       (dc_retained_stderr_truncated children)) (\<lambda>(fd, output, truncated).
     ret (children\<lparr>dc_retained_stderr_fd := fd, dc_retained_stderr := output, dc_retained_stderr_truncated := truncated\<rparr>)))"

definition retained_header :: "detached_children \<Rightarrow> bytes" where
  "retained_header children =
     [if dc_retained_exited children then 1 else 0,
      if dc_retained_exited children then of_int (dc_retained_exit_code children) else 0,
      (if dc_retained_stdout_truncated children then 1 else 0) OR (if dc_retained_stderr_truncated children then 2 else 0)]"

definition send_retained_output :: "client \<Rightarrow> detached_children \<Rightarrow> (bool \<times> client \<times> detached_children) io" where
  "send_retained_output client children =
     iob (reap_detached_children children) (\<lambda>children.
     iob (drain_retained_output children) (\<lambda>children.
     if dc_retained_pid children \<le> 0 then
       iob (send_client_error_exit client 2 (lit ''spore vm create: initial output was not retained'' @ [10]))
         (\<lambda>(ok, client). ret (ok, client, children))
     else
       iob (send_spio_data (c_fd client) SPIO_STDOUT_STREAM 0 (retained_header children)) (\<lambda>ok.
       if \<not> ok then ret (False, client, children)
       else iob (send_spio_data (c_fd client) SPIO_STDOUT_STREAM (of_nat INITIAL_OUTPUT_HEADER_LEN) (dc_retained_stdout children)) (\<lambda>ok.
         if \<not> ok then ret (False, client, children)
         else iob (send_spio_data (c_fd client) SPIO_STDERR_STREAM 0 (dc_retained_stderr children)) (\<lambda>ok.
           if \<not> ok then ret (False, client, children)
           else iob (send_client_exit client 0) (\<lambda>ok. ret (ok, client, children)))))))"

section \<open>Starting a detached command\<close>

definition detached_child_fail :: "int \<Rightarrow> 'a io" where
  "detached_child_fail status_fd =
     iob (if status_fd \<ge> 0 then iob (write_all status_fd (lit ''!'')) (\<lambda>_. ret ()) else ret ()) (\<lambda>_. exit_process 127)"

record detached_pipes =
  dp_devnull :: int
  dp_start :: "int \<times> int"
  dp_exec :: "int \<times> int"
  dp_stdout :: "int \<times> int"
  dp_stderr :: "int \<times> int"

definition detached_fds :: "detached_pipes \<Rightarrow> int list" where
  "detached_fds p = [dp_devnull p, fst (dp_start p), snd (dp_start p), fst (dp_exec p), snd (dp_exec p),
     fst (dp_stdout p), snd (dp_stdout p), fst (dp_stderr p), snd (dp_stderr p)]"

text \<open>Each pipe is opened only when everything before it was.\<close>

definition open_pipe :: "((int \<times> int) \<Rightarrow> detached_pipes \<Rightarrow> detached_pipes) \<Rightarrow> bool \<times> detached_pipes \<Rightarrow> (bool \<times> detached_pipes) io" where
  "open_pipe put s =
     (if \<not> fst s then ret s
      else iob (sys_pipe2 O_CLOEXEC) (\<lambda>r. ret (case r of Inl e \<Rightarrow> (False, snd s) | Inr fds \<Rightarrow> (True, put fds (snd s)))))"

definition open_detached :: "bool \<Rightarrow> (bool \<times> detached_pipes) io" where
  "open_detached retain_output =
     iob (sys_num ''open'' [2 OR O_CLOEXEC] [lit ''/dev/null'']) (\<lambda>devnull.
     let p = \<lparr>dp_devnull = (case devnull of Inl e \<Rightarrow> - 1 | Inr fd \<Rightarrow> fd), dp_start = no_pipe, dp_exec = no_pipe, dp_stdout = no_pipe, dp_stderr = no_pipe\<rparr> in
     iob (open_pipe (\<lambda>fds p. p\<lparr>dp_start := fds\<rparr>) (\<not> isl devnull, p)) (\<lambda>s.
     iob (open_pipe (\<lambda>fds p. p\<lparr>dp_exec := fds\<rparr>) s) (\<lambda>s.
     if \<not> retain_output then ret s
     else iob (open_pipe (\<lambda>fds p. p\<lparr>dp_stdout := fds\<rparr>) s) (open_pipe (\<lambda>fds p. p\<lparr>dp_stderr := fds\<rparr>)))))"

definition dup2_or_fail :: "int \<Rightarrow> int \<Rightarrow> int \<Rightarrow> unit io" where
  "dup2_or_fail status_fd old new =
     iob (sys_num ''dup2'' [old, new] []) (\<lambda>r. case r of Inl e \<Rightarrow> detached_child_fail status_fd | Inr _ \<Rightarrow> ret ())"

definition detached_child :: "detached_pipes \<Rightarrow> bytes list \<Rightarrow> bytes list \<Rightarrow> bytes \<Rightarrow> bool \<Rightarrow> bool \<Rightarrow> 'a io" where
  "detached_child p argv envp working_dir use_rootfs retain_output =
     iob (close_fds [snd (dp_start p), fst (dp_exec p)]) (\<lambda>_.
     iob (close_open [fst (dp_stdout p), fst (dp_stderr p)]) (\<lambda>_.
     iob (read_retry (fst (dp_start p)) 1) (\<lambda>r.
     iob (if r \<noteq> Inr [1] then detached_child_fail (snd (dp_exec p)) else ret ()) (\<lambda>_.
     iob (close_fds [fst (dp_start p)]) (\<lambda>_.
     iob (dup2_or_fail (snd (dp_exec p)) (dp_devnull p) 0) (\<lambda>_.
     iob (dup2_or_fail (snd (dp_exec p)) (if retain_output then snd (dp_stdout p) else dp_devnull p) 1) (\<lambda>_.
     iob (dup2_or_fail (snd (dp_exec p)) (if retain_output then snd (dp_stderr p) else dp_devnull p) 2) (\<lambda>_.
     iob (close_open [snd (dp_stdout p), snd (dp_stderr p)]) (\<lambda>_.
     iob (close_fds [dp_devnull p]) (\<lambda>_.
     iob (if use_rootfs then
            iob (sys_num ''chroot'' [] [lit ''/mnt/rootfs'']) (\<lambda>r. if r \<noteq> Inr 0 then detached_child_fail (snd (dp_exec p)) else ret ())
          else ret ()) (\<lambda>_.
     iob (sys_num ''chdir'' [] [if working_dir \<noteq> [] then working_dir else lit ''/'']) (\<lambda>r.
     if r \<noteq> Inr 0 then detached_child_fail (snd (dp_exec p))
     else execve_or_report argv envp use_rootfs (snd (dp_exec p)) EXEC_LOOKUP_PATH))))))))))))"

definition detached_failed :: "int list \<Rightarrow> detached_children \<Rightarrow> (int \<times> detached_children) io" where
  "detached_failed fds children = iob (close_open fds) (\<lambda>_. iob set_command_exit (\<lambda>_. ret (127, children)))"

definition detached_abort :: "int list \<Rightarrow> int \<Rightarrow> detached_children \<Rightarrow> (int \<times> detached_children) io" where
  "detached_abort fds pid children =
     iob (close_open fds) (\<lambda>_.
     iob (kill_process pid) (\<lambda>_.
     iob (wait_child_blocking pid) (\<lambda>_.
     iob set_command_exit (\<lambda>_. ret (127, children)))))"

definition add_pid :: "detached_children \<Rightarrow> int \<Rightarrow> detached_children io" where
  "add_pid children pid =
     (if length (dc_pids children) < MAX_DETACHED_CHILDREN then ret (children\<lparr>dc_pids := dc_pids children @ [pid]\<rparr>) else undef)"

definition retain :: "detached_pipes \<Rightarrow> int \<Rightarrow> detached_children \<Rightarrow> detached_children" where
  "retain p pid children = children\<lparr>
     dc_retained_pid := pid, dc_retained_stdout_fd := fst (dp_stdout p), dc_retained_stderr_fd := fst (dp_stderr p),
     dc_retained_exited := False, dc_retained_exit_code := 0, dc_retained_stdout_truncated := False,
     dc_retained_stderr_truncated := False, dc_retained_stdout := [], dc_retained_stderr := []\<rparr>"

text \<open>The parent after the fork: it releases the child and waits until the child has executed its command.\<close>

definition detached_parent :: "detached_pipes \<Rightarrow> int \<Rightarrow> bool \<Rightarrow> detached_children \<Rightarrow> (int \<times> detached_children) io" where
  "detached_parent p pid retain_output children =
     (let outs = [fst (dp_stdout p), fst (dp_stderr p)] in
      iob (write_all (snd (dp_start p)) [1]) (\<lambda>ok.
      if \<not> ok then detached_abort ([snd (dp_start p), fst (dp_exec p)] @ outs) pid children
      else
        iob (close_open [snd (dp_start p)]) (\<lambda>_.
        iob (read_retry (fst (dp_exec p)) 1) (\<lambda>n.
        iob (close_open [fst (dp_exec p)]) (\<lambda>_.
        if n \<noteq> Inr [] then detached_abort outs pid children
        else iob (add_pid children pid) (\<lambda>children'.
          if \<not> retain_output then iob set_command_exit (\<lambda>_. ret (0, children'))
          else iob (iob (set_nonblock (fst (dp_stdout p))) (\<lambda>ok. if \<not> ok then ret False else set_nonblock (fst (dp_stderr p)))) (\<lambda>ok.
            if \<not> ok then detached_abort outs pid children
            else iob set_command_exit (\<lambda>_. ret (0, retain p pid children')))))))))"

definition start_detached :: "bytes list \<Rightarrow> bytes list \<Rightarrow> bytes \<Rightarrow> bool \<Rightarrow> bool \<Rightarrow> detached_children \<Rightarrow> (int \<times> detached_children) io" where
  "start_detached argv envp working_dir use_rootfs retain_output children =
     iob now_ms (\<lambda>t.
     iob (modify (\<lambda>w. w\<lparr>w_t_command_start := t\<rparr>)) (\<lambda>_.
     iob (reap_detached_children children) (\<lambda>children.
     if length (dc_pids children) \<ge> MAX_DETACHED_CHILDREN then detached_failed [] children
     else if retain_output \<and> dc_retained_pid children > 0 then detached_failed [] children
     else iob (open_detached retain_output) (\<lambda>(ok, p).
       if \<not> ok then detached_failed (detached_fds p) children
       else iob (sys_num ''fork'' [] []) (\<lambda>pid.
         if pid = Inr 0 then detached_child p argv envp working_dir use_rootfs retain_output
         else
           iob (close_open [dp_devnull p, fst (dp_start p), snd (dp_exec p), snd (dp_stdout p), snd (dp_stderr p)]) (\<lambda>_.
           case pid of
             Inl e \<Rightarrow> detached_failed [snd (dp_start p), fst (dp_exec p), fst (dp_stdout p), fst (dp_stderr p)] children
           | Inr pid \<Rightarrow> detached_parent p pid retain_output children))))))"

section \<open>Retained output is the first output\<close>

definition drained :: "int \<times> bytes \<times> bool \<Rightarrow> int \<times> bytes \<times> bool \<Rightarrow> event list \<Rightarrow> bool" where
  "drained s s' tr \<longleftrightarrow>
     (case (s, s') of ((fd, output, truncated), (fd', output', truncated')) \<Rightarrow>
        output' = take INITIAL_OUTPUT_CAP (output @ input fd tr) \<and>
        (truncated' \<longleftrightarrow> truncated \<or> INITIAL_OUTPUT_CAP < length (output @ input fd tr)) \<and>
        (fd' = fd \<or> fd' = - 1) \<and> (\<forall>k\<ge>0. bal k tr = u k fd' - u k fd))"

lemma adds_close_fd_if_open:
  "adds (close_fd_if_open fd) (\<lambda>fd' tr. (fd' = fd \<or> fd' = - 1) \<and> fd' < 0 \<and> (\<forall>j. input j tr = []) \<and>
     (\<forall>k\<ge>0. bal k tr = u k fd' - u k fd)) (\<lambda>_. True)"
  unfolding close_fd_if_open_def by (intro adds_step) (auto simp: u_negative)

lemma drained_more:
  assumes "length output \<le> INITIAL_OUTPUT_CAP" "length bs \<le> (if length output < INITIAL_OUTPUT_CAP then INITIAL_OUTPUT_CAP - length output else n)"
    "bs \<noteq> []"
    "drained (if length output < INITIAL_OUTPUT_CAP then (fd, output @ bs, truncated) else (fd, output, True)) s' tr"
  shows "drained (fd, output, truncated) s' ((Read fd m, Data bs) # tr)"
  using assms by (cases s') (auto simp: drained_def split: if_split_asm)

lemma adds_drain_loop:
  assumes "length output \<le> INITIAL_OUTPUT_CAP"
  shows "adds (drain_loop (fd, output, truncated)) (drained (fd, output, truncated)) (\<lambda>_. True)"
proof (rule adds_iterate [OF drain_loop.simps drain_turn_less, where I = "\<lambda>(_, output, _). length output \<le> INITIAL_OUTPUT_CAP"
      and F = "\<lambda>_ _. True" and P = drained])
  fix s :: "int \<times> bytes \<times> bool"
  assume I: "case s of (_, output, _) \<Rightarrow> length output \<le> INITIAL_OUTPUT_CAP"
  obtain fd out truncated where s: "s = (fd, out, truncated)" by (cases s)
  show "adds (drain_turn s)
      (\<lambda>r tr. case r of Inl s' \<Rightarrow> (case s' of (_, output, _) \<Rightarrow> length output \<le> INITIAL_OUTPUT_CAP) \<and>
          (\<forall>x tr'. drained s' x tr' \<longrightarrow> drained s x (tr @ tr')) \<and> (\<forall>tr'. True \<longrightarrow> True)
        | Inr x \<Rightarrow> drained s x tr) (\<lambda>_. True)"
    using I unfolding drain_turn_def Let_def s prod.case
    by (intro adds_step adds_iob [OF adds_close_fd_if_open]) (simp_all add: drained_more, auto simp: drained_def)
qed (use assms in simp_all)

section \<open>Reaping takes exactly the children that are gone\<close>

definition wait_done :: "int \<Rightarrow> wstatus option \<Rightarrow> event list \<Rightarrow> bool" where
  "wait_done pid st tr \<longleftrightarrow> (case st of
     Some s \<Rightarrow> \<exists>ru. (Wait pid True, Status pid s ru) \<in> set tr | None \<Rightarrow> (Wait pid True, Err ECHILD) \<in> set tr)"

text \<open>The child was asked for, and the answer was not that it is gone.\<close>

definition wait_running :: "int \<Rightarrow> event list \<Rightarrow> bool" where
  "wait_running pid tr \<longleftrightarrow> (\<exists>a. (Wait pid True, a) \<in> set tr \<and> a \<noteq> Err ECHILD \<and> (\<forall>s ru. a \<noteq> Status pid s ru))"

definition reaped :: "int list \<Rightarrow> detached_children \<Rightarrow> detached_children \<Rightarrow> event list \<Rightarrow> bool" where
  "reaped gone c c' tr \<longleftrightarrow>
     (\<forall>p\<in>set gone. \<exists>st. wait_done p st tr) \<and>
     (\<exists>pids. mset (dc_pids c) = mset gone + mset pids \<and>
       (if dc_retained_pid c \<in> set gone \<and> \<not> dc_retained_exited c
        then \<exists>st. wait_done (dc_retained_pid c) st tr \<and>
          c' = c\<lparr>dc_retained_exited := True, dc_retained_exit_code := retained_code st, dc_pids := pids\<rparr>
        else c' = c\<lparr>dc_pids := pids\<rparr>))"

definition reap_outcome :: "nat \<times> detached_children \<Rightarrow> detached_children \<Rightarrow> event list \<Rightarrow> bool" where
  "reap_outcome s c' tr \<longleftrightarrow> (case s of (i, c) \<Rightarrow>
     take i (dc_pids c') = take i (dc_pids c) \<and> (\<exists>gone. reaped gone c c' tr) \<and>
     (\<forall>p\<in>set (drop i (dc_pids c')). wait_running p tr) \<and> (\<forall>k. bal k tr = 0))"

lemma wait_mono: "wait_done p st tr \<Longrightarrow> wait_done p st (e # tr)" "wait_running p tr \<Longrightarrow> wait_running p (e # tr)"
  by (auto simp: wait_done_def wait_running_def split: option.splits)

lemma reaped_mono: "reaped gone c c' tr \<Longrightarrow> reaped gone c c' (e # tr)"
  by (auto simp: reaped_def intro: wait_mono split: if_splits)

lemma mset_swap_last:
  assumes "i < length xs"
  shows "mset xs = add_mset (xs ! i) (mset (if i < length xs - 1 then (take (length xs - 1) xs)[i := xs ! (length xs - 1)] else take (length xs - 1) xs))"
proof -
  from assms have "xs \<noteq> []" by auto
  then have xs: "xs = butlast xs @ [last xs]" and n: "xs ! (length xs - 1) = last xs" "take (length xs - 1) xs = butlast xs"
    by (simp, simp_all add: last_conv_nth butlast_conv_take)
  show ?thesis
  proof (cases "i < length xs - 1")
    case True
    then have i: "xs ! i = butlast xs ! i" "i < length (butlast xs)" by (simp_all add: nth_butlast)
    then have "butlast xs ! i \<in># mset (butlast xs)" by simp
    then have "add_mset (last xs) (mset (butlast xs)) = add_mset (butlast xs ! i) (add_mset (last xs) (mset (butlast xs) - {#butlast xs ! i#}))"
      by (metis add_mset_commute insert_DiffM)
    moreover have "mset xs = add_mset (last xs) (mset (butlast xs))"
      by (subst xs) simp
    ultimately show ?thesis
      using True i by (simp only: n if_True mset_update [OF i(2)])
  next
    case False
    with assms have "i = length xs - 1" by simp
    then show ?thesis by (subst xs) (simp add: n [unfolded One_nat_def])
  qed
qed

lemma remove_child_pids:
  assumes "i < length (dc_pids c)"
  shows "mset (dc_pids c) = add_mset (dc_pids c ! i) (mset (dc_pids (remove_child i st c)))"
    "take i (dc_pids (remove_child i st c)) = take i (dc_pids c)"
  using mset_swap_last [OF assms] assms by (auto simp: remove_child_def Let_def min_def)

lemma reap_outcome_gone:
  assumes "i < length (dc_pids c)" "wait_done (dc_pids c ! i) st [e]" "\<forall>k. ev_bal k e = 0"
    "reap_outcome (i, remove_child i st c) c' tr"
  shows "reap_outcome (i, c) c' (e # tr)"
proof -
  let ?p = "dc_pids c ! i" and ?d = "remove_child i st c"
  from assms(4) obtain gone where gone: "reaped gone ?d c' tr" by (auto simp: reap_outcome_def)
  have "wait_done ?p st (e # tr)"
    using assms(2) by (auto simp: wait_done_def split: option.splits)
  moreover have "dc_retained_pid ?d = dc_retained_pid c" by (simp add: remove_child_def Let_def)
  ultimately have "reaped (?p # gone) c c' (e # tr)"
    using reaped_mono [OF gone, of e] remove_child_pids(1) [OF assms(1), of st]
    by (auto simp: reaped_def remove_child_def Let_def split: if_splits)
  with assms(3,4) show ?thesis
    by (auto simp: reap_outcome_def remove_child_pids [OF assms(1)] intro: wait_mono)
qed

lemma reap_outcome_skip:
  assumes "i < length (dc_pids c)" "wait_running (dc_pids c ! i) [e]" "\<forall>k. ev_bal k e = 0" "reap_outcome (i + 1, c) c' tr"
  shows "reap_outcome (i, c) c' (e # tr)"
proof -
  from assms(1,4) have t: "take (i + 1) (dc_pids c') = take (i + 1) (dc_pids c)" by (simp add: reap_outcome_def)
  from arg_cong [OF this, of length] assms(1) have len: "i < length (dc_pids c')"
    by (simp add: min_def split: if_split_asm)
  then have d: "drop i (dc_pids c') = dc_pids c' ! i # drop (i + 1) (dc_pids c')"
    by (simp add: Cons_nth_drop_Suc)
  from t have "dc_pids c' ! i = dc_pids c ! i" by (metis less_add_one nth_take)
  moreover have "take i (dc_pids c') = take i (dc_pids c)"
    using arg_cong [OF t, of "take i"] by simp
  moreover have "wait_running (dc_pids c ! i) (e # tr)"
    using assms(2) by (auto simp: wait_running_def)
  ultimately show ?thesis
    using assms(3,4) by (auto simp: reap_outcome_def d intro: wait_mono reaped_mono)
qed

lemma reap_outcome_again: "\<forall>k. ev_bal k e = 0 \<Longrightarrow> reap_outcome (i, c) c' tr \<Longrightarrow> reap_outcome (i, c) c' (e # tr)"
  by (auto simp: reap_outcome_def intro: wait_mono reaped_mono)

lemma reap_outcome_end: "length (dc_pids c) \<le> i \<Longrightarrow> reap_outcome (i, c) c []"
proof -
  have "reaped [] c c []" unfolding reaped_def by (auto intro: exI [of _ "dc_pids c"])
  then show "length (dc_pids c) \<le> i \<Longrightarrow> reap_outcome (i, c) c []"
    by (auto simp: reap_outcome_def)
qed

lemma adds_reap_loop: "adds (reap_loop s) (reap_outcome s) (\<lambda>_. True)"
proof (rule adds_iterate [OF reap_loop.simps reap_turn_less, where I = "\<lambda>_. True" and F = "\<lambda>_ _. True" and P = reap_outcome])
  fix s :: "nat \<times> detached_children"
  obtain i c where s: "s = (i, c)" by (cases s)
  show "adds (reap_turn s)
      (\<lambda>r tr. case r of Inl s' \<Rightarrow> True \<and>
          (\<forall>x tr'. reap_outcome s' x tr' \<longrightarrow> reap_outcome s x (tr @ tr')) \<and> (\<forall>tr'. True \<longrightarrow> True)
        | Inr x \<Rightarrow> reap_outcome s x tr) (\<lambda>_. True)"
    unfolding reap_turn_def Let_def s prod.case
    by (intro adds_step)
       (auto simp: wait_done_def wait_running_def intro: reap_outcome_gone [where st = None] reap_outcome_gone [where st = "Some s" for s]
          reap_outcome_skip reap_outcome_again reap_outcome_end)
qed simp_all

text \<open>C33. Reaping detached children: the entries that leave the table are children whose wait reported
  them gone, each entry that stays was asked for and is running, and the exit of the retained command
  is recorded, with its code, exactly when its entry leaves the table.
\<close>

theorem reap_detached_children_spec:
  "adds (reap_detached_children c)
     (\<lambda>c' tr. (\<exists>gone. reaped gone c c' tr) \<and> list_all (\<lambda>p. wait_running p tr) (dc_pids c')) (\<lambda>_. True)"
  unfolding reap_detached_children_def
  by (rule adds_mono [OF adds_reap_loop]) (auto simp: reap_outcome_def list_all_iff)

text \<open>C34. The retained output of a stream is the first bytes of everything read from it, up to the
  capacity of the buffer, and the stream is marked truncated exactly when more was read.
\<close>

theorem drain_retained_stream_spec:
  assumes "length out \<le> INITIAL_OUTPUT_CAP" "0 \<le> fd"
  shows "adds (drain_retained_stream fd out truncated)
     (\<lambda>(fd', out', truncated') tr. out' = take INITIAL_OUTPUT_CAP (out @ input fd tr) \<and>
        (truncated' \<longleftrightarrow> truncated \<or> INITIAL_OUTPUT_CAP < length (out @ input fd tr)) \<and> (fd' = fd \<or> fd' = - 1)) (\<lambda>_. True)"
  unfolding drain_retained_stream_def
  using assms(2) by (auto intro!: adds_mono [OF adds_drain_loop [OF assms(1)]] simp: drained_def)

theorem drain_retained_stream_witness:
  "adds (drain_retained_stream 5 [] False)
     (\<lambda>(fd', out', truncated') tr. out' = take INITIAL_OUTPUT_CAP ([] @ input 5 tr) \<and>
        (truncated' \<longleftrightarrow> False \<or> INITIAL_OUTPUT_CAP < length ([] @ input 5 tr)) \<and> (fd' = 5 \<or> fd' = - 1)) (\<lambda>_. True)"
  using drain_retained_stream_spec [of "[]" 5 False] by simp

section \<open>Starting a detached command\<close>

definition detached_wf :: "detached_children \<Rightarrow> bool" where
  "detached_wf c \<longleftrightarrow> length (dc_pids c) \<le> MAX_DETACHED_CHILDREN \<and>
     length (dc_retained_stdout c) \<le> INITIAL_OUTPUT_CAP \<and> length (dc_retained_stderr c) \<le> INITIAL_OUTPUT_CAP"

lemma safe_reap_detached_children [safe_step]:
  assumes "detached_wf c" "\<And>c'. detached_wf c' \<Longrightarrow> dc_retained_pid c' = dc_retained_pid c \<Longrightarrow> Q c'"
  shows "safe (reap_detached_children c) Q"
  unfolding reap_detached_children_def
proof (rule safeI [OF adds_reap_loop])
  fix c' tr assume "reap_outcome (0, c) c' tr"
  then obtain gone where r: "reaped gone c c' tr" by (auto simp: reap_outcome_def)
  then have "size (mset (dc_pids c)) = size (mset gone) + size (mset (dc_pids c'))"
    by (auto simp: reaped_def simp del: size_mset split: if_split_asm)
  moreover have "dc_retained_pid c' = dc_retained_pid c" "dc_retained_stdout c' = dc_retained_stdout c" "dc_retained_stderr c' = dc_retained_stderr c"
    using r by (auto simp: reaped_def split: if_split_asm)
  ultimately show "Q c'" using assms by (simp add: detached_wf_def)
qed

lemma neutral_reap_detached_children: "neutral (reap_detached_children c)"
  unfolding reap_detached_children_def
  by (intro neutralI owns_adds [OF adds_reap_loop]) (auto simp: reap_outcome_def)

lemma safe_drain_retained_stream [safe_step]:
  assumes "length out \<le> INITIAL_OUTPUT_CAP" "\<And>fd' out' t. length out' \<le> INITIAL_OUTPUT_CAP \<Longrightarrow> Q (fd', out', t)"
  shows "safe (drain_retained_stream fd out truncated) Q"
  unfolding drain_retained_stream_def
  by (intro safe_step assms safeI [OF adds_drain_loop]) (use assms in \<open>auto simp: drained_def\<close>)

lemma safe_drain_retained_output [safe_step]:
  assumes "detached_wf c" "\<And>c'. detached_wf c' \<Longrightarrow> dc_retained_pid c' = dc_retained_pid c \<Longrightarrow> Q c'"
  shows "safe (drain_retained_output c) Q"
  unfolding drain_retained_output_def Let_def
  by (intro safe_constr safe_step assms) (use assms(1) in \<open>simp_all add: detached_wf_def\<close>)

lemma safe_send_retained_output [safe_step]:
  assumes "detached_wf c" "\<And>ok cl' c'. detached_wf c' \<Longrightarrow> Q (ok, cl', c')"
  shows "safe (send_retained_output cl c) Q"
  unfolding send_retained_output_def
  by (intro safe_constr safe_step assms)

lemma safe_detached_child_fail [safe_step]: "safe (detached_child_fail fd) Q"
  unfolding detached_child_fail_def by (intro safe_any safe_step TrueI)

lemma safe_dup2_or_fail [safe_step]: "Q () \<Longrightarrow> safe (dup2_or_fail fd old new) Q"
  unfolding dup2_or_fail_def by (intro safe_constr safe_step)

lemma safe_detached_child [safe_step]: "argv \<noteq> [] \<Longrightarrow> safe (detached_child p argv envp working_dir use_rootfs retain_output) Q"
  unfolding detached_child_def by (intro safe_any safe_step TrueI)

lemma safe_detached_ends [safe_step]:
  "(\<And>rc. Q (rc, c)) \<Longrightarrow> safe (detached_failed fds c) Q" "(\<And>rc. Q (rc, c)) \<Longrightarrow> safe (detached_abort fds pid c) Q"
  unfolding detached_failed_def detached_abort_def by (intro safe_step; simp)+

lemma safe_open_detached [safe_step]: "(\<And>r. Q r) \<Longrightarrow> safe (open_detached retain_output) Q"
  unfolding open_detached_def open_pipe_def Let_def by (intro safe_any safe_step TrueI)

lemma safe_detached_parent [safe_step]:
  assumes "detached_wf c" "length (dc_pids c) < MAX_DETACHED_CHILDREN" "\<And>rc c'. detached_wf c' \<Longrightarrow> Q (rc, c')"
  shows "safe (detached_parent p pid retain_output c) Q"
proof -
  have "detached_wf (c\<lparr>dc_pids := dc_pids c @ [pid]\<rparr>)" "detached_wf (retain p pid (c\<lparr>dc_pids := dc_pids c @ [pid]\<rparr>))"
    using assms(1,2) by (simp_all add: detached_wf_def retain_def)
  then show ?thesis
    unfolding detached_parent_def add_pid_def Let_def
    by (intro safe_step assms(3)) (use assms(1,2) in auto)
qed

lemma safe_start_detached [safe_step]:
  assumes "argv \<noteq> []" "detached_wf c" "\<And>rc c'. detached_wf c' \<Longrightarrow> Q (rc, c')"
  shows "safe (start_detached argv envp working_dir use_rootfs retain_output c) Q"
  unfolding start_detached_def by (intro safe_step assms) (auto intro: assms)

section \<open>The descriptors of a detached command\<close>

lemma owns_detached_ends [owns_step]:
  "0 \<le> k \<Longrightarrow> Q (127, c) (- sum_list (map (u k) fds)) \<Longrightarrow> owns k (detached_failed fds c) Q"
  "0 \<le> k \<Longrightarrow> Q (127, c) (- sum_list (map (u k) fds)) \<Longrightarrow> owns k (detached_abort fds pid c) Q"
  unfolding detached_failed_def detached_abort_def by (intro owns_step; simp)+

text \<open>Either everything is open or only the pipes up to the one that failed; without retained output the last two are not opened.\<close>

lemma owns_open_detached [owns_step]:
  assumes "0 \<le> k" "\<And>ok p. (\<not> retain_output \<Longrightarrow> dp_stdout p = no_pipe \<and> dp_stderr p = no_pipe) \<Longrightarrow>
      Q (ok, p) (sum_list (map (u k) (detached_fds p)))"
  shows "owns k (open_detached retain_output) Q"
proof -
  have Q: "Q (ok, p) b" if "b = sum_list (map (u k) (detached_fds p))" "\<not> retain_output \<longrightarrow> dp_stdout p = no_pipe \<and> dp_stderr p = no_pipe" for ok p b
    using assms(2) that by simp
  show ?thesis
    unfolding open_detached_def open_pipe_def Let_def
    by (intro owns_constr owns_step) (use assms(1) in \<open>simp_all add: Q detached_fds_def no_pipe_def u_negative\<close>)
qed

text \<open>C32. Starting a detached command leaves open exactly the two read ends of the retained output, and
  these only when the output is retained and the start succeeded.
\<close>

theorem start_detached_descriptors:
  assumes "argv \<noteq> []" "0 \<le> k"
  shows "owns k (start_detached argv envp working_dir use_rootfs retain_output c)
     (\<lambda>(rc, c') b. b = (if rc = 0 \<and> retain_output then u k (dc_retained_stdout_fd c') + u k (dc_retained_stderr_fd c') else 0))"
  unfolding start_detached_def detached_parent_def add_pid_def Let_def
  by (intro owns_constr owns_step owns_neutral [OF neutral_reap_detached_children] owns_never [OF safe_detached_child] assms)
     (use assms(2) in \<open>simp_all add: detached_fds_def retain_def no_pipe_def u_negative\<close>)

theorem start_detached_descriptors_witness:
  "\<forall>envp use_rootfs c. owns 9 (start_detached [lit ''/bin/sh''] envp [] use_rootfs True c)
     (\<lambda>(rc, c') b. b = (if rc = 0 \<and> True then u 9 (dc_retained_stdout_fd c') + u 9 (dc_retained_stderr_fd c') else 0))"
  using start_detached_descriptors [of "[lit ''/bin/sh'']" 9 _ "[]" _ True] by simp

end
