(* ===== verification/Events.thy ===== *)
theory Events
  imports Util
begin

text \<open>
  Computations whose calls all satisfy a predicate: \<open>emits E m\<close> holds when every call of every run of
  \<open>m\<close>, finished or not, satisfies \<open>E\<close>. It is how the properties say that a call is not made, or not yet.
\<close>

definition emits :: "(call \<Rightarrow> bool) \<Rightarrow> 'a io \<Rightarrow> bool" where
  "emits E m \<longleftrightarrow> adds m (\<lambda>_ tr. \<forall>e\<in>set tr. E (fst e)) (\<lambda>tr. \<forall>e\<in>set tr. E (fst e))"

named_theorems emits_step "rules for the calls of a computation"

lemma emits_basic [emits_step]: "emits E (ret x)" "emits E (exit_process c)" "emits E block" "emits E (gets f)"
  by (simp_all add: emits_def adds_def extends_refl)

lemma emits_modify [emits_step]: "(\<And>w. w_trace (h w) = w_trace w) \<Longrightarrow> emits E (modify h)"
  unfolding emits_def by (intro adds_step) simp_all

lemma emits_iob [emits_step]:
  assumes m: "emits E m" and f: "\<And>x. emits E (f x)"
  shows "emits E (iob m f)"
  unfolding emits_def
proof (rule adds_iob [OF m [unfolded emits_def]])
  show "adds (f x) (\<lambda>_ b. \<forall>e\<in>set (a @ b). E (fst e)) (\<lambda>b. \<forall>e\<in>set (a @ b). E (fst e))"
    if "\<forall>e\<in>set a. E (fst e)" for x a
    by (rule adds_mono [OF f [unfolded emits_def]]) (use that in auto)
qed

lemma emits_if [emits_step]: "(b \<Longrightarrow> emits E m) \<Longrightarrow> (\<not> b \<Longrightarrow> emits E n) \<Longrightarrow> emits E (if b then m else n)"
  by simp

lemma emits_cases [emits_step]:
  "(\<And>e. emits E (f e)) \<Longrightarrow> (\<And>x. emits E (g x)) \<Longrightarrow> emits E (case_sum f g r)"
  "emits E n \<Longrightarrow> (\<And>x. emits E (h x)) \<Longrightarrow> emits E (case_option n h o')"
  "(\<And>a b. emits E (j a b)) \<Longrightarrow> emits E (case_prod j p)" "emits E (l y) \<Longrightarrow> emits E (Let y l)"
  by (simp_all add: case_prod_unfold split: sum.split option.split)

lemma emits_calls [emits_step]:
  "E (Read fd n) \<Longrightarrow> emits E (sys_read fd n)" "E (Recv fd n) \<Longrightarrow> emits E (sys_recv fd n)"
  "E (Write fd bs) \<Longrightarrow> emits E (sys_write fd bs)" "E (Close fd) \<Longrightarrow> emits E (sys_close fd)" "E Clock \<Longrightarrow> emits E sys_clock"
  "E (Wait pid b) \<Longrightarrow> emits E (sys_wait pid b)" "E (Poll fds t) \<Longrightarrow> emits E (sys_poll fds t)"
  "E (Pipe flags) \<Longrightarrow> emits E (sys_pipe2 flags)" "E (Sys name is ss) \<Longrightarrow> emits E (sys_num name is ss)"
  "E (Fetch name cap is ss) \<Longrightarrow> emits E (sys_data name cap is ss)"
  unfolding emits_def
  by (intro adds_read adds_recv adds_write adds_close adds_clock adds_wait adds_poll adds_pipe2 adds_num adds_data; simp)+

lemma emits_iterate:
  fixes m :: "'s \<Rightarrow> world \<Rightarrow> nat"
  assumes "\<And>s w. f s w = iob (turn s) (\<lambda>r w'. case r of Inl s' \<Rightarrow> f s' w' | Inr x \<Rightarrow> ret x w') w"
    and "\<And>s w s' w'. turn s w = (Ret (Inl s'), w') \<Longrightarrow> m s' w' < m s w"
    and "\<And>s. emits E (turn s)"
  shows "emits E (f s)"
  unfolding emits_def
proof (rule adds_iterate [OF assms(1,2), where I = "\<lambda>_. True" and P = "\<lambda>_ _ tr. \<forall>e\<in>set tr. E (fst e)" and F = "\<lambda>_ tr. \<forall>e\<in>set tr. E (fst e)"])
  show "adds (turn s) (\<lambda>r tr. case r of
      Inl s' \<Rightarrow> True \<and> (\<forall>x tr'. (\<forall>e\<in>set tr'. E (fst e)) \<longrightarrow> (\<forall>e\<in>set (tr @ tr'). E (fst e))) \<and>
        (\<forall>tr'. (\<forall>e\<in>set tr'. E (fst e)) \<longrightarrow> (\<forall>e\<in>set (tr @ tr'). E (fst e)))
      | Inr x \<Rightarrow> \<forall>e\<in>set tr. E (fst e)) (\<lambda>tr. \<forall>e\<in>set tr. E (fst e))" for s
    by (rule adds_mono [OF assms(3) [unfolded emits_def]]) (auto split: sum.split)
qed simp_all

text \<open>The helpers.\<close>

lemma emits_write_all [emits_step]: "(\<And>bs. E (Write fd bs)) \<Longrightarrow> emits E (write_all fd buf)"
  unfolding emits_def by (rule adds_mono [OF adds_write_all]) (auto simp: writes_def writes_only_def list_all_iff)

lemma emits_helpers [emits_step]:
  "E Clock \<Longrightarrow> emits E now_ms" "E (Sys ''getpid'' [] []) \<Longrightarrow> emits E getpid"
  "E (Sys ''dprintf'' [fd] [msg]) \<Longrightarrow> emits E (dprintf fd msg)" "(\<And>is ss. E (Sys ''errno'' is ss)) \<Longrightarrow> emits E stale_errno"
  "E (Sys ''mkdir'' [mode] [path]) \<Longrightarrow> emits E (mkdir_exist_ok path mode)" "E (Sys ''unlink'' [] [path]) \<Longrightarrow> emits E (unlink path)"
  unfolding now_ms_def getpid_def dprintf_def stale_errno_def mkdir_exist_ok_def unlink_def by (intro emits_step; simp)+

lemma emits_write_file_atomic [emits_step]:
  assumes "E (Sys ''getpid'' [] [])" "\<And>fd bs. E (Write fd bs)" "\<And>fd. E (Close fd)"
    "\<And>is ss. E (Sys ''open'' is ss)" "\<And>is ss. E (Sys ''unlink'' is ss)" "\<And>is ss. E (Sys ''rename'' is ss)"
  shows "emits E (write_file_atomic path text)"
  unfolding write_file_atomic_def by (intro emits_step assms)

text \<open>What the calls are and what the result is, together.\<close>

lemma adds_conj:
  assumes "adds m P F" "adds m Q G"
  shows "adds m (\<lambda>x tr. P x tr \<and> Q x tr) (\<lambda>tr. F tr \<and> G tr)"
  unfolding adds_def
proof
  fix w
  from addsD [OF assms(1), of w] addsD [OF assms(2), of w]
  show "holds (m w) (\<lambda>x. extends (\<lambda>tr. P x tr \<and> Q x tr) w) (extends (\<lambda>tr. F tr \<and> G tr) w)"
    by (cases "m w" rule: holds.cases [of "(a, b, c)" for a b c]) (auto simp: extends_def)
qed

lemma emits_safe:
  assumes "emits E m" "safe m Q"
  shows "adds m (\<lambda>x tr. (\<forall>e\<in>set tr. E (fst e)) \<and> Q x) (\<lambda>tr. \<forall>e\<in>set tr. E (fst e))"
  unfolding adds_def
proof
  fix w
  from addsD [OF assms(1) [unfolded emits_def], of w] safeD [OF assms(2), of w]
  show "holds (m w) (\<lambda>x. extends (\<lambda>tr. (\<forall>e\<in>set tr. E (fst e)) \<and> Q x) w) (extends (\<lambda>tr. \<forall>e\<in>set tr. E (fst e)) w)"
    by (cases "m w" rule: holds.cases [of "(a, b, c)" for a b c]) (auto simp: extends_def)
qed

end
