(* ===== verification/Generation.thy ===== *)
theory Generation
  imports Params Events
begin

text \<open>
  \<^verbatim>\<open>generation.c\<close>: the generation device of a machine that was resumed or forked, the identity files
  written from its params, the resume entropy and the resume clock. The registers and the params
  window of the device are read by calls the environment answers; an access outside the mapped
  window is undefined.
\<close>

section \<open>Clock and root\<close>

definition NSEC_PER_SEC :: u64 where "NSEC_PER_SEC = 1000000000"

definition apply_resume_clock :: "u64 \<Rightarrow> unit io" where
  "apply_resume_clock unix_ns =
     (if unix_ns = 0 then ret ()
      else iob (sys_num ''clock_settime'' [uint (unix_ns div NSEC_PER_SEC), uint (unix_ns mod NSEC_PER_SEC)] []) (\<lambda>r.
        case r of
          Inl e \<Rightarrow> dprintf 2 (lit ''spore generation: clock_settime failed errno='' @ dec e @ [10])
        | Inr _ \<Rightarrow> ret ()))"

definition generation_root_path :: "bool \<Rightarrow> bool \<Rightarrow> bytes" where
  "generation_root_path use_rootfs rootfs_ready = (if use_rootfs \<and> rootfs_ready then lit ''/mnt/rootfs'' else [])"

section \<open>The environment file\<close>

definition ENV_CAP :: nat where "ENV_CAP = 2048"

text \<open>A line that does not fit is left out.\<close>

definition append_line :: "bytes \<Rightarrow> bytes \<Rightarrow> bytes \<Rightarrow> bytes" where
  "append_line env key val =
     (let line = key @ lit ''='' @ val @ [10] in if length line < ENV_CAP - length env then env @ line else env)"

definition env_append :: "bytes \<Rightarrow> bytes \<Rightarrow> bytes \<Rightarrow> bytes" where
  "env_append env key val = (if val = [] \<or> length env \<ge> ENV_CAP then env else append_line env key val)"

definition env_append_u64 :: "bytes \<Rightarrow> bytes \<Rightarrow> u64 \<Rightarrow> bytes" where
  "env_append_u64 env key val = (if length env \<ge> ENV_CAP then env else append_line env key (dec (unat val)))"

definition build_path :: "nat \<Rightarrow> bytes \<Rightarrow> bytes \<Rightarrow> bytes option" where
  "build_path cap root suffix' =
     (let p = root @ suffix' in if length p > 0 \<and> length p < cap then Some p else None)"

definition has_member :: "generation_params \<Rightarrow> generation_member \<Rightarrow> bool" where
  "has_member params member \<longleftrightarrow> g_present params AND generation_bit member \<noteq> 0"

definition env_if :: "bool \<Rightarrow> string \<Rightarrow> u64 \<Rightarrow> bytes \<Rightarrow> bytes" where
  "env_if present key val env = (if present then env_append_u64 env (lit key) val else env)"

text \<open>Params without a parallel position use the fork position.\<close>

definition or_fork :: "bool \<Rightarrow> u64 \<Rightarrow> bool \<Rightarrow> u64 \<Rightarrow> u64 \<times> bool" where
  "or_fork have_val val have_fork fork = (if \<not> have_val \<and> have_fork then (fork, True) else (val, have_val))"

definition generation_env :: "generation_params \<Rightarrow> bytes" where
  "generation_env params =
     (let (parallel_index, have_parallel_index) = or_fork (has_member params GENERATION_PARALLEL_INDEX) (g_parallel_index params)
            (has_member params GENERATION_FORK_INDEX) (g_fork_index params);
          (parallel_count, have_parallel_count) = or_fork (has_member params GENERATION_PARALLEL_COUNT) (g_parallel_count params)
            (has_member params GENERATION_FORK_COUNT) (g_fork_count params);
          env = env_if have_parallel_index ''SPORE_PARALLEL_JOB'' parallel_index [];
          env = env_if have_parallel_count ''SPORE_PARALLEL_JOB_COUNT'' parallel_count env;
          env = env_if (has_member params GENERATION_FORK_INDEX) ''SPORE_FORK_INDEX'' (g_fork_index params) env;
          env = env_if (has_member params GENERATION_FORK_COUNT) ''SPORE_FORK_COUNT'' (g_fork_count params) env;
          env = env_if (has_member params GENERATION_PARENT_GENERATION) ''SPORE_PARENT_GENERATION'' (g_parent_generation params) env;
          env = env_if (has_member params GENERATION_GENERATION) ''SPORE_GENERATION'' (g_generation params) env;
          env = env_if (has_member params GENERATION_RESUME_TIME) ''SPORE_RESUME_TIME_UNIX_NS'' (g_resume_time_unix_ns params) env;
          env = env_append env (lit ''SPORE_VM_ID'') (g_vm_id params);
          env = env_append env (lit ''SPORE_FORK_BATCH_ID'') (g_fork_batch_id params);
          env = env_append env (lit ''SPORE_HOSTNAME'') (g_hostname params)
      in env_append env (lit ''SPORE_RESUME_ENTROPY_SEED'') (g_resume_entropy_seed params))"

definition write_generation_files :: "bytes \<Rightarrow> bytes \<Rightarrow> generation_params \<Rightarrow> bool io" where
  "write_generation_files root raw_params params =
     (case (build_path 128 root (lit ''/run''), build_path 160 root (lit ''/run/sporevm'')) of
        (Some run_dir, Some spore_dir) \<Rightarrow>
          (case (build_path 192 spore_dir (lit ''/generation.json''), build_path 192 spore_dir (lit ''/env'')) of
             (Some generation_path, Some env_path) \<Rightarrow>
               iob (mkdir_exist_ok run_dir 0x1ed) (\<lambda>ok.
               if \<not> ok then ret False
               else iob (mkdir_exist_ok spore_dir 0x1ed) (\<lambda>ok.
                 if \<not> ok then ret False
                 else if length raw_params + 1 \<ge> GEN_PARAMS_MAX + 2 then ret False
                 else iob (write_file_atomic generation_path (raw_params @ [10])) (\<lambda>ok.
                   if \<not> ok then ret False else write_file_atomic env_path (generation_env params))))
           | _ \<Rightarrow> ret False)
      | _ \<Rightarrow> ret False)"

section \<open>The device\<close>

definition GEN_WINDOW_SIZE :: u32 where "GEN_WINDOW_SIZE = 0x1000"

definition GEN_MAGIC :: u32 where "GEN_MAGIC = 0x4e475053"

definition GEN_IRQ_GENERATION_CHANGED :: u32 where "GEN_IRQ_GENERATION_CHANGED = 1"

definition REG_MAGIC :: u32 where "REG_MAGIC = 0"

definition REG_PARAMS_OFFSET :: u32 where "REG_PARAMS_OFFSET = 8"

definition REG_PARAMS_SIZE :: u32 where "REG_PARAMS_SIZE = 0xc"

definition REG_IRQ_STATUS :: u32 where "REG_IRQ_STATUS = 0x10"

definition REG_IRQ_ACK :: u32 where "REG_IRQ_ACK = 0x14"

definition REG_GENERATION :: u32 where "REG_GENERATION = 0x18"

definition map_dev_mem :: "bool io" where
  "map_dev_mem =
     iob (sys_num ''open'' [0x181002] [lit ''/dev/mem'']) (\<lambda>r.
     case r of
       Inl e \<Rightarrow> iob (dprintf 2 (lit ''spore generation: open /dev/mem failed errno='' @ dec e @ [10])) (\<lambda>_. ret False)
     | Inr fd \<Rightarrow>
         iob (sys_num ''mmap'' [uint GEN_WINDOW_SIZE, fd] []) (\<lambda>mapped.
         iob (sys_close fd) (\<lambda>_.
         case mapped of
           Inl _ \<Rightarrow> iob stale_errno (\<lambda>e. iob (dprintf 2 (lit ''spore generation: mmap failed errno='' @ dec e @ [10])) (\<lambda>_. ret False))
         | Inr _ \<Rightarrow> ret True)))"

definition generation_map :: "bool io" where
  "generation_map =
     iob (sys_num ''mkdir'' [0x1ed] [lit ''/dev'']) (\<lambda>_.
     iob (sys_num ''mknod'' [0x2180, 0x101] [lit ''/dev/mem'']) (\<lambda>r.
     case r of
       Inl e \<Rightarrow>
         if e \<noteq> EEXIST then iob (dprintf 2 (lit ''spore generation: mknod /dev/mem failed errno='' @ dec e @ [10])) (\<lambda>_. ret False)
         else map_dev_mem
     | Inr _ \<Rightarrow> map_dev_mem))"

text \<open>Register and window accesses. The device answers with a number; it has no errors.\<close>

definition mmio_read32 :: "u32 \<Rightarrow> u32 io" where
  "mmio_read32 offset =
     (if unat offset + 4 > unat GEN_WINDOW_SIZE then undef
      else iob (sys_num ''mmio_read32'' [uint offset] []) (\<lambda>r. case r of Inr v \<Rightarrow> ret (word_of_int v) | Inl _ \<Rightarrow> block))"

definition mmio_read64 :: "u32 \<Rightarrow> u64 io" where
  "mmio_read64 offset =
     iob (mmio_read32 offset) (\<lambda>lo. iob (mmio_read32 (offset + 4)) (\<lambda>hi. ret (ucast lo OR push_bit 32 (ucast hi))))"

definition mmio_write32 :: "u32 \<Rightarrow> u32 \<Rightarrow> unit io" where
  "mmio_write32 offset val =
     (if unat offset + 4 > unat GEN_WINDOW_SIZE then undef
      else iob (sys_num ''mmio_write32'' [uint offset, uint val] []) (\<lambda>_. ret ()))"

definition window_byte :: "nat \<Rightarrow> u8 io" where
  "window_byte i =
     (if i \<ge> unat GEN_WINDOW_SIZE then undef
      else iob (sys_num ''mmio_read8'' [int i] []) (\<lambda>r. case r of Inr v \<Rightarrow> ret (word_of_int v) | Inl _ \<Rightarrow> block))"

text \<open>The params are copied up to a NUL or the limit; \<open>params\<close> has room for one byte more.\<close>

fun read_params :: "nat \<Rightarrow> nat \<Rightarrow> bytes \<Rightarrow> bytes io" where
  "read_params addr 0 params = (if length params < GEN_PARAMS_MAX then ret params else undef)"
| "read_params addr (Suc limit) params =
     (if length params \<ge> GEN_PARAMS_MAX then undef
      else iob (window_byte addr) (\<lambda>b. if b = 0 then ret params else read_params (Suc addr) limit (params @ [b])))"

section \<open>Identity\<close>

definition mix_resume_entropy :: "bytes \<Rightarrow> bool io" where
  "mix_resume_entropy entropy_seed =
     (if entropy_seed = [] then ret True
      else iob (sys_num ''mknod'' [0x2180, 0x109] [lit ''/dev/urandom'']) (\<lambda>r.
        if (case r of Inl e \<Rightarrow> e \<noteq> EEXIST | Inr _ \<Rightarrow> False) then ret False
        else iob (sys_num ''open'' [O_WRONLY OR O_CLOEXEC] [lit ''/dev/urandom'']) (\<lambda>r.
          case r of
            Inl e \<Rightarrow> ret False
          | Inr fd \<Rightarrow> iob (write_all fd entropy_seed) (\<lambda>ok. iob (sys_close fd) (\<lambda>closed. ret (ok \<and> closed))))))"

definition apply_generation_identity :: "generation_params \<Rightarrow> bool io" where
  "apply_generation_identity params =
     iob (if g_hostname params \<noteq> [] then iob (sys_num ''sethostname'' [] [g_hostname params]) (\<lambda>_. ret ()) else ret ()) (\<lambda>_.
     iob (mix_resume_entropy (g_resume_entropy_seed params)) (\<lambda>ok.
     if \<not> ok then ret False
     else iob (if has_member params GENERATION_RESUME_TIME then apply_resume_clock (g_resume_time_unix_ns params) else ret ())
       (\<lambda>_. ret True)))"

section \<open>Following the device\<close>

text \<open>\<open>gm_base\<close> is whether the window is mapped.\<close>

record generation_monitor =
  gm_base :: bool
  gm_last_generation :: u64
  gm_unavailable :: bool

definition parsed_params :: "bytes \<Rightarrow> (generation_params option \<Rightarrow> 'a io) \<Rightarrow> 'a io" where
  "parsed_params params f =
     (case parse_generation_params (params @ [0]) of Ok g \<Rightarrow> f (Some g) | Bad \<Rightarrow> f None | UB \<Rightarrow> undef)"

definition ensure_mapped :: "generation_monitor \<Rightarrow> generation_monitor io" where
  "ensure_mapped monitor =
     (if gm_base monitor then ret monitor
      else iob generation_map (\<lambda>ok. if ok then ret (monitor\<lparr>gm_base := True\<rparr>) else ret (monitor\<lparr>gm_unavailable := True\<rparr>)))"

text \<open>A new generation: its params are read and applied; only then is the interrupt acknowledged.\<close>

definition apply_device_params :: "generation_monitor \<Rightarrow> bytes \<Rightarrow> u64 \<Rightarrow> bytes \<Rightarrow> (bool \<times> generation_monitor) io" where
  "apply_device_params monitor root generation params =
     (if params = [] then ret (True, monitor)
      else parsed_params params (\<lambda>parsed.
        case parsed of
          None \<Rightarrow> ret (False, monitor)
        | Some parsed \<Rightarrow>
            iob (write_generation_files root params parsed) (\<lambda>ok.
            if \<not> ok then ret (False, monitor)
            else iob (mmio_read32 REG_IRQ_STATUS) (\<lambda>irq_status.
              iob (apply_generation_identity parsed) (\<lambda>ok.
              if \<not> ok then ret (False, monitor)
              else
                let monitor = monitor\<lparr>gm_last_generation := generation\<rparr> in
                iob (if irq_status AND GEN_IRQ_GENERATION_CHANGED \<noteq> 0 then mmio_write32 REG_IRQ_ACK GEN_IRQ_GENERATION_CHANGED else ret ())
                  (\<lambda>_. ret (True, monitor)))))))"

definition poll_generation :: "generation_monitor \<Rightarrow> bytes \<Rightarrow> (bool \<times> generation_monitor) io" where
  "poll_generation monitor root =
     (if gm_unavailable monitor then ret (True, monitor)
      else iob (ensure_mapped monitor) (\<lambda>monitor.
        if gm_unavailable monitor then ret (True, monitor)
        else iob (mmio_read32 REG_MAGIC) (\<lambda>magic.
          if magic \<noteq> GEN_MAGIC then ret (True, monitor)
          else iob (mmio_read32 REG_PARAMS_OFFSET) (\<lambda>params_offset.
            iob (mmio_read32 REG_PARAMS_SIZE) (\<lambda>params_size.
            if params_offset \<ge> GEN_WINDOW_SIZE \<or> params_size > GEN_WINDOW_SIZE - params_offset then ret (True, monitor)
            else iob (mmio_read64 REG_GENERATION) (\<lambda>generation.
              if generation = gm_last_generation monitor then ret (True, monitor)
              else
                let limit = unat params_size; limit = (if limit \<ge> GEN_PARAMS_MAX then GEN_PARAMS_MAX - 1 else limit) in
                iob (read_params (unat params_offset) limit []) (apply_device_params monitor root generation)))))))"

definition ensure_generation_ready :: "generation_monitor \<Rightarrow> bytes \<Rightarrow> (bool \<times> generation_monitor) io" where
  "ensure_generation_ready monitor root =
     iob (poll_generation monitor root) (\<lambda>(ok, monitor). ret (ok \<and> gm_last_generation monitor \<noteq> - 1, monitor))"

definition ack_applied_generation :: "generation_monitor \<Rightarrow> generation_params \<Rightarrow> generation_monitor io" where
  "ack_applied_generation monitor params =
     (if \<not> has_member params GENERATION_GENERATION \<or> gm_unavailable monitor then ret monitor
      else iob (ensure_mapped monitor) (\<lambda>monitor.
        if gm_unavailable monitor then ret monitor
        else iob (mmio_read32 REG_MAGIC) (\<lambda>magic.
          if magic \<noteq> GEN_MAGIC then ret monitor
          else iob (mmio_read64 REG_GENERATION) (\<lambda>generation.
            if generation \<noteq> g_generation params then ret monitor
            else
              let monitor = monitor\<lparr>gm_last_generation := g_generation params\<rparr> in
              iob (mmio_read32 REG_IRQ_STATUS) (\<lambda>irq_status.
              iob (if irq_status AND GEN_IRQ_GENERATION_CHANGED \<noteq> 0 then mmio_write32 REG_IRQ_ACK GEN_IRQ_GENERATION_CHANGED else ret ())
                (\<lambda>_. ret monitor))))))"

text \<open>\<open>None\<close> is success, else the message for the client.\<close>

definition apply_request_generation :: "generation_monitor \<Rightarrow> bytes \<Rightarrow> bytes \<Rightarrow> (bytes option \<times> generation_monitor) io" where
  "apply_request_generation generation root params =
     parsed_params params (\<lambda>parsed.
     case parsed of
       None \<Rightarrow> ret (Some (lit ''spore run: malformed generation params'' @ [10]), generation)
     | Some parsed \<Rightarrow>
         iob (write_generation_files root params parsed) (\<lambda>ok.
         if \<not> ok then ret (Some (lit ''spore run: generation helper write failed'' @ [10]), generation)
         else iob (apply_generation_identity parsed) (\<lambda>ok.
           if \<not> ok then ret (Some (lit ''spore run: generation helper apply failed'' @ [10]), generation)
           else iob (ack_applied_generation generation parsed) (\<lambda>generation. ret (None, generation)))))"

section \<open>The device window is never left\<close>

lemma safe_mmio [safe_step]:
  "unat offset + 4 \<le> unat GEN_WINDOW_SIZE \<Longrightarrow> (\<And>v. Q v) \<Longrightarrow> safe (mmio_read32 offset) Q"
  "unat offset + 4 \<le> unat GEN_WINDOW_SIZE \<Longrightarrow> R () \<Longrightarrow> safe (mmio_write32 offset val) R"
  unfolding mmio_read32_def mmio_write32_def by (simp, intro safe_step; simp)+

lemma safe_mmio_read64 [safe_step]:
  assumes "unat offset + 8 \<le> unat GEN_WINDOW_SIZE" "\<And>v. Q v"
  shows "safe (mmio_read64 offset) Q"
proof -
  from assms(1) have "unat (offset + 4) = unat offset + 4"
    by (simp add: GEN_WINDOW_SIZE_def unat_plus_if')
  with assms show ?thesis unfolding mmio_read64_def by (intro safe_step) simp_all
qed

lemma reg_bounds [simp]:
  "unat REG_MAGIC + 4 \<le> unat GEN_WINDOW_SIZE" "unat REG_PARAMS_OFFSET + 4 \<le> unat GEN_WINDOW_SIZE"
  "unat REG_PARAMS_SIZE + 4 \<le> unat GEN_WINDOW_SIZE" "unat REG_IRQ_STATUS + 4 \<le> unat GEN_WINDOW_SIZE"
  "unat REG_IRQ_ACK + 4 \<le> unat GEN_WINDOW_SIZE" "unat REG_GENERATION + 8 \<le> unat GEN_WINDOW_SIZE"
  by (simp_all add: GEN_WINDOW_SIZE_def REG_MAGIC_def REG_PARAMS_OFFSET_def REG_PARAMS_SIZE_def REG_IRQ_STATUS_def
      REG_IRQ_ACK_def REG_GENERATION_def)

lemma safe_read_params [safe_step]:
  assumes "addr + limit \<le> unat GEN_WINDOW_SIZE" "length params + limit < GEN_PARAMS_MAX" "0 \<notin> set params"
    "\<And>ps. 0 \<notin> set ps \<Longrightarrow> length ps < GEN_PARAMS_MAX \<Longrightarrow> Q ps"
  shows "safe (read_params addr limit params) Q"
  using assms(1-3)
proof (induction limit arbitrary: addr params)
  case (Suc limit)
  then have "safe (read_params (Suc addr) limit (params @ [b])) Q" if "b \<noteq> 0" for b
    using that by simp
  with Suc.prems assms(4) show ?case
    unfolding read_params.simps window_byte_def by (simp, intro safe_constr safe_step) simp_all
qed (auto intro!: safe_step assms(4))

lemma safe_parsed_params:
  assumes "0 \<notin> set params" "safe (f None) Q" "\<And>g. params_wf g \<Longrightarrow> safe (f (Some g)) Q"
  shows "safe (parsed_params params f) Q"
  using sat_parse_generation_params [OF assms(1)] assms(2,3)
  by (auto simp: parsed_params_def split: cres.split)

lemma safe_generation_steps [safe_step]:
  "(\<And>ok. Q ok) \<Longrightarrow> safe generation_map Q" "(\<And>ok. Q ok) \<Longrightarrow> safe (mix_resume_entropy seed) Q"
  "R () \<Longrightarrow> safe (apply_resume_clock ns) R"
  unfolding generation_map_def map_dev_mem_def mix_resume_entropy_def apply_resume_clock_def by (intro safe_constr safe_step; simp)+

lemma safe_write_generation_files [safe_step]: "(\<And>ok. Q ok) \<Longrightarrow> safe (write_generation_files root raw params) Q"
  unfolding write_generation_files_def by (intro safe_constr safe_step)

lemma safe_apply_generation_identity [safe_step]: "(\<And>ok. Q ok) \<Longrightarrow> safe (apply_generation_identity params) Q"
  unfolding apply_generation_identity_def by (intro safe_constr safe_step)

lemma safe_ensure_mapped [safe_step]: "(\<And>m'. Q m') \<Longrightarrow> safe (ensure_mapped m) Q"
  unfolding ensure_mapped_def by (intro safe_constr safe_step)

lemma safe_apply_device_params [safe_step]:
  "0 \<notin> set params \<Longrightarrow> (\<And>ok m'. Q (ok, m')) \<Longrightarrow> safe (apply_device_params m root generation params) Q"
  unfolding apply_device_params_def Let_def by (intro safe_parsed_params safe_constr safe_step) simp_all

lemma params_in_window:
  assumes "\<not> GEN_WINDOW_SIZE \<le> offset" "\<not> GEN_WINDOW_SIZE - offset < psize"
  shows "unat offset + unat psize \<le> unat GEN_WINDOW_SIZE"
proof -
  from assms have "unat offset < unat GEN_WINDOW_SIZE" "unat psize \<le> unat (GEN_WINDOW_SIZE - offset)"
    by (simp_all add: word_less_nat_alt word_le_nat_alt)
  moreover from this(1) have "unat (GEN_WINDOW_SIZE - offset) = unat GEN_WINDOW_SIZE - unat offset"
    by (simp add: unat_sub word_le_nat_alt)
  ultimately show ?thesis by simp
qed

lemma safe_poll_generation [safe_step]: "(\<And>ok m'. Q (ok, m')) \<Longrightarrow> safe (poll_generation m root) Q"
  unfolding poll_generation_def Let_def
  by (intro safe_constr safe_step) (auto simp: GEN_PARAMS_MAX_def dest: params_in_window)

lemma safe_ensure_generation_ready [safe_step]: "(\<And>ok m'. Q (ok, m')) \<Longrightarrow> safe (ensure_generation_ready m root) Q"
  unfolding ensure_generation_ready_def by (intro safe_constr safe_step)

lemma safe_apply_request_generation [safe_step]:
  "0 \<notin> set params \<Longrightarrow> (\<And>r m'. Q (r, m')) \<Longrightarrow> safe (apply_request_generation m root params) Q"
  unfolding apply_request_generation_def ack_applied_generation_def Let_def
  by (intro safe_parsed_params safe_constr safe_step) simp_all

section \<open>The environment file is complete\<close>

text \<open>The entries of the file; an entry without a value is left out.\<close>

definition present :: "generation_params \<Rightarrow> generation_member \<Rightarrow> bytes option" where
  "present g m = (if has_member g m then Some (dec (unat (number_of m g))) else None)"

definition nonempty :: "bytes \<Rightarrow> bytes option" where
  "nonempty t = (if t = [] then None else Some t)"

definition or_else :: "'a option \<Rightarrow> 'a option \<Rightarrow> 'a option" where
  "or_else a b = (case a of None \<Rightarrow> b | Some x \<Rightarrow> Some x)"

definition env_entries :: "generation_params \<Rightarrow> (string \<times> bytes option) list" where
  "env_entries g =
     [(''SPORE_PARALLEL_JOB'', or_else (present g GENERATION_PARALLEL_INDEX) (present g GENERATION_FORK_INDEX)),
      (''SPORE_PARALLEL_JOB_COUNT'', or_else (present g GENERATION_PARALLEL_COUNT) (present g GENERATION_FORK_COUNT)),
      (''SPORE_FORK_INDEX'', present g GENERATION_FORK_INDEX), (''SPORE_FORK_COUNT'', present g GENERATION_FORK_COUNT),
      (''SPORE_PARENT_GENERATION'', present g GENERATION_PARENT_GENERATION), (''SPORE_GENERATION'', present g GENERATION_GENERATION),
      (''SPORE_RESUME_TIME_UNIX_NS'', present g GENERATION_RESUME_TIME),
      (''SPORE_VM_ID'', nonempty (g_vm_id g)), (''SPORE_FORK_BATCH_ID'', nonempty (g_fork_batch_id g)),
      (''SPORE_HOSTNAME'', nonempty (g_hostname g)), (''SPORE_RESUME_ENTROPY_SEED'', nonempty (g_resume_entropy_seed g))]"

definition env_line :: "string \<times> bytes option \<Rightarrow> bytes" where
  "env_line e = (case e of (key, val) \<Rightarrow> case val of None \<Rightarrow> [] | Some t \<Rightarrow> lit key @ lit ''='' @ t @ [10])"

definition env_add :: "bytes \<Rightarrow> string \<times> bytes option \<Rightarrow> bytes" where
  "env_add env e = (case e of (key, val) \<Rightarrow> case val of None \<Rightarrow> env | Some t \<Rightarrow> if length env \<ge> ENV_CAP then env else append_line env (lit key) t)"

lemma env_add_if: "env_if b key v env = env_add env (key, if b then Some (dec (unat v)) else None)"
  by (simp add: env_if_def env_add_def env_append_u64_def)

lemma env_add_text: "env_append env (lit key) t = env_add env (key, nonempty t)"
  by (simp add: env_append_def env_add_def nonempty_def)

lemma or_fork_else:
  "(if snd (or_fork (has_member g m) v (has_member g n) v') then Some (dec (unat (fst (or_fork (has_member g m) v (has_member g n) v')))) else None) =
   or_else (if has_member g m then Some (dec (unat v)) else None) (if has_member g n then Some (dec (unat v')) else None)"
  by (simp add: or_fork_def or_else_def)

lemma generation_env_foldl: "generation_env g = foldl env_add [] (env_entries g)"
  unfolding generation_env_def Let_def case_prod_unfold env_add_if env_add_text or_fork_else
  by (simp add: env_entries_def present_def)

lemma foldl_env_add:
  "length env + length (concat (map env_line es)) < ENV_CAP \<Longrightarrow> foldl env_add env es = env @ concat (map env_line es)"
proof (induction es arbitrary: env)
  case (Cons e es)
  obtain key val where e: "e = (key, val)" by (cases e)
  from Cons.prems have "env_add env e = env @ env_line e"
    by (cases val) (auto simp: e env_add_def env_line_def append_line_def Let_def)
  with Cons show ?case by simp
qed simp

lemma length_dec_u64: "length (dec (unat (v :: u64))) \<le> 20"
proof (rule length_dec)
  have "unat v < 2 ^ 64" using unsigned_less [of v] by simp
  then show "unat v < 10 ^ 20" by simp
qed simp

lemma length_env_line:
  "length (env_line (key, present g m)) \<le> length key + 22"
  "length (env_line (key, or_else (present g m) (present g n))) \<le> length key + 22"
  "length t < GENERATION_TEXT_MAX \<Longrightarrow> length (env_line (key, nonempty t)) \<le> length key + 129"
  using length_dec_u64
  by (auto simp: env_line_def present_def or_else_def nonempty_def lit_def GENERATION_TEXT_MAX_def split: option.split)

lemma env_fits:
  assumes "params_wf g"
  shows "length (concat (map env_line (env_entries g))) < ENV_CAP"
proof -
  have "length (text_of m g) < GENERATION_TEXT_MAX" for m using assms by (simp add: params_wf_def)
  from this [of GENERATION_VM_ID] this [of GENERATION_FORK_BATCH_ID] this [of GENERATION_HOSTNAME] this [of GENERATION_RESUME_ENTROPY_SEED]
  have t: "length (g_vm_id g) < GENERATION_TEXT_MAX" "length (g_fork_batch_id g) < GENERATION_TEXT_MAX"
    "length (g_hostname g) < GENERATION_TEXT_MAX" "length (g_resume_entropy_seed g) < GENERATION_TEXT_MAX" by simp_all
  show ?thesis
    using length_env_line(1) [of "''SPORE_FORK_INDEX''" g GENERATION_FORK_INDEX] length_env_line(1) [of "''SPORE_FORK_COUNT''" g GENERATION_FORK_COUNT]
      length_env_line(1) [of "''SPORE_PARENT_GENERATION''" g GENERATION_PARENT_GENERATION] length_env_line(1) [of "''SPORE_GENERATION''" g GENERATION_GENERATION]
      length_env_line(1) [of "''SPORE_RESUME_TIME_UNIX_NS''" g GENERATION_RESUME_TIME]
      length_env_line(2) [of "''SPORE_PARALLEL_JOB''" g GENERATION_PARALLEL_INDEX GENERATION_FORK_INDEX]
      length_env_line(2) [of "''SPORE_PARALLEL_JOB_COUNT''" g GENERATION_PARALLEL_COUNT GENERATION_FORK_COUNT]
      length_env_line(3) [OF t(1), of "''SPORE_VM_ID''"] length_env_line(3) [OF t(2), of "''SPORE_FORK_BATCH_ID''"]
      length_env_line(3) [OF t(3), of "''SPORE_HOSTNAME''"] length_env_line(3) [OF t(4), of "''SPORE_RESUME_ENTROPY_SEED''"]
    by (simp add: env_entries_def ENV_CAP_def)
qed



section \<open>The interrupt is acknowledged last\<close>

definition is_ack :: "call \<Rightarrow> bool" where
  "is_ack c \<longleftrightarrow> (case c of Sys name _ _ \<Rightarrow> name = ''mmio_write32'' | _ \<Rightarrow> False)"

abbreviation "no_ack \<equiv> \<lambda>c. \<not> is_ack c"

lemma is_ack_simps [simp]:
  "no_ack (Read fd n)" "no_ack (Write fd bs)" "no_ack (Close fd)" "no_ack Clock" "is_ack (Sys name is ss) \<longleftrightarrow> name = ''mmio_write32''"
  by (simp_all add: is_ack_def)

definition files_done :: "bytes \<Rightarrow> event list \<Rightarrow> bool" where
  "files_done root tr \<longleftrightarrow>
     (\<exists>tmp. (Sys ''rename'' [] [tmp, root @ lit ''/run/sporevm/generation.json''], Num 0) \<in> set tr) \<and>
     (\<exists>tmp. (Sys ''rename'' [] [tmp, root @ lit ''/run/sporevm/env''], Num 0) \<in> set tr)"

text \<open>Every acknowledgement comes after both files have been replaced.\<close>

definition acks_after_files :: "bytes \<Rightarrow> event list \<Rightarrow> bool" where
  "acks_after_files root tr \<longleftrightarrow> (\<forall>pre e post. tr = pre @ e # post \<longrightarrow> is_ack (fst e) \<longrightarrow> files_done root pre)"

lemma files_done_append: "files_done root a \<Longrightarrow> files_done root (a @ b)" "files_done root b \<Longrightarrow> files_done root (a @ b)"
  by (auto simp: files_done_def)

lemma acks_after_quiet: "\<forall>e\<in>set a. no_ack (fst e) \<Longrightarrow> acks_after_files root a"
  by (auto simp: acks_after_files_def)

lemma acks_after_append:
  assumes "\<forall>e\<in>set a. no_ack (fst e)" "files_done root a \<or> acks_after_files root b"
  shows "acks_after_files root (a @ b)"
  unfolding acks_after_files_def
proof (intro allI impI)
  fix pre e post assume split: "a @ b = pre @ e # post" and e: "is_ack (fst e)"
  have "\<not> length pre < length a"
  proof
    assume "length pre < length a"
    with split have "e \<in> set a" by (metis nth_append nth_append_length nth_mem)
    with e assms(1) show False by simp
  qed
  with split obtain us where us: "pre = a @ us" "b = us @ e # post"
    by (auto simp: append_eq_append_conv2 Cons_eq_append_conv)
  have "files_done root us" if "acks_after_files root b"
    using that [unfolded acks_after_files_def, rule_format, OF us(2) e] .
  with assms(2) us(1) show "files_done root pre"
    by (auto intro: files_done_append)
qed

definition ordered :: "bytes \<Rightarrow> u64 \<Rightarrow> (bool \<times> generation_monitor) io \<Rightarrow> bool" where
  "ordered root g m \<longleftrightarrow> adds m
     (\<lambda>r tr. acks_after_files root tr \<and> (gm_last_generation (snd r) = g \<or> fst r \<and> files_done root tr)) (acks_after_files root)"

lemma ordered_ret: "gm_last_generation m' = g \<Longrightarrow> ordered root g (ret (ok, m'))"
  unfolding ordered_def by (intro adds_step) (simp add: acks_after_quiet)

lemma ordered_seq:
  assumes "emits no_ack m" "safe m Q" "\<And>x. Q x \<Longrightarrow> ordered root g (f x)"
  shows "ordered root g (iob m f)"
  unfolding ordered_def
proof (rule adds_iob [OF emits_safe [OF assms(1,2)]])
  fix x a assume a: "(\<forall>e\<in>set (a :: event list). no_ack (fst e)) \<and> Q x"
  show "adds (f x) (\<lambda>y b. acks_after_files root (a @ b) \<and>
      (gm_last_generation (snd y) = g \<or> fst y \<and> files_done root (a @ b))) (\<lambda>b. acks_after_files root (a @ b))"
    by (rule adds_mono [OF assms(3) [unfolded ordered_def]]) (use a in \<open>auto intro: acks_after_append files_done_append\<close>)
qed (rule acks_after_quiet)

lemma emits_mmio [emits_step]:
  "unat offset + 4 \<le> unat GEN_WINDOW_SIZE \<Longrightarrow> emits no_ack (mmio_read32 offset)"
  unfolding mmio_read32_def by (simp, intro emits_step) simp

lemma emits_mmio_read64 [emits_step]: "emits no_ack (mmio_read64 REG_GENERATION)"
proof -
  have "unat (REG_GENERATION + 4) + 4 \<le> unat GEN_WINDOW_SIZE" "unat REG_GENERATION + 4 \<le> unat GEN_WINDOW_SIZE"
    by (simp_all add: REG_GENERATION_def GEN_WINDOW_SIZE_def)
  then show ?thesis unfolding mmio_read64_def by (intro emits_step)
qed

lemma emits_ensure_mapped [emits_step]: "emits no_ack (ensure_mapped m)"
  unfolding ensure_mapped_def generation_map_def map_dev_mem_def by (intro emits_step) simp_all

lemma emits_read_params:
  "addr + limit \<le> unat GEN_WINDOW_SIZE \<Longrightarrow> length params + limit < GEN_PARAMS_MAX \<Longrightarrow> emits no_ack (read_params addr limit params)"
  by (induction limit arbitrary: addr params) (auto simp: window_byte_def intro!: emits_step)

lemma emits_identity [emits_step]: "emits no_ack (apply_generation_identity params)"
  unfolding apply_generation_identity_def mix_resume_entropy_def apply_resume_clock_def by (intro emits_step) simp_all

lemma adds_replace:
  "adds (write_file_atomic path text)
     (\<lambda>ok tr. (\<forall>e\<in>set tr. no_ack (fst e)) \<and> (ok \<longrightarrow> (\<exists>tmp. (Sys ''rename'' [] [tmp, path], Num 0) \<in> set tr)))
     (\<lambda>tr. \<forall>e\<in>set tr. no_ack (fst e))"
proof -
  have "emits no_ack (write_file_atomic path text)" by (intro emits_step) simp_all
  from adds_conj [OF this [unfolded emits_def] adds_write_file_atomic] show ?thesis
    by (rule adds_mono) (auto simp: replaces_def, blast)
qed

lemma adds_write_generation_files:
  "adds (write_generation_files root raw params)
     (\<lambda>ok tr. (\<forall>e\<in>set tr. no_ack (fst e)) \<and> (ok \<longrightarrow> files_done root tr)) (\<lambda>tr. \<forall>e\<in>set tr. no_ack (fst e))"
proof -
  have mk: "adds (mkdir_exist_ok d mode) (\<lambda>_ tr. \<forall>e\<in>set tr. no_ack (fst e)) (\<lambda>tr. \<forall>e\<in>set tr. no_ack (fst e))" for d mode
    using emits_helpers(5) [of no_ack mode d] by (simp add: emits_def)
  have files: "adds (iob (write_file_atomic jp jt) (\<lambda>ok. if \<not> ok then ret False else write_file_atomic ep et))
      (\<lambda>ok tr. (\<forall>e\<in>set tr. no_ack (fst e)) \<and> (ok \<longrightarrow> files_done root tr)) (\<lambda>tr. \<forall>e\<in>set tr. no_ack (fst e))"
    if "jp = root @ lit ''/run/sporevm/generation.json''" "ep = root @ lit ''/run/sporevm/env''" for jp ep jt et
    using that
    by (intro adds_iob [OF adds_replace] adds_if adds_ret adds_mono [OF adds_replace]) (auto simp: files_done_def)
  have quiet: "adds (iob m f) (\<lambda>ok tr. (\<forall>e\<in>set tr. no_ack (fst e)) \<and> (ok \<longrightarrow> files_done root tr)) (\<lambda>tr. \<forall>e\<in>set tr. no_ack (fst e))"
    if "adds m (\<lambda>_ tr. \<forall>e\<in>set tr. no_ack (fst e)) (\<lambda>tr. \<forall>e\<in>set tr. no_ack (fst e))"
      "\<And>x. adds (f x) (\<lambda>ok tr. (\<forall>e\<in>set tr. no_ack (fst e)) \<and> (ok \<longrightarrow> files_done root tr)) (\<lambda>tr. \<forall>e\<in>set tr. no_ack (fst e))"
    for m :: "bool io" and f
    by (rule adds_iob [OF that(1)], rule adds_mono [OF that(2)]) (auto intro: files_done_append)
  show ?thesis
    unfolding write_generation_files_def
    by (auto split: option.split intro!: quiet mk adds_if adds_ret files simp: build_path_def Let_def lit_def split: if_split_asm)
qed

lemma ordered_files:
  assumes "emits (\<lambda>_. True) m" "safe m (\<lambda>r. gm_last_generation (snd r) = g \<or> fst r)" "gm_last_generation m0 = g"
  shows "ordered root g (iob (write_generation_files root raw params) (\<lambda>ok. if \<not> ok then ret (False, m0) else m))"
  unfolding ordered_def
proof (rule adds_iob [OF adds_write_generation_files])
  fix ok a assume a: "(\<forall>e\<in>set (a :: event list). no_ack (fst e)) \<and> (ok \<longrightarrow> files_done root a)"
  show "adds (if \<not> ok then ret (False, m0) else m) (\<lambda>y b. acks_after_files root (a @ b) \<and>
      (gm_last_generation (snd y) = g \<or> fst y \<and> files_done root (a @ b))) (\<lambda>b. acks_after_files root (a @ b))"
  proof (cases ok)
    case True
    with a show ?thesis
      using files_done_append(1) [of root a]
      by (simp add: adds_mono [OF emits_safe [OF assms(1,2)]] acks_after_append)
  next
    case False
    with a assms(3) show ?thesis by (auto intro!: adds_step acks_after_quiet)
  qed
qed (rule acks_after_quiet)

lemma ordered_parsed_params:
  assumes "0 \<notin> set params" "\<And>p. ordered root g (f p)"
  shows "ordered root g (parsed_params params f)"
  using sat_parse_generation_params [OF assms(1)] assms(2)
  by (auto simp: parsed_params_def split: cres.split)

lemma emits_any [emits_step]:
  "unat offset + 4 \<le> unat GEN_WINDOW_SIZE \<Longrightarrow> emits (\<lambda>_. True) (mmio_read32 offset)"
  "unat offset + 4 \<le> unat GEN_WINDOW_SIZE \<Longrightarrow> emits (\<lambda>_. True) (mmio_write32 offset val)"
  "emits (\<lambda>_. True) (apply_generation_identity params)"
  unfolding mmio_read32_def mmio_write32_def apply_generation_identity_def mix_resume_entropy_def apply_resume_clock_def
  by ((simp split del: if_split)?, intro emits_step; simp)+

lemma ordered_apply_device_params:
  assumes "0 \<notin> set params"
  shows "ordered root (gm_last_generation m) (apply_device_params m root generation params)"
proof -
  have "emits (\<lambda>_. True) (iob (mmio_read32 REG_IRQ_STATUS) (\<lambda>irq_status. iob (apply_generation_identity parsed) (\<lambda>ok.
      if \<not> ok then ret (False, m) else
      iob (if irq_status AND GEN_IRQ_GENERATION_CHANGED \<noteq> 0 then mmio_write32 REG_IRQ_ACK GEN_IRQ_GENERATION_CHANGED else ret ())
        (\<lambda>_. ret (True, m\<lparr>gm_last_generation := generation\<rparr>)))))" for parsed
    by (intro emits_step) simp_all
  moreover have "safe (iob (mmio_read32 REG_IRQ_STATUS) (\<lambda>irq_status. iob (apply_generation_identity parsed) (\<lambda>ok.
      if \<not> ok then ret (False, m) else
      iob (if irq_status AND GEN_IRQ_GENERATION_CHANGED \<noteq> 0 then mmio_write32 REG_IRQ_ACK GEN_IRQ_GENERATION_CHANGED else ret ())
        (\<lambda>_. ret (True, m\<lparr>gm_last_generation := generation\<rparr>)))))
      (\<lambda>r. gm_last_generation (snd r) = gm_last_generation m \<or> fst r)" for parsed
    by (intro safe_step) simp_all
  ultimately show ?thesis
    unfolding apply_device_params_def Let_def
    by (auto intro!: ordered_ret ordered_parsed_params ordered_files assms split: option.split)
qed

text \<open>C24. The generation interrupt is acknowledged only after the generation's identity files have both
  been replaced, in every run of the poll, finished or not; and the agent regards a generation as
  applied only when the poll succeeded and the files are in place.
\<close>

theorem poll_generation_order:
  "adds (poll_generation m root)
     (\<lambda>r tr. acks_after_files root tr \<and>
        (gm_last_generation (snd r) = gm_last_generation m \<or> fst r \<and> files_done root tr)) (acks_after_files root)"
proof -
  have params: "ordered root g (iob (read_params (unat offset) limit []) f)"
    if "unat offset + limit \<le> unat GEN_WINDOW_SIZE" "limit < GEN_PARAMS_MAX" "\<And>ps. 0 \<notin> set ps \<Longrightarrow> ordered root g (f ps)" for offset limit f g
    by (rule ordered_seq [OF emits_read_params safe_read_params [where Q = "\<lambda>ps. 0 \<notin> set ps"]]) (use that in simp_all)
  have seq: "ordered root g (iob (mmio_read32 offset) f)"
    if "unat offset + 4 \<le> unat GEN_WINDOW_SIZE" "\<And>x. ordered root g (f x)" for offset f g
    by (rule ordered_seq [OF emits_mmio safe_mmio(1) [where Q = "\<lambda>_. True"]]) (use that in simp_all)
  have seq64: "ordered root g (iob (mmio_read64 REG_GENERATION) f)" if "\<And>x. ordered root g (f x)" for f g
    by (rule ordered_seq [OF emits_mmio_read64 safe_mmio_read64 [where Q = "\<lambda>_. True"]]) (use that in simp_all)
  have mapped: "safe (ensure_mapped m) (\<lambda>m'. gm_last_generation m' = gm_last_generation m)"
    unfolding ensure_mapped_def by (intro safe_step) simp_all
  have device: "ordered root (gm_last_generation m) (apply_device_params m' root generation ps)"
    if "gm_last_generation m' = gm_last_generation m" "0 \<notin> set ps" for m' generation ps
    using ordered_apply_device_params [OF that(2), of root m'] that(1) by simp
  have "ordered root (gm_last_generation m) (poll_generation m root)"
    unfolding poll_generation_def Let_def
    by (auto intro!: ordered_seq [OF emits_ensure_mapped mapped] seq seq64 params device ordered_ret
        simp: GEN_PARAMS_MAX_def; drule (1) params_in_window; simp)
  then show ?thesis by (simp add: ordered_def)
qed

end
