(* ===== verification/Copy.thy ===== *)
theory Copy
  imports Session_Start Paths Events
begin

text \<open>
  \<^verbatim>\<open>copy.c\<close>: copying a file or a directory tree into and out of the machine as an archive of records.
  An archive that comes in is unpacked in a fresh private directory and published by one link or
  rename. The recursion over directories carries a number that bounds its depth; every level makes
  a system call, so the number of answers left is enough (\<open>remove_tree_enough\<close>, \<open>emit_enough\<close>).
\<close>

section \<open>Paths\<close>

definition COPY_ARCHIVE_HEADER_LEN :: nat where "COPY_ARCHIVE_HEADER_LEN = 16"

definition KIND_FILE :: u8 where "KIND_FILE = of_char (CHR ''F'')"

definition KIND_DIR :: u8 where "KIND_DIR = of_char (CHR ''D'')"

definition KIND_END :: u8 where "KIND_END = of_char (CHR ''E'')"

definition COPY_PATH_LEN :: nat where "COPY_PATH_LEN = 512"

definition MAX_COPY_FULL_PATH_LEN :: nat where "MAX_COPY_FULL_PATH_LEN = 1024"

definition CHILD_PATH_LEN :: nat where "CHILD_PATH_LEN = MAX_COPY_FULL_PATH_LEN + COPY_PATH_LEN + 2"

definition validate_copy_path :: "bytes \<Rightarrow> bool" where
  "validate_copy_path path \<longleftrightarrow>
     length path \<ge> 2 \<and> hd path = slash \<and> length path \<le> COPY_PATH_LEN \<and> last path \<noteq> slash \<and> path_parts_valid (tl path)"

text \<open>A formatted path, when it fits.\<close>

definition fitting :: "nat \<Rightarrow> bytes \<Rightarrow> bytes option" where
  "fitting cap p = (if p \<noteq> [] \<and> length p < cap then Some p else None)"

definition build_copy_path :: "nat \<Rightarrow> bytes \<Rightarrow> bytes \<Rightarrow> bytes option" where
  "build_copy_path cap root guest_path = fitting cap (if root = [] then guest_path else root @ guest_path)"

definition copy_tmp_path :: "bytes \<Rightarrow> int \<Rightarrow> nat \<Rightarrow> bytes" where
  "copy_tmp_path path pid n =
     (let name = rev (takeWhile (\<lambda>c. c \<noteq> slash) (rev path)); dir = take (length path - length name - 1) path
      in dir @ lit ''/.'' @ name @ lit ''.spore-copy.'' @ dec_int pid @ lit ''.'' @ dec n @ lit ''.tmp'')"

definition build_copy_tmp_path :: "nat \<Rightarrow> bytes \<Rightarrow> nat \<Rightarrow> bytes option io" where
  "build_copy_tmp_path cap path n =
     (if slash \<notin> set path \<or> last path = slash then ret None
      else iob getpid (\<lambda>pid. ret (fitting cap (copy_tmp_path path pid n))))"

fun reserve_attempts :: "nat \<Rightarrow> bytes \<Rightarrow> nat list \<Rightarrow> bytes option io" where
  "reserve_attempts cap path [] = ret None"
| "reserve_attempts cap path (n # attempts) =
     iob (build_copy_tmp_path cap path n) (\<lambda>r.
     case r of
       None \<Rightarrow> ret None
     | Some out \<Rightarrow>
         iob (sys_num ''mkdir'' [0x1c0] [out]) (\<lambda>r.
         case r of
           Inr _ \<Rightarrow> ret (Some out)
         | Inl e \<Rightarrow> if e \<noteq> EEXIST then ret None else reserve_attempts cap path attempts))"

definition reserve_copy_tmp_dir :: "nat \<Rightarrow> bytes \<Rightarrow> bytes option io" where
  "reserve_copy_tmp_dir cap path = reserve_attempts cap path [0..<16]"

definition copy_archive_magic :: bytes where
  "copy_archive_magic = lit ''SPCP1'' @ [10, 0, 10]"

record copy_record =
  cr_kind :: u8
  cr_path :: bytes
  cr_mode :: u32
  cr_size :: u64

text \<open>The path of a record is a run of bytes; a NUL in it is refused.\<close>

definition validate_copy_archive_path :: "bytes \<Rightarrow> bool \<Rightarrow> bool" where
  "validate_copy_archive_path path allow_root \<longleftrightarrow>
     (if path = [] then allow_root
      else length path \<le> COPY_PATH_LEN \<and> hd path \<noteq> slash \<and> last path \<noteq> slash \<and> 0 \<notin> set path \<and> path_parts_valid path)"

definition build_copy_archive_target :: "nat \<Rightarrow> bytes \<Rightarrow> bytes \<Rightarrow> bytes option" where
  "build_copy_archive_target cap root rel = fitting cap (if rel = [] then root else root @ lit ''/'' @ rel)"

section \<open>Removing a tree\<close>

text \<open>
  A directory is opened, read and closed through its descriptor; the answer of \<^verbatim>\<open>readdir\<close> is the next
  name, empty at the end.
\<close>

abbreviation (input) "O_DIR_NOFOLLOW \<equiv> (0xB0000 :: int)"

fun remove_tree :: "nat \<Rightarrow> bytes \<Rightarrow> bool io"
  and remove_entries :: "nat \<Rightarrow> int \<Rightarrow> bytes \<Rightarrow> bool \<Rightarrow> bool io" where
  "remove_tree 0 path = block"
| "remove_tree (Suc n) path =
     iob (sys_num ''lstat'' [] [path]) (\<lambda>r.
     case r of
       Inl e \<Rightarrow> ret False
     | Inr mode \<Rightarrow>
         if \<not> S_ISDIR mode then unlink path
         else iob (sys_num ''open'' [O_DIR_NOFOLLOW] [path]) (\<lambda>r.
           case r of
             Inl e \<Rightarrow> ret False
           | Inr fd \<Rightarrow>
               iob (sys_num ''fdopendir'' [fd] []) (\<lambda>r.
               case r of
                 Inl e \<Rightarrow> iob (sys_close fd) (\<lambda>_. ret False)
               | Inr _ \<Rightarrow>
                   iob (remove_entries n fd path True) (\<lambda>ok.
                   iob (sys_close fd) (\<lambda>closed.
                   iob (sys_num ''rmdir'' [] [path]) (\<lambda>r. ret (ok \<and> closed \<and> r = Inr 0)))))))"
| "remove_entries 0 fd path ok = block"
| "remove_entries (Suc n) fd path ok =
     iob (sys_data ''readdir'' 255 [fd] []) (\<lambda>r.
     case r of
       Inl e \<Rightarrow> ret ok
     | Inr name \<Rightarrow>
         if name = [] then ret ok
         else if name = lit ''.'' \<or> name = lit ''..'' then remove_entries n fd path ok
         else case fitting CHILD_PATH_LEN (path @ lit ''/'' @ name) of
             None \<Rightarrow> remove_entries n fd path False
           | Some child \<Rightarrow> iob (remove_tree n child) (\<lambda>r. remove_entries n fd path (ok \<and> r)))"

definition remove_tree_all :: "bytes \<Rightarrow> bool io" where
  "remove_tree_all path w = remove_tree (Suc (length (w_answers w))) path w"

definition rename_noreplace :: "bytes \<Rightarrow> bytes \<Rightarrow> int sysret io" where
  "rename_noreplace old_path new_path = sys_num ''renameat2'' [1] [old_path, new_path]"

section \<open>Receiving an archive\<close>

abbreviation (input) "O_CREATE_NEW \<equiv> (0xA00C1 :: int)"

text \<open>One frame: the next expected offset, or whether the archive is complete.\<close>

definition receive_turn :: "int \<Rightarrow> int \<Rightarrow> u64 \<Rightarrow> (u64 + bool) io" where
  "receive_turn conn fd expected =
     iob (read_spio_header_blocking conn) (\<lambda>h.
     case h of
       None \<Rightarrow> ret (Inr False)
     | Some (type, sid, offset, payload_len) \<Rightarrow>
         if unat payload_len > MAX_FRAME_PAYLOAD then undef
         else iob (if payload_len > 0 then read_exact conn (unat payload_len) else ret (Some [])) (\<lambda>r.
           case r of
             None \<Rightarrow> ret (Inr False)
           | Some payload \<Rightarrow>
               if type = SPIO_DATA then
                 if sid \<noteq> SPIO_STDIN_STREAM \<or> offset \<noteq> expected then ret (Inr False)
                 else iob (if payload_len > 0 then write_all fd payload else ret True) (\<lambda>ok.
                   ret (if ok then Inl (expected + ucast payload_len) else Inr False))
               else ret (Inr (type = SPIO_CLOSE \<and> sid = SPIO_STDIN_STREAM \<and> offset = expected \<and> payload_len = 0))))"

lemma shrinks_read_exact_loop: "shrinks (read_exact_loop fd n buf)"
proof -
  have "length (w_answers w') \<le> length (w_answers w)" if "read_exact_loop fd n buf w = (Ret x, w')" for x w w'
    using that
  proof (induction fd n buf w rule: read_exact_loop.induct)
    case (1 fd n buf w)
    show ?case
    proof (cases "n = 0")
      case True
      with "1.prems" show ?thesis by (subst (asm) read_exact_loop.simps) (simp add: ret_def)
    next
      case False
      with "1.prems" obtain r w1 where r: "sys_read fd n w = (Ret r, w1)"
          "(case r of Inl e \<Rightarrow> if e = EINTR then read_exact_loop fd n buf w1 else ret None w1
            | Inr bs \<Rightarrow> if bs = [] then ret None w1 else read_exact_loop fd (n - length bs) (buf @ bs) w1) = (Ret x, w')"
        by (subst (asm) read_exact_loop.simps) (auto simp: iob_eq_Ret)
      with calls_less(1) [OF r(1)] "1.IH" [OF False r(1)] show ?thesis
        by (auto simp: ret_def split: if_split_asm sum.split_asm)
    qed
  qed
  then show ?thesis by (simp add: shrinks_def)
qed

lemma shrinks_read_exact [shrinks_intro]: "shrinks (read_exact fd n)"
  unfolding read_exact_def by (rule shrinks_read_exact_loop)

lemma read_exact_less:
  assumes "0 < n" "read_exact fd n w = (Ret r, w')"
  shows "length (w_answers w') < length (w_answers w)"
proof -
  from assms obtain a w1 where a: "sys_read fd n w = (Ret a, w1)"
      "(case a of Inl e \<Rightarrow> if e = EINTR then read_exact_loop fd n [] w1 else ret None w1
        | Inr bs \<Rightarrow> if bs = [] then ret None w1 else read_exact_loop fd (n - length bs) ([] @ bs) w1) = (Ret r, w')"
    unfolding read_exact_def read_exact_loop.simps [of fd n "[]" w] by (auto simp: iob_eq_Ret)
  then have "length (w_answers w') \<le> length (w_answers w1)"
    by (auto simp: ret_def split: sum.split_asm if_split_asm dest: shrinksD [OF shrinks_read_exact_loop])
  with calls_less(1) [OF a(1)] show ?thesis by simp
qed

lemma iob_less:
  assumes "iob m f w = (Ret y, w')" "\<And>r w1. m w = (Ret r, w1) \<Longrightarrow> length (w_answers w1) < length (w_answers w)" "\<And>r. shrinks (f r)"
  shows "length (w_answers w') < length (w_answers w)"
  using assms by (fastforce simp: iob_eq_Ret dest: shrinksD)

lemma shrinks_lift_cres [shrinks_intro]: "shrinks (lift_cres m)"
  unfolding lift_cres_def by (intro shrinks_intro)

lemma read_spio_header_blocking_less:
  "read_spio_header_blocking fd w = (Ret r, w') \<Longrightarrow> length (w_answers w') < length (w_answers w)"
  unfolding read_spio_header_blocking_def
  by (erule iob_less, erule read_exact_less [rotated], simp add: SPIO_HEADER_LEN_def) (intro shrinks_intro)

lemma receive_less: "receive_turn conn fd e w = (Ret (Inl e'), w') \<Longrightarrow> length (w_answers w') < length (w_answers w)"
  unfolding receive_turn_def
  by (erule iob_less, erule read_spio_header_blocking_less) (intro shrinks_intro)

function receive_loop :: "int \<Rightarrow> int \<Rightarrow> u64 \<Rightarrow> bool io" where
  "receive_loop conn fd expected w =
     iob (receive_turn conn fd expected) (\<lambda>r w'. case r of Inl e \<Rightarrow> receive_loop conn fd e w' | Inr x \<Rightarrow> ret x w') w"
  by pat_completeness auto
termination
  by (relation "measure (\<lambda>(conn, fd, e, w). length (w_answers w))") (auto dest: receive_less)

declare receive_loop.simps [simp del]

definition receive_lifecycle_copy_archive_from_spio :: "int \<Rightarrow> bytes \<Rightarrow> bool io" where
  "receive_lifecycle_copy_archive_from_spio conn archive_path =
     iob (sys_num ''open'' [O_CREATE_NEW, 0x180] [archive_path]) (\<lambda>r.
     case r of
       Inl e \<Rightarrow> ret False
     | Inr fd \<Rightarrow>
         iob (receive_loop conn fd 0) (\<lambda>ok.
         iob (sys_close fd) (\<lambda>closed.
         if ok \<and> closed then ret True else iob (unlink archive_path) (\<lambda>_. ret False))))"

section \<open>Unpacking\<close>

definition copy_header :: "bytes \<Rightarrow> (u8 \<times> nat \<times> u32 \<times> u64) cres" where
  "copy_header header =
     bnd (rd header 0) (\<lambda>kind.
     bnd (read_le16 (drop 1 header)) (\<lambda>path_len.
     bnd (read_le32 (drop 3 header)) (\<lambda>raw_mode.
     bnd (read_le64 (drop 7 header)) (\<lambda>size'.
     bnd (rd header 15) (\<lambda>z.
     if z \<noteq> 0 \<or> unat path_len > COPY_PATH_LEN \<or> raw_mode AND NOT 0x1ff \<noteq> 0 then Bad
     else Ok (kind, unat path_len, raw_mode, size'))))))"

definition record_accepted :: "copy_record \<Rightarrow> bool" where
  "record_accepted r \<longleftrightarrow>
     (if cr_kind r = KIND_END then cr_path r = [] \<and> cr_mode r = 0 \<and> cr_size r = 0
      else (cr_kind r = KIND_FILE \<or> cr_kind r = KIND_DIR) \<and>
        \<not> (cr_kind r = KIND_DIR \<and> cr_size r \<noteq> 0) \<and> validate_copy_archive_path (cr_path r) True)"

definition read_copy_record :: "int \<Rightarrow> copy_record option io" where
  "read_copy_record fd =
     iob (read_exact fd COPY_ARCHIVE_HEADER_LEN) (\<lambda>h.
     case h of
       None \<Rightarrow> ret None
     | Some header \<Rightarrow>
         iob (lift_cres (copy_header header)) (\<lambda>f.
         case f of
           None \<Rightarrow> ret None
         | Some (kind, path_len, mode, size') \<Rightarrow>
             iob (if path_len > 0 then read_exact fd path_len else ret (Some [])) (\<lambda>p.
             case p of
               None \<Rightarrow> ret None
             | Some path \<Rightarrow>
                 let r = \<lparr>cr_kind = kind, cr_path = path, cr_mode = mode, cr_size = size'\<rparr> in
                 ret (if record_accepted r then Some r else None))))"

definition expect_archive_eof :: "int \<Rightarrow> bool io" where
  "expect_archive_eof fd = iob (read_retry fd 1) (\<lambda>r. ret (r = Inr []))"

function copy_archive_file_to_fd :: "int \<Rightarrow> int \<Rightarrow> nat \<Rightarrow> bool io" where
  "copy_archive_file_to_fd archive_fd out_fd remaining =
     (if remaining = 0 then ret True
      else
        let n = (if remaining > MAX_FRAME_PAYLOAD then MAX_FRAME_PAYLOAD else remaining) in
        iob (read_exact archive_fd n) (\<lambda>r.
        case r of
          None \<Rightarrow> ret False
        | Some buf \<Rightarrow>
            iob (write_all out_fd buf) (\<lambda>ok.
            if \<not> ok then ret False else copy_archive_file_to_fd archive_fd out_fd (remaining - n))))"
  by pat_completeness auto
termination
  by (relation "measure (\<lambda>(a, b, n). n)") (auto simp: MAX_FRAME_PAYLOAD_def split: if_split_asm)

declare copy_archive_file_to_fd.simps [simp del]

definition create_copy_archive_file :: "int \<Rightarrow> bytes \<Rightarrow> u32 \<Rightarrow> u64 \<Rightarrow> bool io" where
  "create_copy_archive_file archive_fd path mode size' =
     iob (sys_num ''open'' [O_CREATE_NEW, 0x180] [path]) (\<lambda>r.
     case r of
       Inl e \<Rightarrow> ret False
     | Inr fd \<Rightarrow>
         iob (copy_archive_file_to_fd archive_fd fd (unat size')) (\<lambda>ok.
         iob (if ok then iob (sys_num ''fchmod'' [fd, uint (mode AND 0x1ff)] []) (\<lambda>r. ret (r = Inr 0)) else ret False) (\<lambda>ok.
         iob (sys_close fd) (\<lambda>closed.
         if ok \<and> closed then ret True else iob (unlink path) (\<lambda>_. ret False)))))"

definition create_copy_archive_dir :: "bytes \<Rightarrow> u32 \<Rightarrow> bool io" where
  "create_copy_archive_dir path mode =
     iob (sys_num ''mkdir'' [uint ((mode AND 0x1ff) OR 0x1c0)] [path]) (\<lambda>r. ret (r = Inr 0))"

text \<open>One record of a directory archive: \<open>Inr\<close> is the result, after the end record or an error.\<close>

definition extract_turn :: "int \<Rightarrow> bytes \<Rightarrow> unit \<Rightarrow> (unit + bool) io" where
  "extract_turn fd target_path s =
     iob (read_copy_record fd) (\<lambda>r.
     case r of
       None \<Rightarrow> ret (Inr False)
     | Some record' \<Rightarrow>
         if cr_kind record' = KIND_END then ret (Inr True)
         else if cr_path record' = [] then ret (Inr False)
         else case build_copy_archive_target CHILD_PATH_LEN target_path (cr_path record') of
             None \<Rightarrow> ret (Inr False)
           | Some child \<Rightarrow>
               iob (if cr_kind record' = KIND_FILE then create_copy_archive_file fd child (cr_mode record') (cr_size record')
                    else if cr_kind record' = KIND_DIR then create_copy_archive_dir child (cr_mode record')
                    else ret False) (\<lambda>ok. ret (if ok then Inl () else Inr False)))"

lemma read_copy_record_less: "read_copy_record fd w = (Ret r, w') \<Longrightarrow> length (w_answers w') < length (w_answers w)"
  unfolding read_copy_record_def
  by (erule iob_less, erule read_exact_less [rotated], simp add: COPY_ARCHIVE_HEADER_LEN_def) (intro shrinks_intro)

lemma shrinks_copy_archive_file_to_fd [shrinks_intro]: "shrinks (copy_archive_file_to_fd a b n)"
proof (induction a b n rule: copy_archive_file_to_fd.induct)
  case (1 a b n)
  then show ?case
    by (cases "n = 0"; subst copy_archive_file_to_fd.simps) (auto simp: Let_def intro!: shrinks_intro)
qed

lemma shrinks_create_copy_archive [shrinks_intro]:
  "shrinks (create_copy_archive_file fd path mode size')" "shrinks (create_copy_archive_dir path mode)"
  unfolding create_copy_archive_file_def create_copy_archive_dir_def unlink_def by (intro shrinks_intro)+

lemma extract_less: "extract_turn fd target_path s w = (Ret (Inl s'), w') \<Longrightarrow> length (w_answers w') < length (w_answers w)"
  unfolding extract_turn_def
  by (erule iob_less, erule read_copy_record_less) (intro shrinks_intro)

function extract_loop :: "int \<Rightarrow> bytes \<Rightarrow> unit \<Rightarrow> bool io" where
  "extract_loop fd target_path s w =
     iob (extract_turn fd target_path s) (\<lambda>r w'. case r of Inl s' \<Rightarrow> extract_loop fd target_path s' w' | Inr x \<Rightarrow> ret x w') w"
  by pat_completeness auto
termination
  by (relation "measure (\<lambda>(fd, t, s, w). length (w_answers w))") (auto dest: extract_less)

declare extract_loop.simps [simp del]

definition extract_file :: "int \<Rightarrow> bytes \<Rightarrow> copy_record \<Rightarrow> bool io" where
  "extract_file fd target_path record' =
     iob (create_copy_archive_file fd target_path (cr_mode record') (cr_size record')) (\<lambda>ok.
     if \<not> ok then ret False
     else iob (read_copy_record fd) (\<lambda>r.
       case r of
         None \<Rightarrow> ret False
       | Some record' \<Rightarrow> if cr_kind record' \<noteq> KIND_END then ret False else expect_archive_eof fd))"

definition extract_dir :: "int \<Rightarrow> bytes \<Rightarrow> copy_record \<Rightarrow> bool io" where
  "extract_dir fd target_path record' =
     iob (create_copy_archive_dir target_path (cr_mode record')) (\<lambda>ok.
     if \<not> ok then ret False
     else iob (extract_loop fd target_path ()) (\<lambda>ok. if \<not> ok then ret False else expect_archive_eof fd))"

text \<open>The result and the kind of the root, when there was a root record.\<close>

definition extract_copy_archive :: "bytes \<Rightarrow> bytes \<Rightarrow> (bool \<times> u8 option) io" where
  "extract_copy_archive archive_path target_path =
     iob (sys_num ''open'' [0xA0000] [archive_path]) (\<lambda>r.
     case r of
       Inl e \<Rightarrow> ret (False, None)
     | Inr fd \<Rightarrow>
         iob (iob (read_exact fd 8) (\<lambda>magic.
              if magic \<noteq> Some copy_archive_magic then ret (False, None)
              else iob (read_copy_record fd) (\<lambda>r.
                case r of
                  None \<Rightarrow> ret (False, None)
                | Some record' \<Rightarrow>
                    if cr_path record' \<noteq> [] then ret (False, None)
                    else iob (if cr_kind record' = KIND_FILE then extract_file fd target_path record'
                              else if cr_kind record' = KIND_DIR then extract_dir fd target_path record'
                              else ret False) (\<lambda>ok. ret (ok, Some (cr_kind record')))))) (\<lambda>(ok, kind).
         iob (sys_close fd) (\<lambda>closed. ret (ok \<and> closed, kind))))"

section \<open>Sending an archive\<close>

definition send_copy_stdout :: "client \<Rightarrow> bytes \<Rightarrow> (bool \<times> client) io" where
  "send_copy_stdout client buf =
     (if buf = [] then ret (True, client)
      else iob (send_spio_data (c_fd client) SPIO_STDOUT_STREAM (c_stdout_offset client) buf) (\<lambda>ok.
        if \<not> ok then ret (False, client)
        else ret (True, client\<lparr>c_stdout_offset := c_stdout_offset client + of_nat (length buf)\<rparr>)))"

definition copy_record_header :: "u8 \<Rightarrow> bytes \<Rightarrow> u32 \<Rightarrow> u64 \<Rightarrow> bytes" where
  "copy_record_header kind rel mode size' =
     [kind] @ write_le16 (of_nat (length rel)) @ write_le32 (mode AND 0x1ff) @ write_le64 size' @ [0]"

definition send_copy_record :: "client \<Rightarrow> u8 \<Rightarrow> bytes \<Rightarrow> u32 \<Rightarrow> u64 \<Rightarrow> (bool \<times> client) io" where
  "send_copy_record client kind rel mode size' =
     (if length rel > COPY_PATH_LEN \<or> kind \<noteq> KIND_END \<and> \<not> validate_copy_archive_path rel True then ret (False, client)
      else iob (send_copy_stdout client (copy_record_header kind rel mode size')) (\<lambda>(ok, client).
        if \<not> ok then ret (False, client)
        else if rel \<noteq> [] then send_copy_stdout client rel else ret (True, client)))"

text \<open>The bytes of a file, up to its end.\<close>

definition emit_turn :: "int \<Rightarrow> client \<Rightarrow> (client + bool \<times> client) io" where
  "emit_turn fd client =
     iob (sys_read fd (SPIO_BATCH_FRAMES * MAX_FRAME_PAYLOAD)) (\<lambda>r.
     case r of
       Inr buf \<Rightarrow>
         if buf \<noteq> [] then iob (send_copy_stdout client buf) (\<lambda>(ok, client). ret (if ok then Inl client else Inr (False, client)))
         else ret (Inr (True, client))
     | Inl e \<Rightarrow> if e = EINTR then ret (Inl client) else ret (Inr (False, client)))"

lemma shrinks_send_copy_stdout [shrinks_intro]: "shrinks (send_copy_stdout client buf)"
  unfolding send_copy_stdout_def by (intro shrinks_intro)

lemma emit_less: "emit_turn fd c w = (Ret (Inl c'), w') \<Longrightarrow> length (w_answers w') < length (w_answers w)"
  unfolding emit_turn_def by (erule iob_calls_less) (intro shrinks_intro shrinks_cases)

function emit_loop :: "int \<Rightarrow> client \<Rightarrow> (bool \<times> client) io" where
  "emit_loop fd c w = iob (emit_turn fd c) (\<lambda>r w'. case r of Inl c' \<Rightarrow> emit_loop fd c' w' | Inr x \<Rightarrow> ret x w') w"
  by pat_completeness auto
termination
  by (relation "measure (\<lambda>(fd, c, w). length (w_answers w))") (auto dest: emit_less)

declare emit_loop.simps [simp del]

text \<open>\<^verbatim>\<open>fstat\<close> fills in the mode and the size; the size is the answer of the second call.\<close>

definition emit_file :: "client \<Rightarrow> bytes \<Rightarrow> bytes \<Rightarrow> (bool \<times> client) io" where
  "emit_file client path rel =
     iob (sys_num ''open'' [0xA0000] [path]) (\<lambda>r.
     case r of
       Inl e \<Rightarrow> ret (False, client)
     | Inr fd \<Rightarrow>
         iob (sys_num ''fstat'' [fd] []) (\<lambda>st.
         case st of
           Inl e \<Rightarrow> iob (sys_close fd) (\<lambda>_. ret (False, client))
         | Inr mode \<Rightarrow>
             if \<not> S_ISREG mode then iob (sys_close fd) (\<lambda>_. ret (False, client))
             else iob (iob (sys_num ''st_size'' [fd] []) (\<lambda>r. case r of Inr n \<Rightarrow> ret n | Inl _ \<Rightarrow> block)) (\<lambda>st_size.
               iob (send_copy_record client KIND_FILE rel (word_of_int mode) (word_of_int st_size)) (\<lambda>(ok, client).
               if \<not> ok then iob (sys_close fd) (\<lambda>_. ret (False, client))
               else iob (emit_loop fd client) (\<lambda>(ok, client).
                 iob (sys_close fd) (\<lambda>closed. ret (ok \<and> closed, client)))))))"

fun emit_copy_entry :: "nat \<Rightarrow> client \<Rightarrow> bytes \<Rightarrow> bytes \<Rightarrow> (bool \<times> client) io"
  and emit_entries :: "nat \<Rightarrow> client \<Rightarrow> int \<Rightarrow> bytes \<Rightarrow> bytes \<Rightarrow> (bool \<times> client) io" where
  "emit_copy_entry 0 client path rel = block"
| "emit_copy_entry (Suc n) client path rel =
     iob (sys_num ''lstat'' [] [path]) (\<lambda>r.
     case r of
       Inl e \<Rightarrow> ret (False, client)
     | Inr mode \<Rightarrow>
         if S_ISREG mode then emit_file client path rel
         else if \<not> S_ISDIR mode then ret (False, client)
         else iob (send_copy_record client KIND_DIR rel (word_of_int mode) 0) (\<lambda>(ok, client).
           if \<not> ok then ret (False, client)
           else iob (sys_num ''open'' [O_DIR_NOFOLLOW] [path]) (\<lambda>r.
             case r of
               Inl e \<Rightarrow> ret (False, client)
             | Inr dir_fd \<Rightarrow>
                 iob (sys_num ''fdopendir'' [dir_fd] []) (\<lambda>r.
                 case r of
                   Inl e \<Rightarrow> iob (sys_close dir_fd) (\<lambda>_. ret (False, client))
                 | Inr _ \<Rightarrow>
                     iob (emit_entries n client dir_fd path rel) (\<lambda>(ok, client).
                     iob (sys_close dir_fd) (\<lambda>closed. ret (ok \<and> closed, client)))))))"
| "emit_entries 0 client dir_fd path rel = block"
| "emit_entries (Suc n) client dir_fd path rel =
     iob (sys_data ''readdir'' 255 [dir_fd] []) (\<lambda>r.
     case r of
       Inl e \<Rightarrow> ret (True, client)
     | Inr name \<Rightarrow>
         if name = [] then ret (True, client)
         else if name = lit ''.'' \<or> name = lit ''..'' then emit_entries n client dir_fd path rel
         else case (fitting CHILD_PATH_LEN (path @ lit ''/'' @ name),
                    fitting (COPY_PATH_LEN + 1) (if rel = [] then name else rel @ lit ''/'' @ name)) of
             (Some child_path, Some child_rel) \<Rightarrow>
               if \<not> validate_copy_archive_path child_rel False then ret (False, client)
               else iob (emit_copy_entry n client child_path child_rel) (\<lambda>(ok, client).
                 if \<not> ok then ret (False, client) else emit_entries n client dir_fd path rel)
           | _ \<Rightarrow> ret (False, client))"

definition emit_copy_tree :: "client \<Rightarrow> bytes \<Rightarrow> (bool \<times> client) io" where
  "emit_copy_tree client path w = emit_copy_entry (Suc (length (w_answers w))) client path [] w"

section \<open>The two requests\<close>

definition copy_error :: "client \<Rightarrow> int \<Rightarrow> string \<Rightarrow> (bool \<times> client) io" where
  "copy_error client code msg = send_client_error_exit client code (lit msg @ [10])"

text \<open>What follows once the temporary directory is there.\<close>

definition copy_in_transfer :: "client \<Rightarrow> bytes \<Rightarrow> bytes \<Rightarrow> (bool \<times> client) io" where
  "copy_in_transfer client path tmp_dir =
     (case fitting (MAX_COPY_FULL_PATH_LEN + 112) (tmp_dir @ lit ''/payload'') of
        None \<Rightarrow> iob (remove_tree_all tmp_dir) (\<lambda>_. copy_error client 2 ''spore vm copy-in: guest path is too long'')
      | Some tmp \<Rightarrow>
        case fitting (MAX_COPY_FULL_PATH_LEN + 112) (tmp_dir @ lit ''/archive'') of
          None \<Rightarrow> iob (remove_tree_all tmp_dir) (\<lambda>_. copy_error client 1 ''spore vm copy-in: cannot create guest transfer archive'')
        | Some archive_tmp \<Rightarrow>
            iob (receive_lifecycle_copy_archive_from_spio (c_fd client) archive_tmp) (\<lambda>ok.
            if \<not> ok then iob (remove_tree_all tmp_dir) (\<lambda>_. copy_error client 1 ''spore vm copy-in: transfer failed'')
            else iob (extract_copy_archive archive_tmp tmp) (\<lambda>(ok, root_kind).
              if \<not> ok then iob (remove_tree_all tmp_dir) (\<lambda>_. copy_error client 1 ''spore vm copy-in: cannot write guest path'')
              else iob (unlink archive_tmp) (\<lambda>_.
                iob (if root_kind = Some KIND_FILE then sys_num ''link'' [] [tmp, path] else rename_noreplace tmp path) (\<lambda>publish.
                iob (remove_tree_all tmp_dir) (\<lambda>_.
                case publish of
                  Inl e \<Rightarrow> copy_error client 1 (if e = EEXIST then ''spore vm copy-in: guest path already exists''
                    else ''spore vm copy-in: cannot publish guest path'')
                | Inr _ \<Rightarrow> iob (send_client_exit client 0) (\<lambda>ok. ret (ok, client))))))))"

definition copy_in_file :: "client \<Rightarrow> bytes \<Rightarrow> bytes \<Rightarrow> (bool \<times> client) io" where
  "copy_in_file client root guest_path =
     (if \<not> validate_copy_path guest_path then copy_error client 2 ''spore vm copy-in: invalid guest path''
      else case build_copy_path MAX_COPY_FULL_PATH_LEN root guest_path of
          None \<Rightarrow> copy_error client 2 ''spore vm copy-in: guest path is too long''
        | Some path \<Rightarrow>
            iob (reserve_copy_tmp_dir (MAX_COPY_FULL_PATH_LEN + 96) path) (\<lambda>r.
            case r of
              None \<Rightarrow> copy_error client 1 ''spore vm copy-in: cannot create guest transfer temp''
            | Some tmp_dir \<Rightarrow> copy_in_transfer client path tmp_dir))"

definition copy_out_file :: "client \<Rightarrow> bytes \<Rightarrow> bytes \<Rightarrow> (bool \<times> client) io" where
  "copy_out_file client root guest_path =
     (if \<not> validate_copy_path guest_path then copy_error client 2 ''spore vm copy-out: invalid guest path''
      else case build_copy_path MAX_COPY_FULL_PATH_LEN root guest_path of
          None \<Rightarrow> copy_error client 2 ''spore vm copy-out: guest path is too long''
        | Some path \<Rightarrow>
            iob (iob (send_copy_stdout client copy_archive_magic) (\<lambda>(ok, client).
                 if \<not> ok then ret (False, client)
                 else iob (emit_copy_tree client path) (\<lambda>(ok, client).
                   if \<not> ok then ret (False, client) else send_copy_record client KIND_END [] 0 0))) (\<lambda>(ok, client).
            if \<not> ok then copy_error client 1 ''spore vm copy-out: cannot read guest path''
            else iob (send_client_exit client 0) (\<lambda>ok. ret (ok, client))))"

section \<open>Safety\<close>

lemma safe_tmp_dir [safe_step]:
  "(\<And>r. Q r) \<Longrightarrow> safe (reserve_copy_tmp_dir cap path) Q"
proof -
  assume Q: "\<And>r. Q r"
  have "safe (reserve_attempts cap path ns) Q" for ns
    by (induction ns) (auto simp: build_copy_tmp_path_def intro!: safe_step Q)
  then show ?thesis by (simp add: reserve_copy_tmp_dir_def)
qed

lemma safe_remove:
  "safe (remove_tree n path) (\<lambda>_. True)" "safe (remove_entries n fd path ok) (\<lambda>_. True)"
proof (induction n path and n fd path ok rule: remove_tree_remove_entries.induct)
  case (2 n path)
  show ?case by (auto intro!: safe_step safe_mono [OF "2"])
next
  case (4 n fd path ok)
  show ?case by (auto split: option.split intro!: safe_step "4" safe_mono [OF "4"(3)])
qed (auto intro: safe_step)

lemma safe_remove_tree_all [safe_step]: "(\<And>r. Q r) \<Longrightarrow> safe (remove_tree_all path) Q"
  using safe_remove(1) unfolding safe_def remove_tree_all_def by (meson holds_mono)

lemma safe_receive_turn: "safe (receive_turn conn fd e) (\<lambda>_. True)"
  unfolding receive_turn_def by (intro safe_step) (auto intro!: safe_step)

lemma safe_receive [safe_step]: "(\<And>ok. Q ok) \<Longrightarrow> safe (receive_lifecycle_copy_archive_from_spio conn path) Q"
proof -
  assume Q: "\<And>ok. Q ok"
  have "safe (receive_loop conn fd e) (\<lambda>_. True)" for fd e
    by (rule safe_iterate [where I = "\<lambda>_. True" and m = "\<lambda>s w. length (w_answers w)", OF receive_loop.simps receive_less])
       (auto intro: safe_mono [OF safe_receive_turn] split: sum.split)
  then show ?thesis unfolding receive_lifecycle_copy_archive_from_spio_def by (intro safe_step safe_any Q) (auto intro: safe_step)
qed

lemma copy_header_defined:
  assumes "length h = COPY_ARCHIVE_HEADER_LEN"
  shows "copy_header h = Bad \<or> (\<exists>kind n mode size'. copy_header h = Ok (kind, n, mode, size') \<and> n \<le> COPY_PATH_LEN)"
proof -
  have len: "length h = 16" using assms by (simp add: COPY_ARCHIVE_HEADER_LEN_def)
  obtain n mode size' where "read_le16 (drop 1 h) = Ok n" "read_le32 (drop 3 h) = Ok mode" "read_le64 (drop 7 h) = Ok size'"
    using read_le_defined(1) [of "drop 1 h"] read_le_defined(2) [of "drop 3 h"] read_le_defined(3) [of "drop 7 h"] len by auto
  then show ?thesis using len by (auto simp: copy_header_def rd_def)
qed

lemma safe_read_copy_record [safe_step]:
  assumes "Q None" "\<And>r. record_accepted r \<Longrightarrow> Q (Some r)"
  shows "safe (read_copy_record fd) Q"
  unfolding read_copy_record_def
proof (intro safe_step)
  fix bs header :: bytes
  assume "length bs = COPY_ARCHIVE_HEADER_LEN" "Some bs = Some header"
  then consider "copy_header header = Bad" | kind n mode size' where "copy_header header = Ok (kind, n, mode, size')"
    using copy_header_defined by blast
  then show "safe (lift_cres (copy_header header)) (\<lambda>f. safe (case f of None \<Rightarrow> ret None | Some (kind, path_len, mode, size') \<Rightarrow>
      iob (if path_len > 0 then read_exact fd path_len else ret (Some [])) (\<lambda>p. case p of None \<Rightarrow> ret None
        | Some path \<Rightarrow> let r = \<lparr>cr_kind = kind, cr_path = path, cr_mode = mode, cr_size = size'\<rparr> in
            ret (if record_accepted r then Some r else None))) Q)"
    by cases (auto simp: lift_cres_def Let_def intro!: safe_step assms)
qed (use assms in auto)

lemma safe_copy_archive_file_to_fd: "safe (copy_archive_file_to_fd a b n) (\<lambda>_. True)"
proof (induction a b n rule: copy_archive_file_to_fd.induct)
  case (1 a b n)
  then show ?case by (subst copy_archive_file_to_fd.simps) (auto simp: Let_def intro!: safe_step)
qed

lemmas safe_copied [safe_step] = safe_mono [OF safe_copy_archive_file_to_fd]

lemma safe_create_copy_archive [safe_step]:
  "(\<And>ok. Q ok) \<Longrightarrow> safe (create_copy_archive_file fd path mode size') Q"
  "(\<And>ok. Q ok) \<Longrightarrow> safe (create_copy_archive_dir path mode) Q"
  "(\<And>ok. Q ok) \<Longrightarrow> safe (expect_archive_eof fd) Q"
  unfolding create_copy_archive_file_def create_copy_archive_dir_def expect_archive_eof_def by (intro safe_step; simp)+

lemma safe_extract_turn: "safe (extract_turn fd target_path s) (\<lambda>_. True)"
  unfolding extract_turn_def by (intro safe_step) (auto split: option.split intro!: safe_step)

lemma safe_extract_loop [safe_step]: "(\<And>ok. Q ok) \<Longrightarrow> safe (extract_loop fd target_path s) Q"
  by (rule safe_iterate [where I = "\<lambda>_. True" and m = "\<lambda>s w. length (w_answers w)", OF extract_loop.simps extract_less])
     (auto intro: safe_mono [OF safe_extract_turn] split: sum.split)

lemma safe_extract_copy_archive [safe_step]: "(\<And>r. Q r) \<Longrightarrow> safe (extract_copy_archive archive_path target_path) Q"
  unfolding extract_copy_archive_def extract_file_def extract_dir_def by (intro safe_step) auto

text \<open>The client of a copy keeps its descriptor.\<close>

lemma safe_send_copy_stdout [safe_step]:
  "(\<And>ok off. Q (ok, c\<lparr>c_stdout_offset := off\<rparr>)) \<Longrightarrow> safe (send_copy_stdout c buf) Q"
proof -
  assume Q: "\<And>ok off. Q (ok, c\<lparr>c_stdout_offset := off\<rparr>)"
  from Q [of _ "c_stdout_offset c"] have "Q (ok, c)" for ok by simp
  with Q show ?thesis unfolding send_copy_stdout_def by (intro safe_step) auto
qed

lemma safe_send_copy_record [safe_step]:
  "(\<And>ok off. Q (ok, c\<lparr>c_stdout_offset := off\<rparr>)) \<Longrightarrow> safe (send_copy_record c kind rel mode size') Q"
proof -
  assume Q: "\<And>ok off. Q (ok, c\<lparr>c_stdout_offset := off\<rparr>)"
  from Q [of _ "c_stdout_offset c"] have "Q (ok, c)" for ok by simp
  with Q show ?thesis unfolding send_copy_record_def by (auto intro!: safe_step)
qed

lemma safe_emit_turn:
  "safe (emit_turn fd c) (case_sum (\<lambda>c'. c_fd c' = c_fd c) (\<lambda>r. c_fd (snd r) = c_fd c))"
  unfolding emit_turn_def by (intro safe_step) (auto intro!: safe_step)

lemma safe_emit_loop [safe_step]: "(\<And>ok c'. c_fd c' = c_fd c \<Longrightarrow> Q (ok, c')) \<Longrightarrow> safe (emit_loop fd c) Q"
  by (rule safe_iterate [where I = "\<lambda>c'. c_fd c' = c_fd c" and m = "\<lambda>s w. length (w_answers w)", OF emit_loop.simps emit_less])
     (auto intro!: safe_mono [OF safe_emit_turn] split: sum.split_asm sum.split)

lemma safe_emit_file [safe_step]: "(\<And>ok c'. c_fd c' = c_fd c \<Longrightarrow> Q (ok, c')) \<Longrightarrow> safe (emit_file c path rel) Q"
  unfolding emit_file_def by (auto intro!: safe_step)

lemma safe_emit:
  "safe (emit_copy_entry n c path rel) (\<lambda>r. c_fd (snd r) = c_fd c)"
  "safe (emit_entries n c fd path rel) (\<lambda>r. c_fd (snd r) = c_fd c)"
proof (induction n c path rel and n c fd path rel rule: emit_copy_entry_emit_entries.induct)
  case (2 n c path rel)
  show ?case by (auto intro!: safe_step safe_mono [OF "2"])
next
  case (4 n c fd path rel)
  show ?case by (auto split: option.split intro!: safe_step safe_mono [OF "4"(1)] safe_mono [OF "4"(2)] safe_mono [OF "4"(3)])
qed (auto intro: safe_step)

lemma safe_emit_copy_tree [safe_step]: "(\<And>ok c'. c_fd c' = c_fd c \<Longrightarrow> Q (ok, c')) \<Longrightarrow> safe (emit_copy_tree c path) Q"
  using safe_emit(1) unfolding safe_def emit_copy_tree_def by (smt (verit) holds_mono prod.collapse)

lemma safe_copy_error [safe_step]: "(\<And>ok c'. c_fd c' = c_fd c \<Longrightarrow> Q (ok, c')) \<Longrightarrow> safe (copy_error c code msg) Q"
  unfolding copy_error_def by (auto intro!: safe_step)

lemma safe_copy_in_transfer: "safe (copy_in_transfer c path tmp_dir) (\<lambda>r. c_fd (snd r) = c_fd c)"
  unfolding copy_in_transfer_def rename_noreplace_def
  by (auto split: option.split intro!: safe_step safe_any [OF safe_mono [OF _ TrueI]])

lemma safe_copy_in_file [safe_step]: "(\<And>ok c'. c_fd c' = c_fd c \<Longrightarrow> Q (ok, c')) \<Longrightarrow> safe (copy_in_file c root guest_path) Q"
  unfolding copy_in_file_def
  by (auto split: option.split intro!: safe_step safe_mono [OF safe_copy_in_transfer])

lemma safe_copy_out_file [safe_step]: "(\<And>ok c'. c_fd c' = c_fd c \<Longrightarrow> Q (ok, c')) \<Longrightarrow> safe (copy_out_file c root guest_path) Q"
  unfolding copy_out_file_def
  by (auto split: option.split intro!: safe_step)

end
