(* ===== verification/Copy_Spec.thy ===== *)
theory Copy_Spec
  imports Copy Session_Descriptors
begin

text \<open>
  What the two copy requests do to the file system and to the descriptors: the recursion over
  directories always has enough fuel, unpacking touches only paths below its target, a copy into the
  machine touches only its own temporary directory and publishes without replacing anything, every
  descriptor that is opened is closed, and the record header round-trips.
\<close>

section \<open>Policies over calls\<close>

lemma emits_mono: "emits E m \<Longrightarrow> (\<And>c. E c \<Longrightarrow> E' c) \<Longrightarrow> emits E' m"
  unfolding emits_def by (erule adds_mono) auto

text \<open>What a step returned may be needed to know that the next calls are allowed.\<close>

lemma emits_iob_safe:
  assumes m: "emits E m" and Q: "safe m Q" and f: "\<And>x. Q x \<Longrightarrow> emits E (f x)"
  shows "emits E (iob m f)"
  unfolding emits_def
proof (rule adds_iob [OF emits_safe [OF m Q]])
  show "adds (f x) (\<lambda>_ b. \<forall>e\<in>set (a @ b). E (fst e)) (\<lambda>b. \<forall>e\<in>set (a @ b). E (fst e))"
    if "(\<forall>e\<in>set a. E (fst e)) \<and> Q x" for x a
    by (rule adds_mono [OF f [unfolded emits_def]]) (use that in auto)
qed

text \<open>A policy that allows reading, writing and the clock allows every reply to a client.\<close>

locale stream_calls =
  fixes E :: "call \<Rightarrow> bool"
  assumes reading: "E (Read fd n)" and writing: "E (Write fd bs)" and clock: "E Clock"
begin

lemma emits_read_exact: "emits E (read_exact fd n)"
  unfolding emits_def
  by (rule adds_mono [OF adds_read_exact]) (fastforce simp: reads_exactly_def reads_only_def list_all_iff reading split: option.splits)+

lemma emits_send_spio_data: "emits E (send_spio_data fd sid offset buf)"
  unfolding emits_def
  by (rule adds_mono [OF adds_send_spio_data]) (auto simp: writes_def writes_only_def list_all_iff writing)

lemma emits_lift_cres: "m \<noteq> UB \<Longrightarrow> emits E (lift_cres m)"
  by (cases m) (auto simp: lift_cres_def intro: emits_step)

lemma emits_frames: "emits E (send_spio_exit fd code)" "emits E (send_spio_timing_frame fd)"
  unfolding emits_def
  by (rule adds_mono [OF adds_send_spio_exit], auto simp: writes_def writes_only_def list_all_iff writing)
     (rule adds_mono [OF adds_send_spio_timing_frame], auto simp: sends_timing_def list_all_iff writing clock)

lemma emits_replies:
  "emits E (send_client_exit c code)" "emits E (copy_error c code msg)" "emits E (send_copy_stdout c buf)"
  "emits E (send_copy_record c kind rel mode size')"
  unfolding send_client_exit_def copy_error_def send_client_error_exit_def send_copy_record_def send_copy_stdout_def
  by (intro emits_step emits_frames emits_send_spio_data)+

lemma emits_read_retry: "emits E (read_retry fd n)"
proof (rule emits_iterate [where f = "\<lambda>_ :: unit. read_retry fd n" and m = "\<lambda>s w. length (w_answers w)"
      and turn = "\<lambda>_. iob (sys_read fd n) (\<lambda>r. ret (if r = Inl EINTR then Inl () else Inr r))"])
  show "read_retry fd n w = iob (iob (sys_read fd n) (\<lambda>r. ret (if r = Inl EINTR then Inl () else Inr r)))
      (\<lambda>r w'. case r of Inl s' \<Rightarrow> read_retry fd n w' | Inr x \<Rightarrow> ret x w') w" for w
    by (subst read_retry.simps) (auto simp: iob_assoc intro!: iob_ext)
qed (auto simp: iob_eq_Ret ret_def dest: calls_less intro!: emits_step reading split: if_split_asm)

lemma emits_emit_loop: "emits E (emit_loop fd c)"
  by (rule emits_iterate [where m = "\<lambda>s w. length (w_answers w)", OF emit_loop.simps emit_less])
     (auto simp: emit_turn_def intro!: emits_step emits_replies reading)

lemma emits_read_spio_header_blocking: "emits E (read_spio_header_blocking fd)"
  unfolding read_spio_header_blocking_def
proof (rule emits_iob_safe [OF emits_read_exact])
  show "safe (read_exact fd SPIO_HEADER_LEN) (\<lambda>r. \<forall>h. r = Some h \<longrightarrow> length h = SPIO_HEADER_LEN)"
    by (intro safe_step) auto
  show "emits E (case r of None \<Rightarrow> ret None | Some header \<Rightarrow> lift_cres (header_fields header))"
    if "\<forall>h. r = Some h \<longrightarrow> length h = SPIO_HEADER_LEN" for r
    using that header_fields_defined by (cases r) (force intro: emits_step emits_lift_cres)+
qed

lemma emits_read_copy_record: "emits E (read_copy_record fd)"
  unfolding read_copy_record_def
proof (rule emits_iob_safe [OF emits_read_exact])
  show "safe (read_exact fd COPY_ARCHIVE_HEADER_LEN) (\<lambda>r. \<forall>h. r = Some h \<longrightarrow> length h = COPY_ARCHIVE_HEADER_LEN)"
    by (intro safe_step) auto
next
  fix r :: "bytes option"
  assume "\<forall>h. r = Some h \<longrightarrow> length h = COPY_ARCHIVE_HEADER_LEN"
  then have "\<forall>h. r = Some h \<longrightarrow> copy_header h \<noteq> UB" using copy_header_defined by fastforce
  then show "emits E (case r of None \<Rightarrow> ret None | Some header \<Rightarrow> iob (lift_cres (copy_header header)) (\<lambda>f. case f of
      None \<Rightarrow> ret None | Some (kind, path_len, mode, size') \<Rightarrow>
        iob (if path_len > 0 then read_exact fd path_len else ret (Some [])) (\<lambda>p. case p of None \<Rightarrow> ret None
        | Some path \<Rightarrow> let r = \<lparr>cr_kind = kind, cr_path = path, cr_mode = mode, cr_size = size'\<rparr> in
            ret (if record_accepted r then Some r else None))))"
    by (cases r) (auto intro!: emits_step emits_lift_cres emits_read_exact)
qed

lemma emits_receive_turn: "emits E (receive_turn conn fd e)"
  unfolding receive_turn_def
proof (rule emits_iob_safe [OF emits_read_spio_header_blocking])
  show "safe (read_spio_header_blocking conn) (\<lambda>h. \<forall>t sid off n. h = Some (t, sid, off, n) \<longrightarrow> \<not> MAX_FRAME_PAYLOAD < unat n)"
    by (intro safe_step) auto
qed (auto split: option.split intro!: emits_step emits_read_exact writing)

lemma emits_receive_loop: "emits E (receive_loop conn fd e)"
  by (rule emits_iterate [where m = "\<lambda>s w. length (w_answers w)", OF receive_loop.simps receive_less emits_receive_turn])

end

text \<open>With \<^verbatim>\<open>close\<close> allowed as well.\<close>

locale file_calls = stream_calls +
  assumes closing: "E (Close fd)"
begin

lemma emits_copied: "emits E (copy_archive_file_to_fd a b n)"
proof (induction a b n rule: copy_archive_file_to_fd.induct)
  case (1 a b n)
  show ?case
    by (cases "n = 0"; subst copy_archive_file_to_fd.simps) (auto simp: Let_def intro!: emits_step emits_read_exact writing "1")
qed

lemma emits_create_copy_archive_file:
  "(\<And>is. E (Sys ''open'' is [path])) \<Longrightarrow> E (Sys ''unlink'' [] [path]) \<Longrightarrow> (\<And>is. E (Sys ''fchmod'' is [])) \<Longrightarrow>
   emits E (create_copy_archive_file fd path mode size')"
  unfolding create_copy_archive_file_def by (intro emits_step emits_copied closing; simp)

end

section \<open>Unpacking stays below the target\<close>

definition call_paths :: "call \<Rightarrow> bytes list" where
  "call_paths c = (case c of Sys name is ss \<Rightarrow> ss | Fetch name cap is ss \<Rightarrow> ss | _ \<Rightarrow> [])"

definition below :: "bytes \<Rightarrow> bytes \<Rightarrow> bool" where
  "below d p \<longleftrightarrow> (\<exists>cs. list_all proper_component cs \<and> p = d @ abs_path cs)"

definition confined_to :: "bytes \<Rightarrow> bytes \<Rightarrow> call \<Rightarrow> bool" where
  "confined_to archive target c \<longleftrightarrow> list_all (\<lambda>p. p = archive \<or> below target p) (call_paths c)"

interpretation confined: file_calls "confined_to archive target" for archive target
  by unfold_locales (simp_all add: confined_to_def call_paths_def)

lemma below_refl: "below d d"
  unfolding below_def by (rule exI [of _ "[]"]) simp

lemma validate_copy_archive_path_components:
  assumes "validate_copy_archive_path p allow" "p \<noteq> []"
  shows "\<exists>cs. cs \<noteq> [] \<and> list_all proper_component cs \<and> p = rel_path cs"
  using assms by (intro path_parts_valid_components) (auto simp: validate_copy_archive_path_def)

lemma below_archive_target:
  assumes "record_accepted r" "cr_kind r \<noteq> KIND_END" "cr_path r \<noteq> []" "build_copy_archive_target cap target (cr_path r) = Some child"
  shows "below target child"
proof -
  from assms have v: "validate_copy_archive_path (cr_path r) True" by (simp add: record_accepted_def)
  from validate_copy_archive_path_components [OF v assms(3)]
  obtain cs where cs: "cs \<noteq> []" "list_all proper_component cs" "cr_path r = rel_path cs" by blast
  then have "slash # cr_path r = abs_path cs" by (cases cs) simp_all
  then have "child = target @ abs_path cs"
    using assms(3,4) by (auto simp: build_copy_archive_target_def fitting_def lit_def split: if_split_asm)
  with cs show ?thesis by (auto simp: below_def)
qed

lemma emits_create:
  assumes "below target path"
  shows "emits (confined_to archive target) (create_copy_archive_file fd path mode size')"
    "emits (confined_to archive target) (create_copy_archive_dir path mode)"
  unfolding create_copy_archive_dir_def
  by (intro confined.emits_create_copy_archive_file emits_step; simp add: confined_to_def call_paths_def assms)+

lemma emits_extract_turn: "emits (confined_to archive target) (extract_turn fd target s)"
  unfolding extract_turn_def
proof (rule emits_iob_safe [OF confined.emits_read_copy_record])
  show "safe (read_copy_record fd) (\<lambda>r. \<forall>x. r = Some x \<longrightarrow> record_accepted x)"
    by (intro safe_step) auto
qed (auto split: option.split intro!: emits_step emits_create elim!: below_archive_target)

lemma emits_extract_loop: "emits (confined_to archive target) (extract_loop fd target s)"
  by (rule emits_iterate [where m = "\<lambda>s w. length (w_answers w)", OF extract_loop.simps extract_less emits_extract_turn])

lemma emits_extract: "emits (confined_to archive target) (extract_copy_archive archive target)"
  unfolding extract_copy_archive_def extract_file_def extract_dir_def expect_archive_eof_def
  by (intro emits_step confined.emits_read_exact confined.emits_read_copy_record emits_create below_refl emits_extract_loop
        confined.emits_read_retry confined.closing; simp add: confined_to_def call_paths_def)

text \<open>C28. Unpacking an archive only ever names the archive, the target, or a path made of the target
  and proper components below it: no record, whatever bytes it holds, leads out of the target.\<close>

theorem extract_copy_archive_confined:
  "emits (confined_to archive target) (extract_copy_archive archive target)"
  by (rule emits_extract)

section \<open>A copy into the machine\<close>

definition inside :: "bytes \<Rightarrow> bytes \<Rightarrow> bool" where
  "inside d p \<longleftrightarrow> p = d \<or> prefix (d @ [slash]) p"

definition inside_call :: "bytes \<Rightarrow> call \<Rightarrow> bool" where
  "inside_call d c \<longleftrightarrow> list_all (inside d) (call_paths c)"

text \<open>The one call that names the requested path: it fails when the path is there already.\<close>

definition publishes :: "bytes \<Rightarrow> bytes \<Rightarrow> call \<Rightarrow> bool" where
  "publishes d path c \<longleftrightarrow> c = Sys ''link'' [] [d @ lit ''/payload'', path] \<or> c = Sys ''renameat2'' [1] [d @ lit ''/payload'', path]"

definition copy_in_call :: "bytes \<Rightarrow> call \<Rightarrow> bool" where
  "copy_in_call path c \<longleftrightarrow>
     call_paths c = [] \<or> (\<exists>pid n. n < 16 \<and> (inside_call (copy_tmp_path path pid n) c \<or> publishes (copy_tmp_path path pid n) path c))"

interpretation inside: file_calls "inside_call d" for d
  by unfold_locales (simp_all add: inside_call_def call_paths_def)

interpretation copy_in: file_calls "copy_in_call path" for path
  by unfold_locales (simp_all add: copy_in_call_def call_paths_def)

lemma inside_child: "inside d p \<Longrightarrow> inside d (p @ slash # q)"
  by (auto simp: inside_def prefix_def)

lemma emits_fitting:
  "(fitting cap q = None \<Longrightarrow> emits E m) \<Longrightarrow> (fitting cap q = Some q \<Longrightarrow> emits E (h q)) \<Longrightarrow> emits E (case fitting cap q of None \<Rightarrow> m | Some p \<Rightarrow> h p)"
  by (simp add: fitting_def)

lemma inside_calls:
  "inside d p \<Longrightarrow> inside_call d (Sys name is [p])" "inside_call d (Sys name is [])" "inside_call d (Fetch name cap is [])"
  by (simp_all add: inside_call_def call_paths_def)

lemma emits_remove:
  "inside d path \<Longrightarrow> emits (inside_call d) (remove_tree n path)"
  "inside d path \<Longrightarrow> emits (inside_call d) (remove_entries n fd path ok)"
proof (induction n path and n fd path ok rule: remove_tree_remove_entries.induct)
  case (2 n path)
  show ?case
    unfolding remove_tree.simps
    by (intro emits_step inside_calls inside.closing "2") simp_all
next
  case (4 n fd path ok)
  have child: "inside d (path @ lit ''/'' @ name)" for name
    using inside_child [OF "4.prems"] by (simp add: lit_def)
  show ?case
    unfolding remove_entries.simps
    by (intro emits_fitting emits_step inside_calls; (rule "4" | simp add: child); simp add: child "4.prems")
qed (auto intro: emits_step)

lemma emits_remove_tree_all: "inside d path \<Longrightarrow> emits (inside_call d) (remove_tree_all path)"
  using emits_remove(1) unfolding emits_def adds_def remove_tree_all_def by blast

lemma below_inside: "below (d @ slash # q) p \<Longrightarrow> inside d p"
  by (auto simp: below_def inside_def prefix_def)

lemma emits_extract_inside: "emits (inside_call d) (extract_copy_archive (d @ lit ''/archive'') (d @ lit ''/payload''))"
proof -
  have "inside d p" if "p = d @ lit ''/archive'' \<or> below (d @ lit ''/payload'') p" for p
    using that below_inside [of d _ p] inside_child [of d d] by (auto simp: lit_def inside_def)
  then have "inside_call d c" if "confined_to (d @ lit ''/archive'') (d @ lit ''/payload'') c" for c
    using that by (auto simp: inside_call_def confined_to_def list_all_iff)
  with emits_extract show ?thesis by (rule emits_mono)
qed

lemma build_copy_tmp_path_result:
  "safe (build_copy_tmp_path cap path n) (\<lambda>r. \<forall>d. r = Some d \<longrightarrow> (\<exists>pid. d = copy_tmp_path path pid n))"
  by (auto simp: build_copy_tmp_path_def fitting_def intro!: safe_step split: if_split_asm)

lemma reserve_copy_tmp_dir_result:
  "safe (reserve_copy_tmp_dir cap path) (\<lambda>r. \<forall>d. r = Some d \<longrightarrow> (\<exists>pid n. n < 16 \<and> d = copy_tmp_path path pid n))"
proof -
  have "safe (reserve_attempts cap path ns) (\<lambda>r. \<forall>d. r = Some d \<longrightarrow> (\<exists>pid n. n < 16 \<and> d = copy_tmp_path path pid n))"
    if "list_all (\<lambda>n. n < 16) ns" for ns
    using that
  proof (induction ns)
    case (Cons n ns)
    then show ?case
      unfolding reserve_attempts.simps
      by (intro safe_iob safe_mono [OF build_copy_tmp_path_result]) (auto split: option.split intro!: safe_step; blast)
  qed (auto intro: safe_step)
  then show ?thesis by (simp add: reserve_copy_tmp_dir_def list_all_iff)
qed

lemma copy_in_calls:
  "n < 16 \<Longrightarrow> copy_in_call path (Sys ''mkdir'' is [copy_tmp_path path pid n])" "copy_in_call path (Sys name is [])"
  by (auto simp: copy_in_call_def inside_call_def inside_def call_paths_def)

lemma copy_in_publish: "publishes (copy_tmp_path path pid n) path c \<Longrightarrow> n < 16 \<Longrightarrow> copy_in_call path c"
  by (auto simp: copy_in_call_def)

lemma emits_reserve: "emits (copy_in_call path) (reserve_copy_tmp_dir cap path)"
proof -
  have "emits (copy_in_call path) (reserve_attempts cap path ns)" if "list_all (\<lambda>n. n < 16) ns" for ns
    using that
  proof (induction ns)
    case (Cons n ns)
    have "emits (copy_in_call path) (build_copy_tmp_path cap path n)"
      unfolding build_copy_tmp_path_def by (intro emits_step copy_in_calls)
    then show ?case
      using Cons unfolding reserve_attempts.simps
      by (intro emits_iob_safe [OF _ build_copy_tmp_path_result])
         (auto split: option.split intro!: emits_step copy_in_calls)
  qed (auto intro: emits_step)
  then show ?thesis by (simp add: reserve_copy_tmp_dir_def list_all_iff)
qed

lemma emits_inside: "emits (inside_call (copy_tmp_path path pid n)) m \<Longrightarrow> n < 16 \<Longrightarrow> emits (copy_in_call path) m"
  by (erule emits_mono) (auto simp: copy_in_call_def)

lemma emits_receive_inside: "inside d p \<Longrightarrow> emits (inside_call d) (receive_lifecycle_copy_archive_from_spio conn p)"
  unfolding receive_lifecycle_copy_archive_from_spio_def
  by (intro emits_step inside.emits_receive_loop inside.closing inside_calls) simp_all

lemma emits_copy_in_transfer:
  assumes "n < 16"
  shows "emits (copy_in_call path) (copy_in_transfer c path (copy_tmp_path path pid n))"
proof -
  let ?d = "copy_tmp_path path pid n"
  have "inside ?d ?d" "inside ?d (?d @ lit ''/archive'')"
    by (simp_all add: inside_def lit_def)
  then have own: "emits (copy_in_call path) (remove_tree_all ?d)"
      "emits (copy_in_call path) (receive_lifecycle_copy_archive_from_spio (c_fd c) (?d @ lit ''/archive''))"
      "emits (copy_in_call path) (extract_copy_archive (?d @ lit ''/archive'') (?d @ lit ''/payload''))"
      "emits (copy_in_call path) (unlink (?d @ lit ''/archive''))"
    by (blast intro: emits_inside [OF _ assms] emits_remove_tree_all emits_receive_inside emits_extract_inside emits_helpers inside_calls)+
  have pub: "emits (copy_in_call path) (sys_num ''link'' [] [?d @ lit ''/payload'', path])"
      "emits (copy_in_call path) (rename_noreplace (?d @ lit ''/payload'') path)"
    unfolding rename_noreplace_def by (intro emits_calls copy_in_publish [OF _ assms]; simp add: publishes_def)+
  show ?thesis
    unfolding copy_in_transfer_def by (intro own pub emits_fitting emits_step copy_in.emits_replies)
qed


section \<open>Descriptors\<close>

text \<open>A call that neither opens nor closes keeps the balance.\<close>

definition quiet :: "call \<Rightarrow> bool" where
  "quiet c = (case c of Sys name is ss \<Rightarrow> \<not> opens name | Fetch name cap is ss \<Rightarrow> True | Close fd \<Rightarrow> False | Pipe flags \<Rightarrow> False | _ \<Rightarrow> True)"

interpretation quiet: stream_calls quiet
  by unfold_locales (simp_all add: quiet_def)

lemma bal_quiet: "\<forall>e\<in>set tr. quiet (fst e) \<Longrightarrow> bal k tr = 0"
proof (induction tr)
  case (Cons e tr)
  then have "ev_bal k e = 0"
    by (cases "(k, e)" rule: ev_bal.cases) (auto simp: quiet_def)
  with Cons show ?case by simp
qed simp

lemma neutral_quiet: "emits quiet m \<Longrightarrow> neutral m"
  unfolding emits_def by (rule neutralI, erule owns_adds) (rule bal_quiet)

lemma neutral_copy_steps:
  "neutral (send_client_exit c code)" "neutral (copy_error c code msg)" "neutral (send_copy_stdout c buf)"
  "neutral (send_copy_record c kind rel mode size')" "neutral (emit_loop fd c)" "neutral (receive_loop conn fd' e)"
  "neutral (read_exact fd n)" "neutral (read_copy_record fd)" "neutral (read_retry fd n)"
  by (intro neutral_quiet quiet.emits_replies quiet.emits_emit_loop quiet.emits_receive_loop quiet.emits_read_exact
      quiet.emits_read_copy_record quiet.emits_read_retry)+

lemma neutral_case_prod: "(\<And>a b. neutral (h a b)) \<Longrightarrow> neutral (case_prod h p)"
  by (cases p) simp

lemma neutral_copied: "neutral (copy_archive_file_to_fd a b n)"
proof (induction a b n rule: copy_archive_file_to_fd.induct)
  case (1 a b n)
  show ?case
    by (cases "n = 0"; subst copy_archive_file_to_fd.simps)
       (auto simp: Let_def intro!: neutral_basic neutral_cases neutral_copy_steps neutral_write_all "1")
qed

text \<open>A descriptor that is opened, used and closed.\<close>

lemma neutral_bracket:
  assumes "\<And>e. neutral (g e)"
    and "\<And>k fd. 0 \<le> k \<Longrightarrow> 0 \<le> fd \<Longrightarrow> owns k (h fd) (\<lambda>_ b. b = - u k fd)"
  shows "neutral (iob (sys_num ''open'' is ss) (case_sum g h))"
proof (rule neutralI)
  fix k :: int assume k: "0 \<le> k"
  show "owns k (iob (sys_num ''open'' is ss) (case_sum g h)) (\<lambda>_ b. b = 0)"
  proof (rule owns_open_any)
    show "owns k (case Inl e of Inl e \<Rightarrow> g e | Inr fd \<Rightarrow> h fd) (\<lambda>_ b. b = 0)" for e
      using owns_neutral [OF assms(1) k, of "\<lambda>_ b. b = 0"] by simp
    show "owns k (case Inr fd of Inl e \<Rightarrow> g e | Inr fd \<Rightarrow> h fd) (\<lambda>_ b. u k fd + b = 0)" if "0 \<le> fd" for fd
      using owns_mono [OF assms(2) [OF k that], of "\<lambda>_ b. u k fd + b = 0"] by simp
  qed
qed

lemma owns_closing:
  "0 \<le> k \<Longrightarrow> (\<And>x. neutral (f x)) \<Longrightarrow> owns k (iob (sys_close fd) f) (\<lambda>_ b. b = - u k fd)"
  by (intro owns_iob owns_calls owns_neutral) simp_all

lemmas neutral_intros = neutral_basic neutral_cases neutral_case_prod neutral_num neutral_calls neutral_helpers neutral_copy_steps
  neutral_copied neutral_write_all

lemmas owns_closes = owns_closing owns_any neutral_intros

lemma neutral_create_copy_archive_file: "neutral (create_copy_archive_file fd path mode size')"
  unfolding create_copy_archive_file_def
  by (intro neutral_bracket owns_closes; simp add: opens_def)

lemma neutral_create_copy_archive: "neutral (create_copy_archive_dir path mode)" "neutral (expect_archive_eof fd)"
  unfolding create_copy_archive_dir_def expect_archive_eof_def
  by (intro neutral_intros; simp add: opens_def)+

lemma neutral_receive: "neutral (receive_lifecycle_copy_archive_from_spio conn path)"
  unfolding receive_lifecycle_copy_archive_from_spio_def
  by (intro neutral_bracket owns_closes; simp add: opens_def)

lemma neutral_extract_loop: "neutral (extract_loop fd target_path s)"
proof (rule neutral_iterate [where turn = "extract_turn fd target_path ()"])
  show "extract_loop fd target_path s w = iob (extract_turn fd target_path ())
      (\<lambda>r w'. case r of Inl _ \<Rightarrow> extract_loop fd target_path s w' | Inr x \<Rightarrow> ret x w') w" for w
    by (subst extract_loop.simps) (simp cong: sum.case_cong)
  show "neutral (extract_turn fd target_path ())"
    unfolding extract_turn_def by (intro neutral_create_copy_archive_file neutral_create_copy_archive neutral_intros)
qed (rule extract_less)

lemma neutral_extract_copy_archive: "neutral (extract_copy_archive archive_path target_path)"
  unfolding extract_copy_archive_def extract_file_def extract_dir_def
  by (intro neutral_bracket owns_closing owns_any owns_constr neutral_extract_loop neutral_create_copy_archive_file
      neutral_create_copy_archive neutral_intros owns_cases; simp)

lemma neutral_block: "neutral block"
  by (rule neutralI) (intro owns_step)

lemma neutral_remove: "neutral (remove_tree n path) \<and> neutral (remove_entries n fd path ok)"
proof (induction n arbitrary: path fd ok)
  case (Suc n)
  note IH = Suc [THEN conjunct1] Suc [THEN conjunct2]
  have "neutral (remove_tree (Suc n) path)"
    unfolding remove_tree.simps
    by (intro neutral_basic neutral_cases neutral_num neutral_helpers neutral_bracket owns_any owns_cases owns_closing IH; simp add: opens_def)
  moreover have "neutral (remove_entries (Suc n) fd path ok)"
    unfolding remove_entries.simps by (intro neutral_intros IH)
  ultimately show ?case ..
qed (simp add: neutral_block)

lemma neutral_remove_tree_all: "neutral (remove_tree_all path)"
  using neutral_remove unfolding neutral_def owns_def remove_tree_all_def by blast

lemma neutral_emit_file: "neutral (emit_file client path rel)"
  unfolding emit_file_def
  by (intro neutral_bracket owns_any owns_cases owns_if owns_closing neutral_block neutral_intros; simp add: opens_def)

lemma neutral_emit: "neutral (emit_copy_entry n client path rel) \<and> neutral (emit_entries n client fd path rel)"
proof (induction n arbitrary: client path rel fd)
  case (Suc n)
  note IH = Suc [THEN conjunct1] Suc [THEN conjunct2]
  have "neutral (emit_copy_entry (Suc n) client path rel)"
    unfolding emit_copy_entry.simps
    by (intro neutral_basic neutral_cases neutral_case_prod neutral_num neutral_helpers neutral_copy_steps neutral_emit_file neutral_bracket
        owns_any owns_cases owns_closing IH; simp add: opens_def)
  moreover have "neutral (emit_entries (Suc n) client fd path rel)"
    unfolding emit_entries.simps by (intro neutral_intros IH)
  ultimately show ?case ..
qed (simp add: neutral_block)

lemma neutral_emit_copy_tree: "neutral (emit_copy_tree client path)"
  using neutral_emit unfolding neutral_def owns_def emit_copy_tree_def by blast

lemma neutral_reserve: "neutral (reserve_attempts cap path ns)"
proof (induction ns)
  case (Cons n ns)
  then show ?case
    unfolding reserve_attempts.simps build_copy_tmp_path_def by (intro neutral_intros; simp add: opens_def)
qed (simp add: neutral_basic)

text \<open>C29. Neither copy request leaks a descriptor or closes one that is not its own: after a run that
  returns, on success and on every error path, each descriptor has been closed as often as it was opened.\<close>

theorem copy_descriptors:
  "neutral (copy_in_file client root guest_path) \<and> neutral (copy_out_file client root guest_path)"
proof
  show "neutral (copy_in_file client root guest_path)"
    unfolding copy_in_file_def copy_in_transfer_def rename_noreplace_def reserve_copy_tmp_dir_def
    by (intro neutral_reserve neutral_remove_tree_all neutral_receive neutral_extract_copy_archive neutral_intros; simp add: opens_def)
  show "neutral (copy_out_file client root guest_path)"
    unfolding copy_out_file_def by (intro neutral_emit_copy_tree neutral_intros)
qed

section \<open>The fuel is enough\<close>

text \<open>\<open>agree k f g\<close>: with at most \<open>k\<close> answers left the two computations are the same.\<close>

definition agree :: "nat \<Rightarrow> 'a io \<Rightarrow> 'a io \<Rightarrow> bool" where
  "agree k f g \<longleftrightarrow> (\<forall>w. length (w_answers w) \<le> k \<longrightarrow> f w = g w)"

lemma agree_refl: "agree k f f"
  by (simp add: agree_def)

lemma agree_iob:
  assumes "agree k m m'" "shrinks m" "\<And>x. agree k (f x) (g x)"
  shows "agree k (iob m f) (iob m' g)"
  unfolding agree_def
proof (intro allI impI)
  fix w :: world assume k: "length (w_answers w) \<le> k"
  from k assms(1) have m: "m w = m' w" by (simp add: agree_def)
  have "f x w' = g x w'" if "m w = (Ret x, w')" for x w'
    using assms(3) shrinksD [OF assms(2) that] k by (simp add: agree_def)
  with m show "iob m f w = iob m' g w"
    by (auto simp: iob_def split: prod.split outcome.split)
qed

text \<open>A call uses an answer up; without answers it blocks.\<close>

lemma agree_call:
  assumes less: "\<And>w x w'. m w = (Ret x, w') \<Longrightarrow> length (w_answers w') < length (w_answers w)"
    and "\<And>x j. k = Suc j \<Longrightarrow> agree j (f x) (g x)"
  shows "agree k (iob m f) (iob m g)"
  unfolding agree_def
proof (intro allI impI)
  fix w :: world assume k: "length (w_answers w) \<le> k"
  have "f x w' = g x w'" if "m w = (Ret x, w')" for x w'
  proof (cases k)
    case (Suc j)
    with assms(2) less [OF that] k show ?thesis by (simp add: agree_def)
  qed (use less [OF that] k in simp)
  then show "iob m f w = iob m g w"
    by (auto simp: iob_def split: prod.split outcome.split)
qed

lemma agree_cases:
  "(\<And>e. agree k (f e) (f' e)) \<Longrightarrow> (\<And>x. agree k (g x) (g' x)) \<Longrightarrow> agree k (case_sum f g r) (case_sum f' g' r)"
  "agree k n n' \<Longrightarrow> (\<And>x. agree k (h x) (h' x)) \<Longrightarrow> agree k (case_option n h q) (case_option n' h' q)"
  "(\<And>a b. agree k (j a b) (j' a b)) \<Longrightarrow> agree k (case_prod j p) (case_prod j' p)"
  "agree k a a' \<Longrightarrow> agree k b b' \<Longrightarrow> agree k (if c then a else b) (if c then a' else b')"
  by (auto split: sum.split option.split prod.split)

lemma shrinks_remove: "shrinks (remove_tree n path) \<and> shrinks (remove_entries n fd path ok)"
proof (induction n arbitrary: path fd ok)
  case (Suc n)
  note IH = Suc [THEN conjunct1] Suc [THEN conjunct2]
  have "shrinks (remove_tree (Suc n) path)" "shrinks (remove_entries (Suc n) fd path ok)"
    unfolding remove_tree.simps remove_entries.simps unlink_def by (intro IH shrinks_intro)+
  then show ?case ..
qed (simp add: shrinks_intro)

lemma agree_remove:
  "k < n \<Longrightarrow> k < m \<Longrightarrow> agree k (remove_tree n path) (remove_tree m path) \<and> agree k (remove_entries n fd path ok) (remove_entries m fd path ok)"
proof (induction k arbitrary: n m path fd ok rule: less_induct)
  case (less k)
  obtain n' m' where nm: "n = Suc n'" "m = Suc m'" using less.prems by (cases n; cases m) auto
  have IH: "agree j (remove_tree n' p) (remove_tree m' p)" "agree j (remove_entries n' fd p b) (remove_entries m' fd p b)"
    if "k = Suc j" for j p fd b
    using less.IH [of j n' m'] less.prems that nm by auto
  note sh = shrinks_remove [THEN conjunct1] shrinks_remove [THEN conjunct2] shrinks_intro
  have "agree k (remove_tree n path) (remove_tree m path)"
    unfolding nm remove_tree.simps
    by (intro agree_call agree_cases agree_iob agree_refl IH sh; (erule calls_less)?)
  moreover have "agree k (remove_entries n fd path ok) (remove_entries m fd path ok)"
    unfolding nm remove_entries.simps
    by (intro agree_call agree_cases agree_iob agree_refl IH sh; (erule calls_less)?)
  ultimately show ?case ..
qed

lemma shrinks_send_copy_record [shrinks_intro]: "shrinks (send_copy_record c kind rel mode size')"
  unfolding send_copy_record_def by (intro shrinks_intro)

lemma shrinks_emit_loop [shrinks_intro]: "shrinks (emit_loop fd c)"
  by (rule shrinks_iterate [where m = "\<lambda>s w. length (w_answers w)", OF emit_loop.simps], erule emit_less) (unfold emit_turn_def, intro shrinks_intro)

lemma shrinks_emit_file [shrinks_intro]: "shrinks (emit_file c path rel)"
  unfolding emit_file_def by (intro shrinks_intro)

lemma shrinks_emit: "shrinks (emit_copy_entry n c path rel) \<and> shrinks (emit_entries n c fd path rel)"
proof (induction n arbitrary: c path rel fd)
  case (Suc n)
  note IH = Suc [THEN conjunct1] Suc [THEN conjunct2]
  have "shrinks (emit_copy_entry (Suc n) c path rel)" "shrinks (emit_entries (Suc n) c fd path rel)"
    unfolding emit_copy_entry.simps emit_entries.simps by (intro IH shrinks_intro)+
  then show ?case ..
qed (simp add: shrinks_intro)

lemma agree_emit:
  "k < n \<Longrightarrow> k < m \<Longrightarrow> agree k (emit_copy_entry n c path rel) (emit_copy_entry m c path rel) \<and>
     agree k (emit_entries n c fd path rel) (emit_entries m c fd path rel)"
proof (induction k arbitrary: n m c path rel fd rule: less_induct)
  case (less k)
  obtain n' m' where nm: "n = Suc n'" "m = Suc m'" using less.prems by (cases n; cases m) auto
  have IH: "agree j (emit_copy_entry n' c p r) (emit_copy_entry m' c p r)" "agree j (emit_entries n' c fd p r) (emit_entries m' c fd p r)"
    if "k = Suc j" for j c p r fd
    using less.IH [of j n' m'] less.prems that nm by auto
  note sh = shrinks_emit [THEN conjunct1] shrinks_emit [THEN conjunct2] shrinks_intro
  have "agree k (emit_copy_entry n c path rel) (emit_copy_entry m c path rel)"
    unfolding nm emit_copy_entry.simps
    by (intro agree_call agree_cases agree_iob agree_refl IH sh; (erule calls_less)?)
  moreover have "agree k (emit_entries n c fd path rel) (emit_entries m c fd path rel)"
    unfolding nm emit_entries.simps
    by (intro agree_call agree_cases agree_iob agree_refl IH sh; (erule calls_less)?)
  ultimately show ?case ..
qed


section \<open>Records\<close>

text \<open>C31. A record header that was sent is read back as it was: the kind, the length of the path, the nine
  permission bits and the size.\<close>

theorem copy_header_round_trip:
  assumes "length rel \<le> COPY_PATH_LEN"
  shows "copy_header (copy_record_header kind rel mode size') = Ok (kind, length rel, mode AND 0x1ff, size')"
proof -
  have len: "unat (of_nat (length rel) :: u16) = length rel"
    using assms by (simp add: COPY_PATH_LEN_def unat_of_nat take_bit_nat_eq_self)
  have mode: "(mode AND 511) AND - 512 = (0 :: u32)"
    by (simp add: and.assoc)
  let ?h = "copy_record_header kind rel mode size'"
  have "drop 1 ?h = write_le16 (of_nat (length rel)) @ write_le32 (mode AND 0x1ff) @ write_le64 size' @ [0]"
    "drop 3 ?h = write_le32 (mode AND 0x1ff) @ write_le64 size' @ [0]" "drop 7 ?h = write_le64 size' @ [0]"
    "rd ?h 0 = Ok kind" "rd ?h 15 = Ok 0"
    by (simp_all add: copy_record_header_def write_le16_def write_le32_def write_le64_def rd_def upt_rec)
  then show ?thesis
    using assms mode len by (simp add: copy_header_def read_write_le16 read_write_le32 read_write_le64)
qed

theorem copy_header_round_trip_witness:
  "copy_header (copy_record_header KIND_FILE (lit ''a/b'') 0x81a4 5) = Ok (KIND_FILE, 3, 0x1a4, 5)"
  using copy_header_round_trip [of "lit ''a/b''" KIND_FILE "0x81a4" 5] by (simp add: COPY_PATH_LEN_def lit_def)

end
