(* ===== verification/Build_Run.thy ===== *)
theory Build_Run
  imports Copy Generation Request_Safety
begin

text \<open>
  \<^verbatim>\<open>build_run.c\<close> and the transient exec of \<^verbatim>\<open>session_io.c\<close>: the operations that hold the client while they
  run. The functions of \<^verbatim>\<open>build_copy.c\<close> they call are the fields of \<open>build_ops\<close>, an argument of the
  definitions: each is any computation with the result type of the function.
\<close>

section \<open>The operations of build copy\<close>

type_synonym component = "u64 \<times> u64"

record build_ops =
  bo_ensure_directory :: "bytes \<Rightarrow> bytes \<Rightarrow> (int \<times> errno) io"
  bo_cache_target_prepare :: "bytes \<Rightarrow> bytes \<Rightarrow> (bool \<times> int \<times> component \<times> component list) io"
  bo_cache_target_cleanup :: "bytes \<Rightarrow> bytes \<Rightarrow> component \<Rightarrow> component list \<Rightarrow> bool io"
  bo_bind_source_open :: "bytes \<Rightarrow> bytes \<Rightarrow> int io"
  bo_bind_target_prepare :: "bytes \<Rightarrow> bytes \<Rightarrow> (int \<times> int \<times> bool \<times> component \<times> component list) io"
  bo_bind_target_cleanup :: "bytes \<Rightarrow> bytes \<Rightarrow> bool \<Rightarrow> component \<Rightarrow> component list \<Rightarrow> bool io"
  bo_copy_apply :: "bytes \<Rightarrow> bytes \<Rightarrow> run_request \<Rightarrow> (int \<times> bytes) io"

section \<open>The command of a RUN step\<close>

text \<open>One frame: what has been received so far, or the error text, or the command.\<close>

definition command_turn :: "int \<Rightarrow> u64 \<Rightarrow> nat \<Rightarrow> bytes \<times> u64 \<Rightarrow> (bytes \<times> u64 + (bytes \<times> u64) res) io" where
  "command_turn fd command_len cap s =
     (let (received, expected) = s; failed = (\<lambda>msg. ret (Inr (Inl (snprintf 256 msg)))) in
      if \<not> of_nat (length received) < command_len then ret (Inr (Inr s))
      else iob (read_spio_header_blocking fd) (\<lambda>h.
        case h of
          None \<Rightarrow> failed (lit ''spore build: RUN command payload read failed'' @ [10])
        | Some (type, sid, offset, payload_len) \<Rightarrow>
            if type \<noteq> SPIO_DATA \<or> sid \<noteq> SPIO_STDIN_STREAM \<or> offset \<noteq> expected then
              failed (lit ''spore build: RUN command payload frame mismatch: expected_offset='' @ dec (unat expected) @
                lit '' actual_offset='' @ dec (unat offset) @ [10])
            else if of_nat (length received) + ucast payload_len > command_len then
              failed (lit ''spore build: RUN command payload exceeds declared length: limit='' @ dec (unat command_len) @
                lit '' bytes actual='' @ dec (unat (of_nat (length received) + ucast payload_len :: u64)) @ lit '' bytes'' @ [10])
            else if length received + unat payload_len > cap then undef
            else iob (if payload_len > 0 then read_exact fd (unat payload_len) else ret (Some [])) (\<lambda>r.
              case r of
                None \<Rightarrow> failed (lit ''spore build: RUN command payload read failed'' @ [10])
              | Some bs \<Rightarrow> ret (Inl (received @ bs, expected + ucast payload_len)))))"

lemma command_less:
  "command_turn fd n cap s w = (Ret (Inl s'), w') \<Longrightarrow> length (w_answers w') < length (w_answers w)"
  unfolding command_turn_def Let_def case_prod_unfold
  by (split if_split_asm, simp add: ret_def, erule iob_less, erule read_spio_header_blocking_less) (intro shrinks_intro)

function command_loop :: "int \<Rightarrow> u64 \<Rightarrow> nat \<Rightarrow> bytes \<times> u64 \<Rightarrow> (bytes \<times> u64) res io" where
  "command_loop fd n cap s w =
     iob (command_turn fd n cap s) (\<lambda>r w'. case r of Inl s' \<Rightarrow> command_loop fd n cap s' w' | Inr x \<Rightarrow> ret x w') w"
  by pat_completeness auto
termination
  by (relation "measure (\<lambda>(fd, n, cap, s, w). length (w_answers w))") (auto dest: command_less)

declare command_loop.simps [simp del]

text \<open>The frame that closes the payload.\<close>

definition command_close :: "int \<Rightarrow> bytes \<times> u64 \<Rightarrow> bytes res io" where
  "command_close fd s =
     (let (received, expected) = s; failed = (\<lambda>msg. ret (Inl (snprintf 256 msg))) in
      iob (read_spio_header_blocking fd) (\<lambda>h.
      case h of
        None \<Rightarrow> failed (lit ''spore build: RUN command payload close missing'' @ [10])
      | Some (type, sid, offset, payload_len) \<Rightarrow>
          if unat payload_len > MAX_FRAME_PAYLOAD then undef
          else iob (if payload_len > 0 then read_exact fd (unat payload_len) else ret (Some [])) (\<lambda>r.
            if r = None then failed (lit ''spore build: RUN command trailing payload read failed'' @ [10])
            else if type \<noteq> SPIO_CLOSE \<or> sid \<noteq> SPIO_STDIN_STREAM \<or> offset \<noteq> expected \<or> payload_len \<noteq> 0 then
              failed (lit ''spore build: RUN command payload has trailing data'' @ [10])
            else ret (Inr received))))"

definition read_build_command_from_spio :: "int \<Rightarrow> u64 \<Rightarrow> nat \<Rightarrow> bytes res io" where
  "read_build_command_from_spio fd command_len cap =
     (if unat command_len \<ge> cap \<or> command_len > MAX_BUILD_RUN_COMMAND_LEN then
        ret (Inl (snprintf 256 (lit ''spore build: RUN shell command exceeds limit: limit='' @ dec (unat MAX_BUILD_RUN_COMMAND_LEN) @
          lit '' bytes actual='' @ dec (unat command_len) @ lit '' bytes'' @ [10])))
      else iob (command_loop fd command_len cap ([], 0)) (\<lambda>r.
        case r of
          Inl msg \<Rightarrow> ret (Inl msg)
        | Inr s \<Rightarrow> command_close fd s))"

definition build_workdir_apply :: "build_ops \<Rightarrow> client \<Rightarrow> bytes \<Rightarrow> bytes \<Rightarrow> (bool \<times> client) io" where
  "build_workdir_apply ops client root path =
     iob (bo_ensure_directory ops root path) (\<lambda>(exit_code, e).
     if exit_code \<noteq> 0 then
       if exit_code = 2 then send_client_error_exit client 2 (lit ''spore build: invalid WORKDIR path'' @ [10])
       else if exit_code = 126 then send_client_error_exit client 126 (lit ''spore build: rootfs unavailable'' @ [10])
       else if e = ENOSPC then send_client_error_exit client 1 (lit ''spore build: SPORE_BUILD_ENOSPC WORKDIR creation failed'' @ [10])
       else send_client_error_exit client 1 (lit ''spore build: WORKDIR creation failed'' @ [10])
     else iob (send_client_exit client 0) (\<lambda>ok. ret (ok, client)))"

section \<open>Killing what a RUN step left behind\<close>

text \<open>
  \<^verbatim>\<open>sscanf\<close> after the command name: \<^verbatim>\<open>%c\<close> takes the byte after white space, \<^verbatim>\<open>%ld\<close> and \<^verbatim>\<open>%lu\<close> take a number
  as \<^verbatim>\<open>strtoull\<close> does.
\<close>

definition scan_char :: "bytes \<Rightarrow> bytes option" where
  "scan_char s = (case dropWhile is_space s of [] \<Rightarrow> None | _ # t \<Rightarrow> Some t)"

definition scan_num :: "bytes \<Rightarrow> (u64 \<times> bytes) option" where
  "scan_num s = (let (v, n) = strtoull s in if n = 0 then None else Some (v, drop n s))"

fun scan_nums :: "nat \<Rightarrow> bytes \<Rightarrow> u64 list option" where
  "scan_nums 0 s = Some []"
| "scan_nums (Suc n) s =
     (case scan_num s of
        None \<Rightarrow> None
      | Some (v, t) \<Rightarrow> (case scan_nums n t of None \<Rightarrow> None | Some vs \<Rightarrow> Some (v # vs)))"

text \<open>\<open>None\<close> is -1.\<close>

definition parse_proc_stat_kernel_thread :: "bytes \<Rightarrow> bool option" where
  "parse_proc_stat_kernel_thread stat =
     (if of_char (CHR '')'') \<notin> set stat then None
      else
        let after = rev (takeWhile (\<lambda>c. c \<noteq> of_char (CHR '')'')) (rev stat)) in
        case scan_char after of
          None \<Rightarrow> None
        | Some rest \<Rightarrow> (case scan_nums 6 rest of None \<Rightarrow> None | Some vs \<Rightarrow> Some (vs ! 5 AND 0x200000 \<noteq> 0)))"

definition process_is_kernel_thread :: "int \<Rightarrow> bytes \<Rightarrow> bool option io" where
  "process_is_kernel_thread proc_dir_fd pid_name =
     (case fitting 64 (pid_name @ lit ''/stat'') of
        None \<Rightarrow> ret None
      | Some path \<Rightarrow>
          iob (sys_num ''openat'' [proc_dir_fd, 0xA0000] [path]) (\<lambda>r.
          case r of
            Inl e \<Rightarrow> ret (if e = ENOENT then Some True else None)
          | Inr fd \<Rightarrow>
              iob (read_retry fd 4095) (\<lambda>n.
              iob (sys_close fd) (\<lambda>_.
              ret (case n of
                Inl e \<Rightarrow> None
              | Inr stat \<Rightarrow> if stat = [] then None else parse_proc_stat_kernel_thread (takeWhile (\<lambda>c. c \<noteq> 0) stat))))))"

text \<open>\<^verbatim>\<open>strtol\<close> on the whole name, in the range of a process id.\<close>

definition pid_of_name :: "bytes \<Rightarrow> int option" where
  "pid_of_name name =
     (let t = dropWhile is_space name;
          neg = (t \<noteq> [] \<and> hd t = of_char (CHR ''-''));
          u = (if t \<noteq> [] \<and> (neg \<or> hd t = of_char (CHR ''+'')) then tl t else t);
          v = dec_value u
      in if u = [] \<or> \<not> list_all is_dec u \<or> neg \<or> v = 0 \<or> v \<ge> 2 ^ 31 then None else Some (int v))"

text \<open>One entry of the process directory; \<open>Inr None\<close> is -1.\<close>

definition kill_turn :: "int \<Rightarrow> int \<Rightarrow> int \<Rightarrow> bool \<Rightarrow> (bool + bool option) io" where
  "kill_turn proc_dir_fd scan_fd self found =
     iob (sys_data ''readdir'' 255 [scan_fd] []) (\<lambda>r.
     case r of
       Inl e \<Rightarrow> ret (Inr (Some found))
     | Inr name \<Rightarrow>
         if name = [] then ret (Inr (Some found))
         else case pid_of_name name of
             None \<Rightarrow> ret (Inl found)
           | Some pid \<Rightarrow>
               if pid = self then ret (Inl found)
               else iob (process_is_kernel_thread proc_dir_fd name) (\<lambda>k.
                 case k of
                   None \<Rightarrow> ret (Inr None)
                 | Some is_kernel_thread \<Rightarrow>
                     if is_kernel_thread then ret (Inl found)
                     else iob (sys_num ''kill'' [pid, 9] []) (\<lambda>r.
                       case r of
                         Inl e \<Rightarrow> if e \<noteq> ESRCH then ret (Inr None) else ret (Inl True)
                       | Inr _ \<Rightarrow> ret (Inl True))))"

lemma shrinks_process_is_kernel_thread [shrinks_intro]: "shrinks (process_is_kernel_thread fd name)"
  unfolding process_is_kernel_thread_def by (intro shrinks_intro)

lemma kill_less: "kill_turn p d self b w = (Ret (Inl b'), w') \<Longrightarrow> length (w_answers w') < length (w_answers w)"
  unfolding kill_turn_def by (erule iob_less, erule calls_less) (intro shrinks_intro)

function kill_loop :: "int \<Rightarrow> int \<Rightarrow> int \<Rightarrow> bool \<Rightarrow> bool option io" where
  "kill_loop p d self b w =
     iob (kill_turn p d self b) (\<lambda>r w'. case r of Inl b' \<Rightarrow> kill_loop p d self b' w' | Inr x \<Rightarrow> ret x w') w"
  by pat_completeness auto
termination
  by (relation "measure (\<lambda>(p, d, self, b, w). length (w_answers w))") (auto dest: kill_less)

declare kill_loop.simps [simp del]

definition kill_other_userspace_processes :: "int \<Rightarrow> bool option io" where
  "kill_other_userspace_processes proc_dir_fd =
     (if proc_dir_fd < 0 then ret None
      else iob (sys_num ''openat'' [proc_dir_fd, 0x90000] [lit ''.'']) (\<lambda>r.
        case r of
          Inl e \<Rightarrow> ret None
        | Inr scan_fd \<Rightarrow>
            iob (sys_num ''fdopendir'' [scan_fd] []) (\<lambda>r.
            case r of
              Inl e \<Rightarrow> iob (sys_close scan_fd) (\<lambda>_. ret None)
            | Inr _ \<Rightarrow>
                iob getpid (\<lambda>self.
                iob (kill_loop proc_dir_fd scan_fd self False) (\<lambda>found.
                iob (sys_close scan_fd) (\<lambda>_. ret found))))))"

definition cleanup_failed :: "bytes \<Rightarrow> (unit + bool) io" where
  "cleanup_failed step =
     iob (dprintf 2 (lit ''build RUN cleanup failed: '' @ step @ [10])) (\<lambda>_. ret (Inr False))"

definition cleanup_failed_errno :: "bytes \<Rightarrow> (unit + bool) io" where
  "cleanup_failed_errno step =
     iob stale_errno (\<lambda>e. cleanup_failed (step @ lit '' errno='' @ dec e))"

definition before_deadline :: "i64 \<Rightarrow> bytes \<Rightarrow> (unit + bool) io" where
  "before_deadline deadline late =
     iob now_ms (\<lambda>now.
     if sint now \<ge> sint deadline then cleanup_failed late
     else iob (sys_num ''usleep'' [1000] []) (\<lambda>_. ret (Inl ())))"

definition cgroup_turn :: "session \<Rightarrow> i64 \<Rightarrow> unit \<Rightarrow> (unit + bool) io" where
  "cgroup_turn session deadline u =
     iob (session_cgroup_populated session) (\<lambda>populated.
     if populated = Some False then ret (Inr True)
     else if populated = None then cleanup_failed_errno (lit ''read cgroup processes'')
     else before_deadline deadline (lit ''cgroup remained populated''))"

definition guest_turn :: "int \<Rightarrow> i64 \<Rightarrow> unit \<Rightarrow> (unit + bool) io" where
  "guest_turn proc_dir_fd deadline u =
     iob reap_exited_children (\<lambda>_.
     iob (kill_other_userspace_processes proc_dir_fd) (\<lambda>found.
     if found = Some False then ret (Inr True)
     else if found = None then cleanup_failed_errno (lit ''scan guest processes'')
     else before_deadline deadline (lit ''guest processes remained alive'')))"

lemma shrinks_before_deadline [shrinks_intro]: "shrinks (before_deadline d msg)"
  unfolding before_deadline_def cleanup_failed_def dprintf_def by (intro shrinks_intro)

lemma before_deadline_less: "before_deadline d msg w = (Ret (Inl u), w') \<Longrightarrow> length (w_answers w') < length (w_answers w)"
  unfolding before_deadline_def cleanup_failed_def dprintf_def
  by (auto simp: iob_eq_Ret ret_def split: if_split_asm dest!: calls_less shrinksD [OF shrinks_now_ms])

lemma shrinks_reap [shrinks_intro]: "shrinks reap_exited_children"
proof (rule shrinks_iterate [where f = "\<lambda>_ :: unit. reap_exited_children" and m = "\<lambda>s w. length (w_answers w)" and s = "()"
      and turn = "\<lambda>_. iob (sys_wait (- 1) True) (\<lambda>r. ret (case r of
        Inr (p, status, usage) \<Rightarrow> if p > 0 then Inl () else Inr () | Inl e \<Rightarrow> if e = EINTR then Inl () else Inr ()))"])
  show "reap_exited_children w = iob (iob (sys_wait (- 1) True) (\<lambda>r. ret (case r of
        Inr (p, status, usage) \<Rightarrow> if p > 0 then Inl () else Inr () | Inl e \<Rightarrow> if e = EINTR then Inl () else Inr ())))
      (\<lambda>r w'. case r of Inl s' \<Rightarrow> reap_exited_children w' | Inr x \<Rightarrow> ret x w') w" for w
    by (subst reap_exited_children.simps) (auto simp: iob_def ret_def split: prod.split outcome.split sum.split)
qed (auto simp: iob_eq_Ret ret_def dest: calls_less intro!: shrinks_intro)

lemma shrinks_kill_loop [shrinks_intro]: "shrinks (kill_loop p d self b)"
  by (rule shrinks_iterate [where m = "\<lambda>s w. length (w_answers w)", OF kill_loop.simps], erule kill_less)
     (unfold kill_turn_def, intro shrinks_intro)

lemma shrinks_kill_other [shrinks_intro]: "shrinks (kill_other_userspace_processes fd)"
  unfolding kill_other_userspace_processes_def getpid_def by (intro shrinks_intro)

lemma cleanup_turns_less:
  "cgroup_turn s d u w = (Ret (Inl u'), w') \<Longrightarrow> length (w_answers w') < length (w_answers w)"
  "guest_turn p d u w = (Ret (Inl u'), w') \<Longrightarrow> length (w_answers w') < length (w_answers w)"
  unfolding cgroup_turn_def guest_turn_def cleanup_failed_errno_def cleanup_failed_def
  by (auto simp: iob_eq_Ret ret_def split: if_split_asm dest!: before_deadline_less
      dest: shrinksD [OF shrinks_session_cgroup_populated] shrinksD [OF shrinks_reap] shrinksD [OF shrinks_kill_other])
     (fastforce dest: shrinksD [OF shrinks_session_cgroup_populated] shrinksD [OF shrinks_reap] shrinksD [OF shrinks_kill_other])+

function cgroup_loop :: "session \<Rightarrow> i64 \<Rightarrow> unit \<Rightarrow> bool io" where
  "cgroup_loop s d u w = iob (cgroup_turn s d u) (\<lambda>r w'. case r of Inl u' \<Rightarrow> cgroup_loop s d u' w' | Inr x \<Rightarrow> ret x w') w"
  by pat_completeness auto
termination
  by (relation "measure (\<lambda>(s, d, u, w). length (w_answers w))") (auto dest: cleanup_turns_less)

function guest_loop :: "int \<Rightarrow> i64 \<Rightarrow> unit \<Rightarrow> bool io" where
  "guest_loop p d u w = iob (guest_turn p d u) (\<lambda>r w'. case r of Inl u' \<Rightarrow> guest_loop p d u' w' | Inr x \<Rightarrow> ret x w') w"
  by pat_completeness auto
termination
  by (relation "measure (\<lambda>(p, d, u, w). length (w_answers w))") (auto dest: cleanup_turns_less)

declare cgroup_loop.simps [simp del] guest_loop.simps [simp del]

definition remove_run_cgroup :: "session \<Rightarrow> (bool \<times> session) io" where
  "remove_run_cgroup session =
     iob reap_exited_children (\<lambda>_.
     iob (sys_num ''rmdir'' [] [s_cgroup_path session]) (\<lambda>r.
     if (case r of Inl e \<Rightarrow> e \<noteq> ENOENT | Inr _ \<Rightarrow> False) then
       iob (cleanup_failed (lit ''remove cgroup errno='' @ dec (case r of Inl e \<Rightarrow> e | Inr _ \<Rightarrow> 0))) (\<lambda>_. ret (False, session))
     else ret (True, session\<lparr>s_cgroup_path := []\<rparr>)))"

definition clean_build_run_processes :: "int \<Rightarrow> session \<Rightarrow> (bool \<times> session) io" where
  "clean_build_run_processes proc_dir_fd session =
     (if s_cgroup_path session = [] then ret (False, session)
      else iob (write_cgroup_file session (lit ''cgroup.kill'') (lit ''1'' @ [10])) (\<lambda>ok.
        if \<not> ok then iob (cleanup_failed_errno (lit ''kill cgroup'')) (\<lambda>_. ret (False, session))
        else iob now_ms (\<lambda>now.
          let deadline = now + 5000 in
          iob (cgroup_loop session deadline ()) (\<lambda>ok.
          if \<not> ok then ret (False, session)
          else iob (if \<not> s_exited session then iob (wait_child_blocking (s_pid session)) (\<lambda>_. ret (session\<lparr>s_exited := True\<rparr>))
                    else ret session) (\<lambda>session.
            iob (guest_loop proc_dir_fd deadline ()) (\<lambda>ok.
            if \<not> ok then ret (False, session) else remove_run_cgroup session))))))"

section \<open>Mounts of a RUN step\<close>

definition BUILD_CACHE_ROOT :: bytes where "BUILD_CACHE_ROOT = lit ''/run/sporevm/build-cache''"

definition BUILD_CONTEXT_ROOT :: bytes where "BUILD_CONTEXT_ROOT = lit ''/mnt/build-context''"

text \<open>One entry of the mounts of either kind; \<open>ms_target_created\<close> is used by the context binds only.\<close>

record mount_state =
  ms_source_fd :: int
  ms_target_fd :: int
  ms_bound :: bool
  ms_target_created :: bool
  ms_target_cleanup_required :: bool
  ms_target_identity :: component
  ms_created_components :: "component list"
  ms_target :: bytes

text \<open>The list holds the first \<^verbatim>\<open>count\<close> entries.\<close>

record build_cache_mount_state =
  cs_cache_mounted :: bool
  cs_cache_root_fd :: int
  cs_mounts :: "mount_state list"

type_synonym build_context_bind_mount_state = "mount_state list"

definition new_mount :: "bytes \<Rightarrow> mount_state" where
  "new_mount target = \<lparr>ms_source_fd = - 1, ms_target_fd = - 1, ms_bound = False, ms_target_created = False,
     ms_target_cleanup_required = False, ms_target_identity = (0, 0), ms_created_components = [],
     ms_target = snprintf (COPY_PATH_LEN + 1) target\<rparr>"

definition no_cache_mounts :: build_cache_mount_state where
  "no_cache_mounts = \<lparr>cs_cache_mounted = False, cs_cache_root_fd = - 1, cs_mounts = []\<rparr>"

text \<open>The answer is whether the global flag is set from now on.\<close>

definition poison_build_run_mount_cleanup :: "string \<Rightarrow> bool io" where
  "poison_build_run_mount_cleanup phase =
     iob (dprintf 2 (lit ''build RUN mount cleanup could not be verified: '' @ lit phase @ [10])) (\<lambda>_. ret True)"

definition build_cache_fd_path :: "nat \<Rightarrow> int \<Rightarrow> bytes option" where
  "build_cache_fd_path cap fd = fitting cap (lit ''/proc/self/fd/'' @ dec_int fd)"

text \<open>Each step of a cleanup is tried whatever the others did; the answer is whether one failed.\<close>

fun any_failed :: "('a \<Rightarrow> bool io) \<Rightarrow> 'a list \<Rightarrow> bool io" where
  "any_failed f [] = ret False"
| "any_failed f (x # xs) = iob (f x) (\<lambda>a. iob (any_failed f xs) (\<lambda>b. ret (a \<or> b)))"

definition fails :: "int sysret io \<Rightarrow> bool io" where
  "fails m = iob m (\<lambda>r. ret (r \<noteq> Inr 0))"

definition unbind :: "mount_state \<Rightarrow> bool io" where
  "unbind m =
     (if ms_bound m then
        case build_cache_fd_path 64 (ms_target_fd m) of
          None \<Rightarrow> ret True
        | Some path \<Rightarrow> fails (sys_num ''umount2'' [0] [path])
      else ret False)"

definition close_failed :: "int \<Rightarrow> bool io" where
  "close_failed fd = (if fd \<ge> 0 then iob (sys_close fd) (\<lambda>ok. ret (\<not> ok)) else ret False)"

definition close_mount :: "mount_state \<Rightarrow> bool io" where
  "close_mount m = any_failed close_failed [ms_source_fd m, ms_target_fd m]"

definition cleanup_cache_target :: "build_ops \<Rightarrow> bytes \<Rightarrow> mount_state \<Rightarrow> bool io" where
  "cleanup_cache_target ops root m =
     (if ms_target_cleanup_required m then
        iob (bo_cache_target_cleanup ops root (ms_target m) (ms_target_identity m) (ms_created_components m)) (\<lambda>ok. ret (\<not> ok))
      else ret False)"

text \<open>Whether everything succeeded; the state is empty in any case.\<close>

definition cleanup_build_cache_mounts :: "build_ops \<Rightarrow> build_cache_mount_state \<Rightarrow> bytes \<Rightarrow> (bool \<times> build_cache_mount_state) io" where
  "cleanup_build_cache_mounts ops state root =
     iob (any_failed unbind (rev (cs_mounts state))) (\<lambda>a.
     iob (if cs_cache_root_fd state \<ge> 0 then fails (sys_num ''syncfs'' [cs_cache_root_fd state] []) else ret False) (\<lambda>b.
     iob (any_failed close_mount (cs_mounts state)) (\<lambda>c.
     iob (close_failed (cs_cache_root_fd state)) (\<lambda>d.
     iob (if cs_cache_mounted state then fails (sys_num ''umount2'' [0] [BUILD_CACHE_ROOT]) else ret False) (\<lambda>e.
     iob (any_failed (cleanup_cache_target ops root) (rev (cs_mounts state))) (\<lambda>f.
     ret (\<not> (a \<or> b \<or> c \<or> d \<or> e \<or> f), no_cache_mounts)))))))"

text \<open>One cache mount: the entry as far as it got, and whether it is in place.\<close>

definition setup_cache_mount :: "build_ops \<Rightarrow> bytes \<Rightarrow> int \<Rightarrow> cache_mount \<Rightarrow> (bool \<times> mount_state) io" where
  "setup_cache_mount ops root root_fd cm =
     (let m = new_mount (cm_target cm) in
      iob (sys_num ''mkdirat'' [root_fd, 0x1ed] [cm_key cm]) (\<lambda>r.
      if (case r of Inl e \<Rightarrow> e \<noteq> EEXIST | Inr _ \<Rightarrow> False) then ret (False, m)
      else iob (sys_num ''openat'' [root_fd, 0xB0000] [cm_key cm]) (\<lambda>r.
        case r of
          Inl e \<Rightarrow> ret (False, m)
        | Inr source_fd \<Rightarrow>
            iob (bo_cache_target_prepare ops root (ms_target m)) (\<lambda>(ok, target_fd, identity, created).
            let m = m\<lparr>ms_source_fd := source_fd, ms_target_fd := target_fd, ms_target_identity := identity, ms_created_components := created\<rparr> in
            if \<not> ok then ret (False, m\<lparr>ms_target_cleanup_required := created \<noteq> []\<rparr>)
            else
              let m = m\<lparr>ms_target_cleanup_required := True\<rparr> in
              case (build_cache_fd_path 64 source_fd, build_cache_fd_path 64 target_fd) of
                (Some source_path, Some target_path) \<Rightarrow>
                  iob (mount source_path target_path null_arg MS_BIND null_arg) (\<lambda>r.
                  if r \<noteq> Inr 0 then ret (False, m) else ret (True, m\<lparr>ms_bound := True\<rparr>))
              | _ \<Rightarrow> ret (False, m)))))"

fun setup_cache_loop :: "build_ops \<Rightarrow> bytes \<Rightarrow> int \<Rightarrow> cache_mount list \<Rightarrow> mount_state list \<Rightarrow> (bool \<times> mount_state list) io" where
  "setup_cache_loop ops root root_fd [] ms = ret (True, ms)"
| "setup_cache_loop ops root root_fd (cm # cms) ms =
     (if length ms \<ge> MAX_BUILD_CACHE_MOUNTS then undef
      else iob (setup_cache_mount ops root root_fd cm) (\<lambda>(ok, m).
        if \<not> ok then ret (False, ms @ [m]) else setup_cache_loop ops root root_fd cms (ms @ [m])))"

text \<open>
  The result of a setup: \<open>None\<close>, or the error text and whether a cleanup could not be verified, which is the
  return value -2 and sets the flag.
\<close>

type_synonym setup_result = "(bytes \<times> bool) option"

definition cache_setup_failed :: "build_ops \<Rightarrow> build_cache_mount_state \<Rightarrow> bytes \<Rightarrow> (setup_result \<times> build_cache_mount_state) io" where
  "cache_setup_failed ops state root =
     iob (cleanup_build_cache_mounts ops state root) (\<lambda>(ok, state).
     if \<not> ok then
       iob (poison_build_run_mount_cleanup ''cache setup'') (\<lambda>_.
       ret (Some (lit ''spore build: RUN cache mount cleanup failed'' @ [10], True), state))
     else ret (Some (lit ''spore build: cache mount setup failed'' @ [10], False), state))"

definition setup_build_cache_mounts :: "build_ops \<Rightarrow> run_request \<Rightarrow> bytes \<Rightarrow> bool \<Rightarrow> nat \<Rightarrow> (setup_result \<times> build_cache_mount_state) io" where
  "setup_build_cache_mounts ops request root has_context build_input_count =
     (if r_cache_mounts request = [] then ret (None, no_cache_mounts)
      else iob (sys_num ''mkdir'' [0x1ed] [lit ''/run/sporevm'']) (\<lambda>_.
        iob (sys_num ''mkdir'' [0x1ed] [BUILD_CACHE_ROOT]) (\<lambda>_.
        let letter = of_nat (98 + (if has_context then 1 else 0) + build_input_count) :: u8; device = lit ''/dev/vd'' @ [letter] in
        iob (wait_for_path device 100 50000) (\<lambda>ok.
        if \<not> ok then ret (Some (lit ''spore build: cache mount block device unavailable'' @ [10], False), no_cache_mounts)
        else iob (mount device BUILD_CACHE_ROOT (lit ''ext4'') 0 []) (\<lambda>r.
          if r \<noteq> Inr 0 then ret (Some (lit ''spore build: cache mount filesystem unavailable'' @ [10], False), no_cache_mounts)
          else
            let state = no_cache_mounts\<lparr>cs_cache_mounted := True\<rparr> in
            iob (sys_num ''open'' [0x90000] [BUILD_CACHE_ROOT]) (\<lambda>r.
            case r of
              Inl e \<Rightarrow> cache_setup_failed ops state root
            | Inr root_fd \<Rightarrow>
                iob (setup_cache_loop ops root root_fd (r_cache_mounts request) []) (\<lambda>(ok, ms).
                let state = state\<lparr>cs_cache_root_fd := root_fd, cs_mounts := ms\<rparr> in
                if ok then ret (None, state) else cache_setup_failed ops state root)))))))"

section \<open>Context binds\<close>

definition cleanup_bind_target :: "build_ops \<Rightarrow> bytes \<Rightarrow> mount_state \<Rightarrow> bool io" where
  "cleanup_bind_target ops root m =
     (if ms_target_cleanup_required m then
        iob (bo_bind_target_cleanup ops root (ms_target m) (ms_target_created m) (ms_target_identity m) (ms_created_components m))
          (\<lambda>ok. ret (\<not> ok))
      else ret False)"

definition cleanup_build_context_binds :: "build_ops \<Rightarrow> build_context_bind_mount_state \<Rightarrow> bytes \<Rightarrow> (bool \<times> build_context_bind_mount_state) io" where
  "cleanup_build_context_binds ops state root =
     iob (any_failed unbind (rev state)) (\<lambda>a.
     iob (any_failed close_mount state) (\<lambda>b.
     iob (any_failed (cleanup_bind_target ops root) (rev state)) (\<lambda>c.
     ret (\<not> (a \<or> b \<or> c), []))))"

text \<open>The second component is \<^verbatim>\<open>setup_cleanup_uncertain\<close> after a failure.\<close>

definition setup_context_bind :: "build_ops \<Rightarrow> bytes \<Rightarrow> context_bind \<Rightarrow> (bool \<times> bool \<times> mount_state) io" where
  "setup_context_bind ops root cb =
     (let m = new_mount (cb_target cb) in
      iob (bo_bind_source_open ops BUILD_CONTEXT_ROOT (cb_source cb)) (\<lambda>source_rc.
      if source_rc < 0 then ret (False, source_rc = - 2, m)
      else iob (bo_bind_target_prepare ops root (ms_target m)) (\<lambda>(prepare_rc, target_fd, target_created, identity, created).
        let m = m\<lparr>ms_source_fd := source_rc, ms_target_fd := target_fd, ms_target_created := target_created,
              ms_target_identity := identity, ms_created_components := created\<rparr> in
        if prepare_rc \<noteq> 0 then ret (False, prepare_rc = - 2, m)
        else
          let m = m\<lparr>ms_target_cleanup_required := True\<rparr> in
          case (build_cache_fd_path 64 source_rc, build_cache_fd_path 64 target_fd) of
            (Some source_path, Some target_path) \<Rightarrow>
              iob (mount source_path target_path null_arg MS_BIND null_arg) (\<lambda>r.
              if r \<noteq> Inr 0 then ret (False, False, m)
              else
                let m = m\<lparr>ms_bound := True\<rparr> in
                case fitting MAX_COPY_FULL_PATH_LEN (root @ ms_target m) of
                  None \<Rightarrow> ret (False, False, m)
                | Some path \<Rightarrow>
                    iob (mount null_arg path null_arg (MS_BIND OR MS_REMOUNT OR MS_RDONLY OR MS_NOSUID OR MS_NODEV) null_arg) (\<lambda>r. ret (r = Inr 0, False, m)))
          | _ \<Rightarrow> ret (False, False, m))))"

fun setup_bind_loop :: "build_ops \<Rightarrow> bytes \<Rightarrow> context_bind list \<Rightarrow> mount_state list \<Rightarrow> (bool \<times> bool \<times> mount_state list) io" where
  "setup_bind_loop ops root [] ms = ret (True, False, ms)"
| "setup_bind_loop ops root (cb # cbs) ms =
     (if length ms \<ge> MAX_BUILD_CONTEXT_BINDS then undef
      else iob (setup_context_bind ops root cb) (\<lambda>(ok, uncertain, m).
        if \<not> ok then ret (False, uncertain, ms @ [m]) else setup_bind_loop ops root cbs (ms @ [m])))"

definition setup_build_context_binds :: "build_ops \<Rightarrow> run_request \<Rightarrow> bytes \<Rightarrow> bool \<Rightarrow> bool \<Rightarrow> (setup_result \<times> build_context_bind_mount_state) io" where
  "setup_build_context_binds ops request root requested ready =
     (if r_context_binds request = [] then ret (None, [])
      else if \<not> requested \<or> \<not> ready then ret (Some (lit ''spore build: context bind source unavailable'' @ [10], False), [])
      else iob (setup_bind_loop ops root (r_context_binds request) []) (\<lambda>(ok, uncertain, ms).
        if ok then ret (None, ms)
        else iob (cleanup_build_context_binds ops ms root) (\<lambda>(cleaned, state).
          if \<not> cleaned then
            iob (poison_build_run_mount_cleanup ''context bind setup'') (\<lambda>_.
            ret (Some (lit ''spore build: RUN mount cleanup failed'' @ [10], True), state))
          else if uncertain then
            iob (poison_build_run_mount_cleanup ''context bind setup ownership'') (\<lambda>_.
            ret (Some (lit ''spore build: RUN mount cleanup failed'' @ [10], True), state))
          else ret (Some (lit ''spore build: context bind mount setup failed'' @ [10], False), state))))"

definition cleanup_build_run_mounts ::
  "build_ops \<Rightarrow> build_context_bind_mount_state \<Rightarrow> build_cache_mount_state \<Rightarrow> bytes \<Rightarrow>
   (bool \<times> build_context_bind_mount_state \<times> build_cache_mount_state) io" where
  "cleanup_build_run_mounts ops binds cache root =
     iob (cleanup_build_context_binds ops binds root) (\<lambda>(a, binds).
     iob (cleanup_build_cache_mounts ops cache root) (\<lambda>(b, cache). ret (a \<and> b, binds, cache)))"

section \<open>The exec operation\<close>

datatype exec_op_kind = EXEC_OP_NONE | EXEC_OP_TRANSIENT | EXEC_OP_BUILD_RUN

record exec_op =
  op_kind :: exec_op_kind
  op_session :: session
  op_descendants_cleaned :: bool
  op_cache_state :: build_cache_mount_state
  op_bind_state :: build_context_bind_mount_state
  op_root :: bytes

text \<open>The flag of a failed mount cleanup is threaded through: the last component of each result is its new value.\<close>

definition start_build_exec ::
  "machine \<Rightarrow> nat \<Rightarrow> build_ops \<Rightarrow> exec_op \<Rightarrow> client \<Rightarrow> run_request \<Rightarrow> bytes \<Rightarrow> bool \<Rightarrow> bytes \<Rightarrow> bool \<Rightarrow> (exec_op \<times> client \<times> bool) io" where
  "start_build_exec mach cap_last ops op client request command use_rootfs root poisoned =
     (let argv = (if r_build_exec_form request then r_argv request else [lit ''/bin/sh'', lit ''-c'', command]);
          options = \<lparr>o_use_rootfs = use_rootfs, o_memory_pressure = False, o_build_run_isolation = True,
            o_exec_lookup = (if r_build_exec_form request then EXEC_LOOKUP_PATH else EXEC_LOOKUP_EXACT),
            o_nofile_soft = r_nofile_soft request, o_nofile_hard = r_nofile_hard request, o_stdin_enabled = False, o_tty = False,
            o_terminal_rows = r_terminal_rows request, o_terminal_cols = r_terminal_cols request\<rparr>
      in iob (start_session mach cap_last (r_session_id request) argv (r_envp request) (r_working_dir request) options) (\<lambda>(rc, transient).
        let op = op\<lparr>op_session := transient\<rparr> in
        if rc \<noteq> 0 then
          iob (cleanup_build_run_mounts ops (op_bind_state op) (op_cache_state op) root) (\<lambda>(ok, binds, cache).
          let op = op\<lparr>op_bind_state := binds, op_cache_state := cache\<rparr> in
          iob (if \<not> ok then
                 iob (poison_build_run_mount_cleanup ''RUN setup'') (\<lambda>poisoned.
                 iob (send_client_error_exit client 125 (lit ''spore build: RUN mount cleanup failed'' @ [10])) (\<lambda>(_, client). ret (client, poisoned)))
               else
                 iob (send_client_error_exit client rc (if s_setup_error transient \<noteq> [] then s_setup_error transient
                   else lit ''spore build: RUN exec setup failed'' @ [10])) (\<lambda>(_, client). ret (client, poisoned))) (\<lambda>(client, poisoned).
          iob (close_client client) (\<lambda>client. ret (op, client, poisoned))))
        else ret (op\<lparr>op_kind := EXEC_OP_BUILD_RUN, op_descendants_cleaned := False, op_root := root\<rparr>, client, poisoned)))"

definition step_build_exec :: "build_ops \<Rightarrow> int \<Rightarrow> exec_op \<Rightarrow> client \<Rightarrow> bool \<Rightarrow> (exec_op \<times> client \<times> bool) io" where
  "step_build_exec ops proc_dir_fd op client poisoned =
     iob (poll_session_exit (op_session op) client) (\<lambda>(transient, client).
     let op = op\<lparr>op_session := transient\<rparr>;
         answer = (\<lambda>op client poisoned.
           if op_descendants_cleaned op then iob (maybe_send_session_exit (op_session op) client) (\<lambda>client. ret (op, client, poisoned))
           else ret (op, client, poisoned))
     in
     if s_exited transient \<and> \<not> op_descendants_cleaned op then
       iob (clean_build_run_processes proc_dir_fd transient) (\<lambda>(ok, transient).
       if \<not> ok then
         iob (send_client_error_exit client 125 (lit ''spore build: RUN descendant cleanup failed'' @ [10])) (\<lambda>(_, client).
         iob (close_client client) (\<lambda>client. fail_closed_build_run_cleanup (lit ''command exit'')))
       else
         let op = op\<lparr>op_session := transient, op_descendants_cleaned := True\<rparr> in
         iob (cleanup_build_run_mounts ops (op_bind_state op) (op_cache_state op) (op_root op)) (\<lambda>(ok, binds, cache).
         let op = op\<lparr>op_bind_state := binds, op_cache_state := cache\<rparr> in
         if \<not> ok then
           iob (poison_build_run_mount_cleanup ''command exit'') (\<lambda>poisoned.
           iob (send_client_error_exit client 125 (lit ''spore build: RUN mount cleanup failed'' @ [10])) (\<lambda>(_, client).
           iob (close_client client) (\<lambda>client. ret (op, client, poisoned))))
         else answer op client poisoned))
     else answer op client poisoned)"

definition finish_build_exec :: "build_ops \<Rightarrow> int \<Rightarrow> exec_op \<Rightarrow> client \<Rightarrow> bool \<Rightarrow> (exec_op \<times> client \<times> bool) io" where
  "finish_build_exec ops proc_dir_fd op client poisoned =
     iob (if c_fd client < 0 \<and> s_started (op_session op) \<and> \<not> op_descendants_cleaned op then
            iob (clean_build_run_processes proc_dir_fd (op_session op)) (\<lambda>(ok, transient).
            if \<not> ok then fail_closed_build_run_cleanup (lit ''control loss'') else ret (op\<lparr>op_session := transient\<rparr>))
          else ret op) (\<lambda>op.
     iob (if cs_mounts (op_cache_state op) \<noteq> [] \<or> cs_cache_mounted (op_cache_state op) \<or> op_bind_state op \<noteq> [] then
            iob (cleanup_build_run_mounts ops (op_bind_state op) (op_cache_state op) (op_root op)) (\<lambda>(ok, binds, cache).
            iob (if \<not> ok then poison_build_run_mount_cleanup ''control loss'' else ret poisoned) (\<lambda>poisoned.
            ret (op\<lparr>op_bind_state := binds, op_cache_state := cache\<rparr>, poisoned)))
          else ret (op, poisoned)) (\<lambda>(op, poisoned).
     iob (reset_session (op_session op)) (\<lambda>transient.
     iob (close_client client) (\<lambda>client. ret (op\<lparr>op_session := transient\<rparr>, client, poisoned)))))"

section \<open>A command beside the session\<close>

definition start_transient_exec ::
  "machine \<Rightarrow> nat \<Rightarrow> exec_op \<Rightarrow> client \<Rightarrow> run_request \<Rightarrow> bool \<Rightarrow> (exec_op \<times> client) io" where
  "start_transient_exec mach cap_last op client request use_rootfs =
     (if r_tty request \<or> r_memory_pressure request then
        iob (send_client_error_exit client 2 (lit ''spore run: session already started'' @ [10])) (\<lambda>(_, client).
        iob (close_client client) (\<lambda>client. ret (op, client)))
      else
        let options = \<lparr>o_use_rootfs = use_rootfs, o_memory_pressure = False, o_build_run_isolation = False,
            o_exec_lookup = EXEC_LOOKUP_PATH, o_nofile_soft = 0, o_nofile_hard = 0,
            o_stdin_enabled = r_stdin_enabled request, o_tty = False,
            o_terminal_rows = r_terminal_rows request, o_terminal_cols = r_terminal_cols request\<rparr> in
        iob (start_session mach cap_last (r_session_id request) (r_argv request) (r_envp request) (r_working_dir request) options) (\<lambda>(rc, transient).
        let op = op\<lparr>op_session := transient\<rparr> in
        if rc \<noteq> 0 then
          iob (send_client_error_exit client rc (lit ''spore run: exec setup failed'' @ [10])) (\<lambda>(_, client).
          iob (close_client client) (\<lambda>client. ret (op, client)))
        else ret (op\<lparr>op_kind := EXEC_OP_TRANSIENT\<rparr>, client)))"

definition finish_transient_exec :: "exec_op \<Rightarrow> client \<Rightarrow> (exec_op \<times> client) io" where
  "finish_transient_exec op client =
     iob (if c_fd client < 0 \<and> s_started (op_session op) \<and> \<not> s_exited (op_session op) then
            iob (kill_process (s_pid (op_session op))) (\<lambda>_. wait_child_blocking (s_pid (op_session op)))
          else ret ()) (\<lambda>_.
     iob (reset_session (op_session op)) (\<lambda>transient.
     iob (close_client client) (\<lambda>client. ret (op\<lparr>op_session := transient\<rparr>, client))))"

section \<open>Safety\<close>

text \<open>What the definitions rely on of build copy: none of its functions does something undefined.\<close>

definition ops_safe :: "build_ops \<Rightarrow> bool" where
  "ops_safe ops \<longleftrightarrow>
     (\<forall>root path. safe (bo_ensure_directory ops root path) (\<lambda>_. True)) \<and>
     (\<forall>root path. safe (bo_cache_target_prepare ops root path) (\<lambda>_. True)) \<and>
     (\<forall>root path i cs. safe (bo_cache_target_cleanup ops root path i cs) (\<lambda>_. True)) \<and>
     (\<forall>root path. safe (bo_bind_source_open ops root path) (\<lambda>_. True)) \<and>
     (\<forall>root path. safe (bo_bind_target_prepare ops root path) (\<lambda>_. True)) \<and>
     (\<forall>root path b i cs. safe (bo_bind_target_cleanup ops root path b i cs) (\<lambda>_. True)) \<and>
     (\<forall>root source request. safe (bo_copy_apply ops root source request) (\<lambda>_. True))"

lemma safe_ops:
  assumes "ops_safe ops" "\<And>x. Q1 x" "\<And>x. Q2 x" "\<And>x. Q3 x" "\<And>x. Q4 x" "\<And>x. Q5 x" "\<And>x. Q6 x"
  shows "safe (bo_ensure_directory ops root path) Q1" "safe (bo_cache_target_prepare ops root path) Q2"
    "safe (bo_cache_target_cleanup ops root path i cs) Q3" "safe (bo_bind_source_open ops root path) Q4"
    "safe (bo_bind_target_prepare ops root path) Q5" "safe (bo_bind_target_cleanup ops root path b i cs) Q3"
    "safe (bo_copy_apply ops root path request) Q6"
  using assms unfolding ops_safe_def by (meson safe_mono)+

lemma command_room:
  fixes n :: u64 and k :: u32
  assumes "n \<le> MAX_BUILD_RUN_COMMAND_LEN" "l \<le> unat n" "unat k \<le> MAX_FRAME_PAYLOAD" "\<not> of_nat l + ucast k > n"
  shows "l + unat k \<le> unat n"
proof -
  have n: "unat n \<le> 65536" using assms(1) by (simp add: MAX_BUILD_RUN_COMMAND_LEN_def word_le_nat_alt)
  have k: "unat (ucast k :: u64) = unat k"
    by (simp add: unsigned_ucast_eq take_bit_nat_eq_self order.strict_trans [OF unsigned_less])
  have "unat (of_nat l + ucast k :: u64) = l + unat k"
    using n assms(2,3) by (simp add: unat_word_ariths k unat_of_nat MAX_FRAME_PAYLOAD_def)
  with assms(4) show ?thesis by (simp add: word_less_nat_alt)
qed

lemma safe_command_turn:
  assumes "unat n < cap" "n \<le> MAX_BUILD_RUN_COMMAND_LEN" "length (fst s) \<le> unat n"
  shows "safe (command_turn fd n cap s) (case_sum (\<lambda>s. length (fst s) \<le> unat n) (\<lambda>_. True))"
proof -
  obtain received expected where s: "s = (received, expected)" by (cases s)
  show ?thesis
    unfolding command_turn_def s Let_def prod.case
    by (intro safe_step)
       (use assms(1,3) s in \<open>auto intro!: safe_step simp: not_less dest: command_room [OF assms(2,3), unfolded not_less]\<close>)
qed

lemma safe_read_build_command_from_spio [safe_step]:
  assumes "\<And>r. Q r"
  shows "safe (read_build_command_from_spio fd n cap) Q"
proof -
  have "safe (command_loop fd n cap ([], 0)) (\<lambda>_. True)" if "unat n < cap" "n \<le> MAX_BUILD_RUN_COMMAND_LEN"
    by (rule safe_iterate [where I = "\<lambda>s. length (fst s) \<le> unat n" and m = "\<lambda>s w. length (w_answers w)", OF command_loop.simps command_less])
       (use that in \<open>auto intro: safe_command_turn\<close>)
  moreover have "safe (command_close fd s) (\<lambda>_. True)" for s
    unfolding command_close_def Let_def case_prod_unfold by (intro safe_step) (auto intro!: safe_step)
  ultimately have "safe (read_build_command_from_spio fd n cap) (\<lambda>_. True)"
    unfolding read_build_command_from_spio_def by (intro safe_step safe_any) (auto intro!: safe_step)
  then show ?thesis by (rule safe_mono) (rule assms)
qed

lemma safe_build_workdir_apply:
  "ops_safe ops \<Longrightarrow> client_wf c \<Longrightarrow> (\<And>ok c'. client_wf c' \<Longrightarrow> Q (ok, c')) \<Longrightarrow> safe (build_workdir_apply ops c root path) Q"
  unfolding build_workdir_apply_def
  by (intro safe_step safe_ops; (assumption | auto simp: client_wf_def intro!: safe_step))

lemma safe_kill_other [safe_step]:
  assumes "\<And>r. Q r"
  shows "safe (kill_other_userspace_processes fd) Q"
proof -
  have p: "safe (process_is_kernel_thread fd name) (\<lambda>_. True)" for name
    unfolding process_is_kernel_thread_def by (intro safe_step) auto
  have "safe (kill_turn fd d self b) (\<lambda>_. True)" for d self b
    unfolding kill_turn_def by (intro safe_step safe_any [OF p]) (auto intro!: safe_step)
  then have "safe (kill_loop fd d self b) (\<lambda>_. True)" for d self b
    by (intro safe_iterate [where I = "\<lambda>_. True" and m = "\<lambda>s w. length (w_answers w)", OF kill_loop.simps kill_less])
       (auto intro: safe_mono split: sum.split)
  then have "safe (kill_other_userspace_processes fd) (\<lambda>_. True)"
    unfolding kill_other_userspace_processes_def by (intro safe_step safe_any) (auto intro!: safe_step)
  then show ?thesis by (rule safe_mono) (rule assms)
qed

lemma safe_cleanup_loops [safe_step]:
  assumes "\<And>r. Q r"
  shows "safe (cgroup_loop s d u) Q" "safe (guest_loop fd d u) Q"
proof -
  have "safe (cgroup_turn s d u) (\<lambda>_. True)" "safe (guest_turn fd d u) (\<lambda>_. True)" for u
    unfolding cgroup_turn_def guest_turn_def before_deadline_def cleanup_failed_errno_def cleanup_failed_def
    by (intro safe_step; simp)+
  then have t: "safe (cgroup_turn s d u) (case_sum (\<lambda>_. True) Q)" "safe (guest_turn fd d u) (case_sum (\<lambda>_. True) Q)" for u
    by (auto intro!: safe_mono [of _ "\<lambda>_. True"] assms split: sum.split)
  show "safe (cgroup_loop s d u) Q"
    by (rule safe_iterate [where I = "\<lambda>_. True" and m = "\<lambda>s w. length (w_answers w)", OF cgroup_loop.simps cleanup_turns_less(1) t(1) TrueI])
  show "safe (guest_loop fd d u) Q"
    by (rule safe_iterate [where I = "\<lambda>_. True" and m = "\<lambda>s w. length (w_answers w)", OF guest_loop.simps cleanup_turns_less(2) t(2) TrueI])
qed

text \<open>The streams of the session are left alone.\<close>

lemma safe_clean_build_run_processes [safe_step]:
  assumes "session_wf s" "\<And>ok s'. session_wf s' \<Longrightarrow> (s_exited s \<Longrightarrow> session_quiet s' = session_quiet s) \<Longrightarrow> Q (ok, s')"
  shows "safe (clean_build_run_processes fd s) Q"
proof -
  have wf: "session_wf (t\<lparr>s_cgroup_path := []\<rparr>)" if "session_wf t" for t
    using that by (simp add: session_wf_def)
  show ?thesis
    unfolding clean_build_run_processes_def remove_run_cgroup_def cleanup_failed_errno_def cleanup_failed_def Let_def
    by (intro safe_step assms(2) wf; (simp add: assms(1) session_quiet_def; fail)?)
qed

lemma safe_any_failed: "(\<And>x. safe (f x) (\<lambda>_. True)) \<Longrightarrow> safe (any_failed f xs) (\<lambda>_. True)"
proof (induction xs)
  case (Cons x xs)
  from Cons.IH [OF Cons.prems] show ?case
    unfolding any_failed.simps by (intro safe_any [OF Cons.prems] safe_any [of "any_failed f xs"] safe_step TrueI)
qed (simp add: safe_step)

lemma safe_mount_steps:
  assumes "ops_safe ops"
  shows "safe (unbind m) (\<lambda>_. True)" "safe (close_mount m) (\<lambda>_. True)" "safe (close_failed fd) (\<lambda>_. True)"
    "safe (cleanup_cache_target ops root m) (\<lambda>_. True)" "safe (cleanup_bind_target ops root m) (\<lambda>_. True)"
  unfolding unbind_def close_mount_def close_failed_def cleanup_cache_target_def cleanup_bind_target_def fails_def
  by (intro safe_step safe_any_failed safe_ops [OF assms]; auto intro!: safe_step safe_ops [OF assms])+

lemma safe_cleanup_build_cache_mounts:
  "ops_safe ops \<Longrightarrow> (\<And>r. Q r) \<Longrightarrow> safe (cleanup_build_cache_mounts ops state root) Q"
  unfolding cleanup_build_cache_mounts_def fails_def
  by (intro safe_any safe_any_failed safe_mount_steps safe_step) auto

lemma safe_cleanup_build_context_binds:
  "ops_safe ops \<Longrightarrow> (\<And>r. Q r) \<Longrightarrow> safe (cleanup_build_context_binds ops state root) Q"
  unfolding cleanup_build_context_binds_def
  by (intro safe_any safe_any_failed safe_mount_steps safe_step) auto

lemma safe_cleanup_build_run_mounts:
  "ops_safe ops \<Longrightarrow> (\<And>r. Q r) \<Longrightarrow> safe (cleanup_build_run_mounts ops binds cache root) Q"
  unfolding cleanup_build_run_mounts_def
  by (intro safe_step safe_cleanup_build_context_binds safe_cleanup_build_cache_mounts)

lemma safe_poison [safe_step]: "Q True \<Longrightarrow> safe (poison_build_run_mount_cleanup phase) Q"
  unfolding poison_build_run_mount_cleanup_def by (intro safe_step)

lemma safe_setup_cache_loop:
  assumes "ops_safe ops" "length ms + length cms \<le> MAX_BUILD_CACHE_MOUNTS"
  shows "safe (setup_cache_loop ops root fd cms ms) (\<lambda>_. True)"
proof -
  have m: "safe (setup_cache_mount ops root fd cm) (\<lambda>_. True)" for cm
    unfolding setup_cache_mount_def Let_def mount_def
    by (intro safe_step safe_ops [OF assms(1)]) (auto split: option.split intro!: safe_step)
  show ?thesis
    using assms(2)
    by (induction cms arbitrary: ms) (auto intro!: safe_step safe_mono [OF m])
qed

lemma safe_setup_build_cache_mounts:
  assumes "ops_safe ops" "length (r_cache_mounts request) \<le> MAX_BUILD_CACHE_MOUNTS" "\<And>r. Q r"
  shows "safe (setup_build_cache_mounts ops request root ctx n) Q"
proof -
  have f: "safe (cache_setup_failed ops state root) Q" for state
    unfolding cache_setup_failed_def
    by (intro safe_step safe_cleanup_build_cache_mounts assms)
  show ?thesis
    unfolding setup_build_cache_mounts_def mount_def Let_def
    by (intro safe_any [OF safe_setup_cache_loop] safe_step f assms) (use assms(2) in auto)
qed

lemma safe_setup_bind_loop:
  assumes "ops_safe ops" "length ms + length cbs \<le> MAX_BUILD_CONTEXT_BINDS"
  shows "safe (setup_bind_loop ops root cbs ms) (\<lambda>_. True)"
proof -
  have m: "safe (setup_context_bind ops root cb) (\<lambda>_. True)" for cb
    unfolding setup_context_bind_def Let_def mount_def
    by (intro safe_step safe_ops [OF assms(1)]) (auto split: option.split intro!: safe_step)
  show ?thesis
    using assms(2)
    by (induction cbs arbitrary: ms) (auto intro!: safe_step safe_mono [OF m])
qed

lemma safe_setup_build_context_binds:
  assumes "ops_safe ops" "length (r_context_binds request) \<le> MAX_BUILD_CONTEXT_BINDS" "\<And>r. Q r"
  shows "safe (setup_build_context_binds ops request root a b) Q"
  unfolding setup_build_context_binds_def Let_def
  by (intro safe_any [OF safe_setup_bind_loop] safe_cleanup_build_context_binds safe_step assms) (use assms in auto)

text \<open>The session of an exec operation is well formed and quiet between two calls.\<close>

definition op_wf :: "exec_op \<Rightarrow> bool" where
  "op_wf op \<longleftrightarrow> session_wf (op_session op) \<and> session_quiet (op_session op)"

lemma op_wf_simps [simp]:
  "op_wf (op\<lparr>op_session := s\<rparr>) \<longleftrightarrow> session_wf s \<and> session_quiet s" "op_wf (op\<lparr>op_kind := k\<rparr>) = op_wf op"
  "op_wf (op\<lparr>op_descendants_cleaned := b\<rparr>) = op_wf op" "op_wf (op\<lparr>op_bind_state := bs\<rparr>) = op_wf op"
  "op_wf (op\<lparr>op_cache_state := cs\<rparr>) = op_wf op" "op_wf (op\<lparr>op_root := r\<rparr>) = op_wf op"
  by (simp_all add: op_wf_def)

lemma safe_answer_client:
  assumes "client_wf c" "\<And>c'. client_wf c' \<Longrightarrow> Q c'"
  shows "safe (iob (send_client_error_exit c code msg) (\<lambda>(_, c). close_client c)) Q"
  by (intro safe_step) (auto intro!: safe_step assms)

lemma safe_start_build_exec:
  assumes "ops_safe ops" "client_wf c" "r_build_exec_form request \<longrightarrow> r_argv request \<noteq> []"
    "\<And>op' c' p. op_wf op' \<Longrightarrow> client_wf c' \<Longrightarrow> Q (op', c', p)"
  shows "safe (start_build_exec mach cap ops op c request command use_rootfs root poisoned) Q"
proof -
  have argv: "(if r_build_exec_form request then r_argv request else [lit ''/bin/sh'', lit ''-c'', command]) \<noteq> []"
    using assms(3) by simp
  show ?thesis
    unfolding start_build_exec_def Let_def
    by (rule safe_iob, rule safe_start_session [OF argv])
       (auto intro!: safe_step safe_cleanup_build_run_mounts assms)
qed

lemma safe_step_build_exec:
  assumes "ops_safe ops" "op_wf op" "client_wf c" "\<And>op' c' p. op_wf op' \<Longrightarrow> client_wf c' \<Longrightarrow> op_kind op' = op_kind op \<Longrightarrow> Q (op', c', p)"
  shows "safe (step_build_exec ops fd op c poisoned) Q"
proof -
  have wf: "session_wf (op_session op)" "session_quiet (op_session op)"
    using assms(2) by (simp_all add: op_wf_def)
  show ?thesis
    unfolding step_build_exec_def Let_def
    by (rule safe_iob, rule safe_poll_session_exit [OF wf assms(3)])
       (auto intro!: safe_step safe_cleanup_build_run_mounts assms)
qed

lemma c_fd_fresh_client: "c_fd (fresh_client fd) = fd"
  by (simp add: fresh_client_def)

lemma safe_finish_build_exec:
  assumes "ops_safe ops" "op_wf op" "\<And>op' c' p. op_wf op' \<Longrightarrow> client_wf c' \<Longrightarrow> c_fd c' < 0 \<Longrightarrow> Q (op', c', p)"
  shows "safe (finish_build_exec ops fd op c poisoned) Q"
proof -
  have "safe (if c_fd c < 0 \<and> s_started (op_session op) \<and> \<not> op_descendants_cleaned op then
            iob (clean_build_run_processes fd (op_session op)) (\<lambda>(ok, transient).
            if \<not> ok then fail_closed_build_run_cleanup (lit ''control loss'') else ret (op\<lparr>op_session := transient\<rparr>))
          else ret op) (\<lambda>op'. session_wf (op_session op'))"
    using assms(2) by (auto simp: op_wf_def intro!: safe_step)
  then show ?thesis
    unfolding finish_build_exec_def
    by (intro safe_iob) (erule safe_mono, auto simp: c_fd_fresh_client intro!: safe_step safe_cleanup_build_run_mounts assms closed_session_ok)
qed

lemma safe_finish_transient_exec:
  assumes "op_wf op" "\<And>op' c'. op_wf op' \<Longrightarrow> client_wf c' \<Longrightarrow> c_fd c' < 0 \<Longrightarrow> Q (op', c')"
  shows "safe (finish_transient_exec op c) Q"
  using assms(1) unfolding finish_transient_exec_def op_wf_def
  by (auto simp: c_fd_fresh_client intro!: safe_step assms(2) closed_session_ok)

lemma safe_start_transient_exec:
  assumes "op_wf op" "client_wf c" "r_argv request \<noteq> []" "\<And>op' c'. op_wf op' \<Longrightarrow> client_wf c' \<Longrightarrow> Q (op', c')"
  shows "safe (start_transient_exec mach cap op c request use_rootfs) Q"
  using assms(1-3) unfolding start_transient_exec_def Let_def
  by (auto intro!: safe_step assms(4))

end
