(* ===== verification/Boot.thy ===== *)
theory Boot
  imports Build_Run
begin

text \<open>
  \<^verbatim>\<open>boot.c\<close>: the pseudo file systems, the flags of the kernel command line, and the disks with the build
  context and the build inputs.
\<close>

section \<open>Pseudo file systems\<close>

definition mkdir :: "string \<Rightarrow> int \<Rightarrow> unit io" where
  "mkdir path mode = iob (sys_num ''mkdir'' [mode] [lit path]) (\<lambda>_. ret ())"

text \<open>A failed mount is only reported, unless the target is busy.\<close>

definition mount_or_warn :: "string \<Rightarrow> bytes \<Rightarrow> string \<Rightarrow> int \<Rightarrow> string \<Rightarrow> bytes \<Rightarrow> unit io" where
  "mount_or_warn source target type flags opts msg =
     iob (mount (lit source) target (lit type) flags (lit opts)) (\<lambda>r.
     case r of
       Inl e \<Rightarrow> if e \<noteq> EBUSY then dprintf 2 (msg @ dec e @ [10]) else ret ()
     | Inr _ \<Rightarrow> ret ())"

definition mount_proc :: "unit io" where
  "mount_proc =
     iob (mkdir ''/proc'' 0x1ed) (\<lambda>_.
     mount_or_warn ''proc'' (lit ''/proc'') ''proc'' 0 [] (lit ''mount proc failed: errno=''))"

definition mount_sysfs :: "unit io" where
  "mount_sysfs =
     iob (mkdir ''/sys'' 0x1ed) (\<lambda>_.
     mount_or_warn ''sysfs'' (lit ''/sys'') ''sysfs'' (MS_RDONLY OR MS_NOSUID OR MS_NOEXEC OR MS_NODEV) [] (lit ''mount sysfs failed: errno=''))"

definition mount_cgroup2_if_dir :: "bytes \<Rightarrow> unit io" where
  "mount_cgroup2_if_dir target =
     iob (path_is_dir target) (\<lambda>dir.
     if \<not> dir then ret ()
     else mount_or_warn ''none'' target ''cgroup2'' (MS_NOSUID OR MS_NOEXEC OR MS_NODEV) []
       (lit ''mount cgroup2 failed: target='' @ target @ lit '' errno=''))"

definition prepare_dev :: "unit io" where
  "prepare_dev =
     iob (mkdir ''/dev'' 0x1ed) (\<lambda>_.
     iob (mount_or_warn ''devtmpfs'' (lit ''/dev'') ''devtmpfs'' 0 [] (lit ''mount devtmpfs failed: errno='')) (\<lambda>_.
     iob (mkdir ''/dev/pts'' 0x1ed) (\<lambda>_.
     iob (mount_or_warn ''devpts'' (lit ''/dev/pts'') ''devpts'' 0 ''mode=0620,ptmxmode=0666'' (lit ''mount devpts failed: errno='')) (\<lambda>_.
     iob (sys_num ''mknod'' [0x21b6, 0x103] [lit ''/dev/null'']) (\<lambda>r.
     case r of
       Inl e \<Rightarrow> if e \<noteq> EEXIST then dprintf 2 (lit ''mknod /dev/null failed: errno='' @ dec e @ [10]) else ret ()
     | Inr _ \<Rightarrow> ret ())))))"

section \<open>The kernel command line\<close>

text \<open>The string that is left in the buffer: up to the first NUL.\<close>

definition read_cmdline :: "nat \<Rightarrow> bytes io" where
  "read_cmdline cap =
     (if cap = 0 then ret []
      else iob (sys_num ''open'' [0] [lit ''/proc/cmdline'']) (\<lambda>r.
        case r of
          Inl e \<Rightarrow> ret []
        | Inr fd \<Rightarrow>
            iob (sys_read fd (cap - 1)) (\<lambda>n.
            iob (sys_close fd) (\<lambda>_.
            ret (case n of Inl e \<Rightarrow> [] | Inr buf \<Rightarrow> takeWhile (\<lambda>c. c \<noteq> 0) buf)))))"

fun strstr :: "bytes \<Rightarrow> bytes \<Rightarrow> bytes option" where
  "strstr [] key = (if key = [] then Some [] else None)"
| "strstr (c # s) key = (if take (length key) (c # s) = key then Some (c # s) else strstr s key)"

definition resolve_port_from_cmdline :: "bytes \<Rightarrow> u32" where
  "resolve_port_from_cmdline buf =
     (if buf = [] then 10700
      else let key = lit ''cleanroom_guest_port='' in
        case strstr buf key of
          None \<Rightarrow> 10700
        | Some p \<Rightarrow>
            let v = fst (strtoull (drop (length key) p)) in
            if v = 0 \<or> v > 65535 then 10700 else ucast v)"

definition cmdline_has_flag_in :: "bytes \<Rightarrow> string \<Rightarrow> bool" where
  "cmdline_has_flag_in buf flag \<longleftrightarrow> strstr buf (lit flag) \<noteq> None"

text \<open>\<open>None\<close> is -1.\<close>

definition resolve_build_input_count :: "bytes \<Rightarrow> nat option" where
  "resolve_build_input_count buf =
     (let key = lit ''spore_build_inputs='' in
      case strstr buf key of
        None \<Rightarrow> Some 0
      | Some p \<Rightarrow>
          let (v, n) = strtoull (drop (length key) p) in
          if n = 0 \<or> v > MAX_BUILD_INPUT_DISKS then None else Some (unat v))"

section \<open>Build disks\<close>

definition setup_build_context :: "nat \<Rightarrow> unit res io" where
  "setup_build_context cap =
     iob (mkdir ''/mnt'' 0x1ed) (\<lambda>_.
     iob (mkdir ''/mnt/build-context'' 0x1ed) (\<lambda>_.
     iob (wait_for_path (lit ''/dev/vdb'') 100 50000) (\<lambda>ok.
     if \<not> ok then ret (Inl (snprintf cap (lit ''build context block device not found: path=/dev/vdb'')))
     else must (\<lambda>e. snprintf cap (lit ''build context mount failed: path=/dev/vdb target='' @ BUILD_CONTEXT_ROOT @ lit '' errno='' @ dec e))
       (mount (lit ''/dev/vdb'') BUILD_CONTEXT_ROOT (lit ''ext4'') MS_RDONLY (lit ''noload'')))))"

definition BUILD_INPUT_ROOT :: bytes where "BUILD_INPUT_ROOT = lit ''/mnt/build-inputs''"

definition setup_build_input :: "bool \<Rightarrow> nat \<Rightarrow> nat \<Rightarrow> unit res io" where
  "setup_build_input has_context cap i =
     (let letter = of_nat (98 + (if has_context then 1 else 0) + i) :: u8;
          device = lit ''/dev/vd'' @ [letter]; target = BUILD_INPUT_ROOT @ lit ''/'' @ dec i
      in if length device \<ge> 32 \<or> length target \<ge> 64 then ret (Inl [])
         else iob (sys_num ''mkdir'' [0x1ed] [target]) (\<lambda>_.
           iob (wait_for_path device 100 50000) (\<lambda>ok.
           if \<not> ok then ret (Inl (snprintf cap (lit ''build input block device not found: index='' @ dec i @ lit '' path='' @ device)))
           else must (\<lambda>e. snprintf cap (lit ''build input mount failed: index='' @ dec i @ lit '' path='' @ device @
                   lit '' target='' @ target @ lit '' errno='' @ dec e))
             (mount device target (lit ''ext4'') MS_RDONLY (lit ''noload'')))))"

definition setup_build_inputs :: "nat \<Rightarrow> bool \<Rightarrow> nat \<Rightarrow> unit res io" where
  "setup_build_inputs count has_context cap =
     iob (mkdir ''/mnt'' 0x1ed) (\<lambda>_.
     iob (sys_num ''mkdir'' [0x1ed] [BUILD_INPUT_ROOT]) (\<lambda>_.
     each (setup_build_input has_context cap) [0..<count]))"

section \<open>Safety and bounds\<close>

lemma safe_boot_steps [safe_step]:
  "Q () \<Longrightarrow> safe (mkdir path mode) Q" "Q () \<Longrightarrow> safe (mount_or_warn source target type flags opts msg) Q"
  unfolding mkdir_def mount_or_warn_def mount_def by (intro safe_step; simp)+

lemma safe_boot [safe_step]:
  "Q () \<Longrightarrow> safe mount_proc Q" "Q () \<Longrightarrow> safe mount_sysfs Q" "Q () \<Longrightarrow> safe (mount_cgroup2_if_dir target) Q" "Q () \<Longrightarrow> safe prepare_dev Q"
  unfolding mount_proc_def mount_sysfs_def mount_cgroup2_if_dir_def prepare_dev_def by (intro safe_step; simp)+

lemma cmdline_string:
  assumes "length bs \<le> cap - 1" "0 < cap"
  shows "0 \<notin> set (takeWhile (\<lambda>c. c \<noteq> 0) bs) \<and> length (takeWhile (\<lambda>c. c \<noteq> 0) (bs :: bytes)) < cap"
  using assms length_takeWhile_le [of "\<lambda>c. c \<noteq> 0" bs] by (auto dest: set_takeWhileD)

lemma safe_read_cmdline [safe_step]:
  "(\<And>s. 0 \<notin> set s \<Longrightarrow> length s < cap \<Longrightarrow> Q s) \<Longrightarrow> 0 < cap \<Longrightarrow> safe (read_cmdline cap) Q"
  unfolding read_cmdline_def by (intro safe_step) (use cmdline_string in auto)

lemma safe_build_disks [safe_step]:
  assumes Q: "\<And>r. Q r"
  shows "safe (setup_build_context cap) Q" "safe (setup_build_input has_context cap i) Q" "safe (setup_build_inputs n has_context cap) Q"
  unfolding setup_build_context_def setup_build_input_def setup_build_inputs_def mount_def Let_def
  by (intro safe_step Q; auto intro!: safe_step Q)+

text \<open>C40. Whatever the kernel command line says, the port the agent listens on is a valid one, between 1 and
  65535, and the number of build input disks is at most the two the agent has room for.\<close>

theorem cmdline_bounds:
  "1 \<le> resolve_port_from_cmdline buf \<and> resolve_port_from_cmdline buf \<le> 65535 \<and>
   (case resolve_build_input_count buf of None \<Rightarrow> True | Some n \<Rightarrow> n \<le> 2)"
proof -
  have "1 \<le> (ucast v :: u32) \<and> (ucast v :: u32) \<le> 65535" if "v \<noteq> 0" "\<not> v > 65535" for v :: u64
  proof -
    from that have "unat v \<le> 65535" "unat v \<noteq> 0" by (simp_all add: word_le_nat_alt not_less unat_eq_0)
    moreover from this have "unat (ucast v :: u32) = unat v" by (simp add: unsigned_ucast_eq take_bit_nat_eq_self)
    ultimately show ?thesis by (simp add: word_le_nat_alt)
  qed
  moreover have "unat v \<le> 2" if "\<not> v > MAX_BUILD_INPUT_DISKS" for v
    using that by (simp add: MAX_BUILD_INPUT_DISKS_def word_le_nat_alt not_less)
  ultimately show ?thesis
    by (auto simp: resolve_port_from_cmdline_def resolve_build_input_count_def Let_def case_prod_unfold split: option.split)
qed

end
