(* ===== verification/Network.thy ===== *)
theory Network
  imports Boot
begin

text \<open>
  \<^verbatim>\<open>network.c\<close>: the static network of the guest and the resolver file of a build, which is bind mounted into
  the root file system before a step and taken away before a snapshot. The global \<^verbatim>\<open>build_resolv\<close> is passed
  and returned.
\<close>

section \<open>State\<close>

definition MAX_BUILD_RESOLV_COMPONENTS :: nat where "MAX_BUILD_RESOLV_COMPONENTS = 64"

record build_resolv_state =
  br_configured :: bool
  br_mounted :: bool
  br_scaffold :: bool
  br_link_configured :: bool
  br_created_file :: bool
  br_link_path :: bytes
  br_logical_target :: bytes
  br_mount_target :: bytes
  br_created_dir_lens :: "nat list"

definition zero_resolv :: build_resolv_state where
  "zero_resolv = \<lparr>br_configured = False, br_mounted = False, br_scaffold = False, br_link_configured = False,
     br_created_file = False, br_link_path = [], br_logical_target = [], br_mount_target = [], br_created_dir_lens = []\<rparr>"

text \<open>\<^verbatim>\<open>stat\<close> and \<^verbatim>\<open>lstat\<close> fill in the mode and the device; the device is the answer of a second call.\<close>

definition stat_dev :: "string \<Rightarrow> bytes \<Rightarrow> (int \<times> int) sysret io" where
  "stat_dev name path =
     iob (sys_num name [] [path]) (\<lambda>r.
     case r of
       Inl e \<Rightarrow> ret (Inl e)
     | Inr mode \<Rightarrow> iob (sys_num ''st_dev'' [] [path]) (\<lambda>d. case d of Inr dev \<Rightarrow> ret (Inr (mode, dev)) | Inl _ \<Rightarrow> block))"

definition S_ISLNK :: "int \<Rightarrow> bool" where
  "S_ISLNK mode \<longleftrightarrow> mode AND 0xF000 = 0xA000"

section \<open>The interface\<close>

fun wait_for_iface :: "int \<Rightarrow> bytes \<Rightarrow> nat \<Rightarrow> int \<Rightarrow> bool io" where
  "wait_for_iface fd name 0 sleep_us = ret False"
| "wait_for_iface fd name (Suc attempts) sleep_us =
     iob (sys_num ''ioctl_SIOCGIFFLAGS'' [fd] [name]) (\<lambda>r.
     case r of
       Inr _ \<Rightarrow> ret True
     | Inl e \<Rightarrow> iob (sys_num ''usleep'' [sleep_us] []) (\<lambda>_. wait_for_iface fd name attempts sleep_us))"

definition set_iface_sockaddr :: "int \<Rightarrow> bytes \<Rightarrow> string \<Rightarrow> string \<Rightarrow> int sysret io" where
  "set_iface_sockaddr fd name request ip = sys_num request [fd] [name, lit ip]"

text \<open>The flags that are read are written back with the bit \<^verbatim>\<open>IFF_UP\<close>.\<close>

definition bring_iface_up :: "int \<Rightarrow> bytes \<Rightarrow> int sysret io" where
  "bring_iface_up fd name =
     iob (sys_num ''ioctl_SIOCGIFFLAGS'' [fd] [name]) (\<lambda>r.
     case r of
       Inl e \<Rightarrow> ret (Inl e)
     | Inr flags \<Rightarrow> sys_num ''ioctl_SIOCSIFFLAGS'' [fd, flags OR 1] [name])"

definition add_default_route :: "int \<Rightarrow> bytes \<Rightarrow> string \<Rightarrow> int sysret io" where
  "add_default_route fd name gateway =
     iob (sys_num ''ioctl_SIOCADDRT'' [fd, 3] [name, lit ''0.0.0.0'', lit gateway, lit ''0.0.0.0'']) (\<lambda>r.
     case r of
       Inl e \<Rightarrow> ret (if e \<noteq> EEXIST then Inl e else Inr 0)
     | Inr _ \<Rightarrow> ret (Inr 0))"

section \<open>Resolver files\<close>

definition SPORE_NET_RESOLV_CONF :: bytes where
  "SPORE_NET_RESOLV_CONF = lit ''nameserver 100.96.0.1'' @ [10]"

definition write_resolv_conf_path :: "bytes \<Rightarrow> bool io" where
  "write_resolv_conf_path path = write_file_atomic path SPORE_NET_RESOLV_CONF"

definition write_resolv_conf_with_parent :: "bytes \<Rightarrow> bool io" where
  "write_resolv_conf_with_parent path =
     (if path = [] \<or> length path \<ge> 192 then ret False
      else
        let name = rev (takeWhile (\<lambda>c. c \<noteq> slash) (rev path)); parent = take (length path - length name - 1) path in
        if slash \<notin> set path \<or> parent = [] then ret False
        else iob (mkdir_p parent 0x1ed) (\<lambda>ok. if \<not> ok then ret False else write_resolv_conf_path path))"

fun all_ok :: "bool io list \<Rightarrow> bool io" where
  "all_ok [] = ret True"
| "all_ok (m # ms) = iob m (\<lambda>ok. if \<not> ok then ret False else all_ok ms)"

definition prepare_rootfs_resolv_targets :: "bool io" where
  "prepare_rootfs_resolv_targets = all_ok (map (\<lambda>p. write_resolv_conf_with_parent (lit p))
     [''/mnt/rootfs/run/sporevm/resolv.conf'', ''/mnt/rootfs/run/systemd/resolve/stub-resolv.conf'',
      ''/mnt/rootfs/run/systemd/resolve/resolv.conf'', ''/mnt/rootfs/run/resolvconf/resolv.conf''])"

text \<open>The file the link resolves to, when it is a regular file of the root file system.\<close>

definition existing_rootfs_symlink_target :: "bytes \<Rightarrow> nat \<Rightarrow> bytes option io" where
  "existing_rootfs_symlink_target link_path cap =
     iob (readlink_bounded link_path 512) (\<lambda>t.
     case t of
       None \<Rightarrow> ret None
     | Some target \<Rightarrow>
         case fitting 1024 (if hd target = slash then lit ''/mnt/rootfs'' @ target else lit ''/mnt/rootfs/etc/'' @ target) of
           None \<Rightarrow> ret None
         | Some candidate \<Rightarrow>
             iob (sys_data ''realpath'' 1023 [] [candidate]) (\<lambda>r.
             case r of
               Inl e \<Rightarrow> ret None
             | Inr resolved \<Rightarrow>
                 if take 12 resolved \<noteq> lit ''/mnt/rootfs/'' then ret None
                 else iob (stat_dev ''stat'' (lit ''/mnt/rootfs'')) (\<lambda>r.
                   case r of
                     Inl e \<Rightarrow> ret None
                   | Inr (root_mode, root_dev) \<Rightarrow>
                       iob (stat_dev ''stat'' resolved) (\<lambda>r.
                       case r of
                         Inl e \<Rightarrow> ret None
                       | Inr (mode, dev) \<Rightarrow>
                           ret (if \<not> S_ISREG mode \<or> dev \<noteq> root_dev then None else fitting cap resolved)))))"

section \<open>Normalising the target of the link\<close>

definition pop_build_resolv_component :: "bytes \<Rightarrow> bytes" where
  "pop_build_resolv_component path =
     (if slash \<notin> set path then [] else butlast (rev (dropWhile (\<lambda>c. c \<noteq> slash) (rev path))))"

definition append_build_resolv_component :: "nat \<Rightarrow> bytes \<Rightarrow> bytes \<Rightarrow> bytes option" where
  "append_build_resolv_component cap path component =
     (if component = [] \<or> length path + (if path = [] then 0 else 1) + length component \<ge> cap then None
      else Some ((if path = [] then [] else path @ lit ''/'') @ component))"

text \<open>\<^verbatim>\<open>strtok_r\<close> with the slash as delimiter: the non-empty parts.\<close>

function tokens :: "bytes \<Rightarrow> bytes list" where
  "tokens s =
     (let t = dropWhile (\<lambda>c. c = slash) s in
      if t = [] then [] else takeWhile (\<lambda>c. c \<noteq> slash) t # tokens (dropWhile (\<lambda>c. c \<noteq> slash) t))"
  by pat_completeness auto
termination
proof (relation "measure length")
  fix s t :: bytes
  assume t: "t = dropWhile (\<lambda>c. c = slash) s" "t \<noteq> []"
  then have "hd t \<noteq> slash" using hd_dropWhile [of "\<lambda>c. c = slash" s] by simp
  with t(2) have "length (dropWhile (\<lambda>c. c \<noteq> slash) t) < length t"
    by (cases t) (auto simp: le_imp_less_Suc length_dropWhile_le)
  also have "\<dots> \<le> length s" unfolding t(1) by (rule length_dropWhile_le)
  finally show "(dropWhile (\<lambda>c. c \<noteq> slash) t, s) \<in> measure length" by simp
qed simp

declare tokens.simps [simp del]

fun normalize_components :: "bytes \<Rightarrow> bytes list \<Rightarrow> bytes option" where
  "normalize_components logical [] = Some logical"
| "normalize_components logical (c # cs) =
     (if c = [dot] then normalize_components logical cs
      else if c = [dot, dot] then normalize_components (pop_build_resolv_component logical) cs
      else case append_build_resolv_component 512 logical c of
          None \<Rightarrow> None
        | Some logical \<Rightarrow> normalize_components logical cs)"

text \<open>The logical and the mount target; after a failure the state is not read again.\<close>

definition normalize_build_resolv_target :: "bytes \<Rightarrow> (bytes \<times> bytes) option" where
  "normalize_build_resolv_target raw_target =
     (if raw_target = [] \<or> last raw_target = slash then None
      else case fitting 512 raw_target of
          None \<Rightarrow> None
        | Some pending \<Rightarrow>
            case normalize_components (if hd raw_target \<noteq> slash then lit ''etc'' else []) (tokens pending) of
              None \<Rightarrow> None
            | Some logical \<Rightarrow>
                if logical = [] then None
                else case fitting 1024 (lit ''/mnt/rootfs/'' @ logical) of None \<Rightarrow> None | Some target \<Rightarrow> Some (logical, target))"

section \<open>The scaffold\<close>

definition remove_dir_ok :: "bytes \<Rightarrow> bool io" where
  "remove_dir_ok path =
     iob (sys_num ''rmdir'' [] [path]) (\<lambda>r.
     ret (case r of Inl e \<Rightarrow> e = ENOENT \<or> e = ENOTEMPTY \<or> e = EEXIST | Inr _ \<Rightarrow> True))"

definition cleanup_build_resolv_scaffold :: "build_resolv_state \<Rightarrow> (bool \<times> build_resolv_state) io" where
  "cleanup_build_resolv_scaffold state =
     iob (if br_created_file state then
            iob (sys_num ''unlink'' [] [br_mount_target state]) (\<lambda>r. ret (case r of Inl e \<Rightarrow> e \<noteq> ENOENT | Inr _ \<Rightarrow> False))
          else ret False) (\<lambda>a.
     iob (any_failed (\<lambda>len. if len = 0 \<or> len \<ge> 1024 then ret True
            else iob (remove_dir_ok (take len (br_mount_target state))) (\<lambda>ok. ret (\<not> ok)))
          (rev (br_created_dir_lens state))) (\<lambda>b.
     ret (\<not> (a \<or> b), state\<lparr>br_created_file := False, br_created_dir_lens := []\<rparr>)))"

text \<open>The components one by one: missing directories and the file are made, what is there must be on the same device.\<close>

fun scaffold_loop :: "int \<Rightarrow> bytes \<Rightarrow> bytes list \<Rightarrow> build_resolv_state \<Rightarrow> (bool \<times> build_resolv_state) io" where
  "scaffold_loop root_dev path [] state = ret (True, state)"
| "scaffold_loop root_dev path (c # cs) state =
     (let path' = path @ lit ''/'' @ c in
      if length path' \<ge> 1024 then ret (False, state)
      else iob (stat_dev ''lstat'' path') (\<lambda>r.
        case r of
          Inr (mode, dev) \<Rightarrow>
            if dev \<noteq> root_dev then ret (False, state)
            else if (if cs = [] then \<not> S_ISREG mode else \<not> S_ISDIR mode) then ret (False, state)
            else scaffold_loop root_dev path' cs state
        | Inl e \<Rightarrow>
            if e \<noteq> ENOENT then ret (False, state)
            else if cs = [] then
              iob (sys_num ''open'' [0x800C1, 0x1a4] [path']) (\<lambda>r.
              case r of
                Inl e \<Rightarrow> ret (False, state)
              | Inr fd \<Rightarrow>
                  iob (sys_close fd) (\<lambda>ok.
                  let state = state\<lparr>br_created_file := True\<rparr> in
                  if \<not> ok then ret (False, state) else scaffold_loop root_dev path' cs state))
            else
              iob (sys_num ''mkdir'' [0x1ed] [path']) (\<lambda>r.
              if r \<noteq> Inr 0 then ret (False, state)
              else if length (br_created_dir_lens state) \<ge> MAX_BUILD_RESOLV_COMPONENTS then undef
              else scaffold_loop root_dev path' cs (state\<lparr>br_created_dir_lens := br_created_dir_lens state @ [length path']\<rparr>))))"

definition prepare_build_resolv_scaffold :: "build_resolv_state \<Rightarrow> (bool \<times> build_resolv_state) io" where
  "prepare_build_resolv_scaffold state =
     (if \<not> br_scaffold state then ret (True, state)
      else
        let state = state\<lparr>br_created_file := False, br_created_dir_lens := []\<rparr>; components = tokens (br_logical_target state) in
        if length components > MAX_BUILD_RESOLV_COMPONENTS \<or> components = [] then ret (False, state)
        else iob (stat_dev ''stat'' (lit ''/mnt/rootfs'')) (\<lambda>r.
          case r of
            Inl e \<Rightarrow> ret (False, state)
          | Inr (mode, root_dev) \<Rightarrow>
              iob (scaffold_loop root_dev (lit ''/mnt/rootfs'') components state) (\<lambda>(ok, state).
              if ok then ret (True, state)
              else iob (cleanup_build_resolv_scaffold state) (\<lambda>(_, state). ret (False, state)))))"

text \<open>Whether the link still has the target it was configured with.\<close>

definition link_unchanged :: "build_resolv_state \<Rightarrow> bool io" where
  "link_unchanged state =
     iob (sys_num ''lstat'' [] [br_link_path state]) (\<lambda>r.
     case r of
       Inl e \<Rightarrow> ret False
     | Inr mode \<Rightarrow>
         if \<not> S_ISLNK mode then ret False
         else iob (readlink_bounded (br_link_path state) 512) (\<lambda>t.
           ret (case t of
             None \<Rightarrow> False
           | Some target \<Rightarrow> normalize_build_resolv_target target = Some (br_logical_target state, br_mount_target state))))"

definition mount_build_resolv :: "build_resolv_state \<Rightarrow> (bool \<times> build_resolv_state) io" where
  "mount_build_resolv state =
     (if \<not> br_configured state \<or> br_mounted state then ret (True, state)
      else iob (if br_link_configured state then link_unchanged state else ret True) (\<lambda>ok.
        if \<not> ok then ret (False, state)
        else iob (prepare_build_resolv_scaffold state) (\<lambda>(ok, state).
          if \<not> ok then ret (False, state)
          else iob (mount (lit ''/run/sporevm/resolv.conf'') (br_mount_target state) null_arg MS_BIND null_arg) (\<lambda>r.
            if r \<noteq> Inr 0 then iob (cleanup_build_resolv_scaffold state) (\<lambda>(_, state). ret (False, state))
            else ret (True, state\<lparr>br_mounted := True\<rparr>)))))"

definition unmount_build_resolv_for_snapshot :: "build_resolv_state \<Rightarrow> (bool \<times> build_resolv_state) io" where
  "unmount_build_resolv_for_snapshot state =
     (if \<not> br_configured state \<or> \<not> br_mounted state then ret (True, state)
      else iob (sys_num ''umount'' [] [br_mount_target state]) (\<lambda>r.
        if r \<noteq> Inr 0 then ret (False, state)
        else cleanup_build_resolv_scaffold (state\<lparr>br_mounted := False\<rparr>)))"

definition configure_build_resolv_symlink :: "bytes \<Rightarrow> build_resolv_state \<Rightarrow> (bool \<times> build_resolv_state) io" where
  "configure_build_resolv_symlink link_path state =
     (if link_path = [] \<or> length link_path \<ge> 1024 then ret (False, state)
      else
        let state = state\<lparr>br_link_path := link_path, br_link_configured := True\<rparr> in
        iob (existing_rootfs_symlink_target link_path 1024) (\<lambda>t.
        case t of
          Some target \<Rightarrow> mount_build_resolv (state\<lparr>br_mount_target := target, br_scaffold := False, br_configured := True\<rparr>)
        | None \<Rightarrow>
            iob (readlink_bounded link_path 512) (\<lambda>t.
            case t of
              None \<Rightarrow> ret (False, state)
            | Some target \<Rightarrow>
                case normalize_build_resolv_target target of
                  None \<Rightarrow> ret (False, state)
                | Some (logical, target) \<Rightarrow>
                    mount_build_resolv (state\<lparr>br_logical_target := logical, br_mount_target := target, br_scaffold := True,
                      br_configured := True\<rparr>))))"

section \<open>The resolver of the root file system\<close>

definition net_error :: "nat \<Rightarrow> string \<Rightarrow> 's \<Rightarrow> (unit res \<times> 's) io" where
  "net_error cap msg s = ret (Inl (snprintf cap (lit ''network setup failed: '' @ lit msg)), s)"

definition net_errno :: "nat \<Rightarrow> string \<Rightarrow> 's \<Rightarrow> (unit res \<times> 's) io" where
  "net_errno cap msg s =
     iob stale_errno (\<lambda>e. ret (Inl (snprintf cap (lit ''network setup failed: '' @ lit msg @ lit '' errno='' @ dec e)), s))"

definition bind_build_resolv :: "int \<Rightarrow> int \<Rightarrow> (bool \<times> build_resolv_state) io" where
  "bind_build_resolv mode dev =
     (if S_ISLNK mode then configure_build_resolv_symlink (lit ''/mnt/rootfs/etc/resolv.conf'') zero_resolv
      else if S_ISREG mode then
        iob (stat_dev ''stat'' (lit ''/mnt/rootfs'')) (\<lambda>r.
        case r of
          Inl e \<Rightarrow> ret (False, zero_resolv)
        | Inr (root_mode, root_dev) \<Rightarrow>
            if dev \<noteq> root_dev then ret (False, zero_resolv)
            else mount_build_resolv (zero_resolv\<lparr>br_mount_target := lit ''/mnt/rootfs/etc/resolv.conf'', br_configured := True\<rparr>))
      else ret (False, zero_resolv))"

definition bind_rootfs_resolv :: "bool \<Rightarrow> nat \<Rightarrow> build_resolv_state \<Rightarrow> (unit res \<times> build_resolv_state) io" where
  "bind_rootfs_resolv build_mode cap br =
     iob (path_is_dir (lit ''/mnt/rootfs/etc'')) (\<lambda>dir.
     if \<not> dir then net_error cap ''rootfs /etc missing'' br
     else iob (stat_dev ''lstat'' (lit ''/mnt/rootfs/etc/resolv.conf'')) (\<lambda>st.
       case st of
         Inl e \<Rightarrow> net_error cap ''rootfs /etc/resolv.conf missing'' br
       | Inr (mode, dev) \<Rightarrow>
           if build_mode then
             iob (write_resolv_conf_path (lit ''/run/sporevm/resolv.conf'')) (\<lambda>ok.
             if \<not> ok then net_errno cap ''refresh build resolver source'' br
             else iob (bind_build_resolv mode dev) (\<lambda>(ok, br).
               if \<not> ok then net_errno cap ''build rootfs resolv target unavailable'' br else ret (Inr (), br)))
           else
             iob prepare_rootfs_resolv_targets (\<lambda>ok.
             if \<not> ok then net_errno cap ''rootfs resolv target'' br
             else if S_ISLNK mode then ret (Inr (), br)
             else iob (mount (lit ''/run/sporevm/resolv.conf'') (lit ''/mnt/rootfs/etc/resolv.conf'') null_arg MS_BIND null_arg) (\<lambda>r.
               case r of
                 Inl e \<Rightarrow> if e \<noteq> EBUSY then net_errno cap ''rootfs resolv.conf bind'' br else ret (Inr (), br)
               | Inr _ \<Rightarrow> ret (Inr (), br)))))"

section \<open>Setting the network up\<close>

text \<open>The steps on the socket, in order; each names what failed.\<close>

definition iface_steps :: "int \<Rightarrow> (string \<times> int sysret io) list" where
  "iface_steps fd =
     [(''set address'', set_iface_sockaddr fd (lit ''eth0'') ''ioctl_SIOCSIFADDR'' ''100.96.0.2''),
      (''set netmask'', set_iface_sockaddr fd (lit ''eth0'') ''ioctl_SIOCSIFNETMASK'' ''255.255.255.252''),
      (''bring link up'', bring_iface_up fd (lit ''eth0'')),
      (''default route'', add_default_route fd (lit ''eth0'') ''100.96.0.1'')]"

fun run_iface_steps :: "nat \<Rightarrow> (string \<times> int sysret io) list \<Rightarrow> unit res io" where
  "run_iface_steps cap [] = ret (Inr ())"
| "run_iface_steps cap ((what, m) # ms) =
     iob m (\<lambda>r.
     case r of
       Inl e \<Rightarrow> ret (Inl (snprintf cap (lit ''network setup failed: '' @ lit what @ lit '' errno='' @ dec e)))
     | Inr _ \<Rightarrow> run_iface_steps cap ms)"

definition setup_iface :: "nat \<Rightarrow> unit res io" where
  "setup_iface cap =
     iob (sys_num ''socket'' [2, 0x80002, 0] []) (\<lambda>r.
     case r of
       Inl e \<Rightarrow> ret (Inl (snprintf cap (lit ''network setup failed: socket errno='' @ dec e)))
     | Inr fd \<Rightarrow>
         iob (wait_for_iface fd (lit ''eth0'') 100 50000) (\<lambda>ok.
         iob (if \<not> ok then ret (Inl (snprintf cap (lit ''network setup failed: eth0 not found'')))
              else run_iface_steps cap (iface_steps fd)) (\<lambda>r.
         iob (sys_close fd) (\<lambda>_. ret r))))"

definition setup_network :: "bool \<Rightarrow> bool \<Rightarrow> nat \<Rightarrow> build_resolv_state \<Rightarrow> (unit res \<times> build_resolv_state) io" where
  "setup_network use_rootfs build_mode cap br =
     iob (setup_iface cap) (\<lambda>r.
     case r of
       Inl msg \<Rightarrow> ret (Inl msg, br)
     | Inr _ \<Rightarrow>
         iob (mkdir ''/etc'' 0x1ed) (\<lambda>_.
         iob (write_resolv_conf_path (lit ''/etc/resolv.conf'')) (\<lambda>ok.
         if \<not> ok then net_errno cap ''write /etc/resolv.conf'' br
         else if \<not> use_rootfs then ret (Inr (), br)
         else iob (mkdir ''/run/sporevm'' 0x1ed) (\<lambda>_.
           iob (write_resolv_conf_path (lit ''/run/sporevm/resolv.conf'')) (\<lambda>ok.
           if \<not> ok then net_errno cap ''write rootfs resolv source'' br
           else bind_rootfs_resolv build_mode cap br)))))"

section \<open>Safety\<close>

lemma safe_stat_dev [safe_step]: "(\<And>r. Q r) \<Longrightarrow> safe (stat_dev name path) Q"
  unfolding stat_dev_def by (intro safe_step)

lemma safe_iface [safe_step]:
  assumes "\<And>ok. Q ok"
  shows "safe (wait_for_iface fd name n us) Q"
  by (induction n) (auto intro!: safe_step assms)

lemma safe_setup_iface [safe_step]: "(\<And>r. Q r) \<Longrightarrow> safe (setup_iface cap) Q"
  unfolding setup_iface_def iface_steps_def set_iface_sockaddr_def bring_iface_up_def add_default_route_def
  by (auto intro!: safe_step)

lemma safe_resolv_files [safe_step]:
  "(\<And>ok. Q ok) \<Longrightarrow> safe (write_resolv_conf_path path) Q" "(\<And>ok. Q ok) \<Longrightarrow> safe (write_resolv_conf_with_parent path) Q"
  unfolding write_resolv_conf_with_parent_def write_resolv_conf_path_def Let_def by (intro safe_step; simp)+

lemma safe_prepare_rootfs_resolv_targets [safe_step]: "(\<And>ok. Q ok) \<Longrightarrow> safe prepare_rootfs_resolv_targets Q"
  unfolding prepare_rootfs_resolv_targets_def list.map all_ok.simps by (intro safe_step)

lemma safe_existing_target [safe_step]: "(\<And>r. Q r) \<Longrightarrow> safe (existing_rootfs_symlink_target path cap) Q"
  unfolding existing_rootfs_symlink_target_def by (intro safe_step)

lemma safe_cleanup_scaffold [safe_step]:
  assumes "\<And>ok. Q (ok, state\<lparr>br_created_file := False, br_created_dir_lens := []\<rparr>)"
  shows "safe (cleanup_build_resolv_scaffold state) Q"
proof -
  have "safe (if len = 0 \<or> len \<ge> 1024 then ret True
            else iob (remove_dir_ok (take len (br_mount_target state))) (\<lambda>ok. ret (\<not> ok))) (\<lambda>_. True)" for len
    unfolding remove_dir_ok_def by (intro safe_step) auto
  from safe_any_failed [OF this] assms show ?thesis
    unfolding cleanup_build_resolv_scaffold_def by (intro safe_any safe_step) auto
qed

text \<open>The array of directory lengths has room for every component.\<close>

lemma safe_scaffold_loop:
  "length (br_created_dir_lens state) + length cs \<le> MAX_BUILD_RESOLV_COMPONENTS \<Longrightarrow>
   safe (scaffold_loop dev path cs state) (\<lambda>r. br_scaffold (snd r) = br_scaffold state)"
proof (induction cs arbitrary: path state)
  case (Cons c cs)
  have IH: "safe (scaffold_loop dev p cs t) (\<lambda>r. br_scaffold (snd r) = br_scaffold state)"
    if "length (br_created_dir_lens t) \<le> Suc (length (br_created_dir_lens state))" "br_scaffold t = br_scaffold state" for p t
    using Cons.IH [of t p] Cons.prems that by simp
  show ?case
    unfolding scaffold_loop.simps Let_def
    by (intro safe_step IH) (use Cons.prems in auto)
qed (simp add: safe_step)

lemma safe_prepare_scaffold:
  "safe (prepare_build_resolv_scaffold state) (\<lambda>r. br_scaffold (snd r) = br_scaffold state)"
  unfolding prepare_build_resolv_scaffold_def Let_def
  by (auto intro!: safe_step safe_mono [OF safe_scaffold_loop])

lemma safe_link_unchanged: "safe (link_unchanged state) (\<lambda>_. True)"
  unfolding link_unchanged_def by (intro safe_step) auto

lemma safe_mount_build_resolv: "safe (mount_build_resolv state) (\<lambda>r. br_scaffold (snd r) = br_scaffold state)"
  unfolding mount_build_resolv_def mount_def
  by (auto intro!: safe_step safe_mono [OF safe_link_unchanged] safe_mono [OF safe_prepare_scaffold])

lemma safe_resolv [safe_step]:
  assumes Q: "\<And>r. Q r"
  shows "safe (unmount_build_resolv_for_snapshot br) Q" "safe (bind_build_resolv mode dev) Q"
  unfolding unmount_build_resolv_for_snapshot_def bind_build_resolv_def configure_build_resolv_symlink_def Let_def
  by (intro safe_step Q safe_mono [OF safe_mount_build_resolv])+

lemma safe_net_error [safe_step]: "(\<And>r. Q r) \<Longrightarrow> safe (net_error cap msg s) Q" "(\<And>r. Q r) \<Longrightarrow> safe (net_errno cap msg s) Q"
  unfolding net_error_def net_errno_def by (intro safe_step; simp)+

lemma safe_bind_rootfs_resolv [safe_step]: "(\<And>r. Q r) \<Longrightarrow> safe (bind_rootfs_resolv build_mode cap br) Q"
  unfolding bind_rootfs_resolv_def mount_def by (intro safe_step)

lemma safe_setup_network [safe_step]: "(\<And>r. Q r) \<Longrightarrow> safe (setup_network use_rootfs build_mode cap br) Q"
  unfolding setup_network_def by (intro safe_step)

section \<open>Where the resolver file goes\<close>

lemma tokens_proper: "\<forall>c\<in>set (tokens s). c \<noteq> [] \<and> slash \<notin> set c"
proof (induction s rule: tokens.induct)
  case (1 s)
  let ?t = "dropWhile (\<lambda>c. c = slash) s"
  have "takeWhile (\<lambda>c. c \<noteq> slash) ?t \<noteq> []" if "?t \<noteq> []"
    using that hd_dropWhile [of "\<lambda>c. c = slash" s] by (cases ?t) auto
  with 1 show ?case
    by (subst tokens.simps) (auto simp: Let_def dest: set_takeWhileD)
qed

text \<open>A list of proper components, joined by slashes.\<close>

definition joined :: "bytes \<Rightarrow> bool" where
  "joined p \<longleftrightarrow> (\<exists>cs. list_all proper_component cs \<and> p = rel_path cs)"

lemma rel_path_snoc: "cs \<noteq> [] \<Longrightarrow> rel_path (cs @ [c]) = rel_path cs @ slash # c"
  by (cases cs) simp_all

lemma rel_path_eq_Nil: "list_all proper_component cs \<Longrightarrow> rel_path cs = [] \<longleftrightarrow> cs = []"
  by (cases cs) (auto simp: proper_component_def)

lemma joined_append:
  assumes "joined p" "proper_component c" "append_build_resolv_component cap p c = Some q"
  shows "joined q"
proof -
  from assms(1) obtain cs where cs: "list_all proper_component cs" "p = rel_path cs" by (auto simp: joined_def)
  from assms(3) have "q = rel_path (cs @ [c])"
    using rel_path_eq_Nil [OF cs(1)]
    by (auto simp: append_build_resolv_component_def cs(2) rel_path_snoc lit_def split: if_split_asm)
  moreover have "list_all proper_component (cs @ [c])" using cs(1) assms(2) by simp
  ultimately show ?thesis unfolding joined_def by blast
qed

lemma pop_snoc:
  assumes "slash \<notin> set c"
  shows "pop_build_resolv_component (p @ slash # c) = p"
proof -
  have "dropWhile (\<lambda>x. x \<noteq> slash) (rev c @ slash # rev p) = slash # rev p"
    using assms by (subst dropWhile_append2) auto
  then show ?thesis by (simp add: pop_build_resolv_component_def)
qed

lemma joined_pop:
  assumes "joined p"
  shows "joined (pop_build_resolv_component p)"
proof -
  from assms obtain cs where cs: "list_all proper_component cs" "p = rel_path cs" by (auto simp: joined_def)
  have "joined []" unfolding joined_def by (rule exI [of _ "[]"]) simp
  moreover have "joined (pop_build_resolv_component p)" if "cs = ds @ [c]" "ds \<noteq> []" for ds c
    using cs that pop_snoc [of c "rel_path ds"]
    by (auto simp: joined_def rel_path_snoc proper_component_def)
  moreover have "pop_build_resolv_component p = []" if "cs = [c]" for c
    using cs that by (simp add: pop_build_resolv_component_def proper_component_def)
  moreover have "pop_build_resolv_component p = []" if "cs = []"
    using cs that by (simp add: pop_build_resolv_component_def)
  ultimately show ?thesis by (cases cs rule: rev_cases) (auto split: list.splits, metis append_Nil)
qed

lemma joined_normalize:
  "joined p \<Longrightarrow> \<forall>c\<in>set cs. c \<noteq> [] \<and> slash \<notin> set c \<Longrightarrow> normalize_components p cs = Some q \<Longrightarrow> joined q"
proof (induction p cs rule: normalize_components.induct)
  case (2 p c cs)
  have "joined r" if "append_build_resolv_component 512 p c = Some r" "c \<noteq> [dot]" "c \<noteq> [dot, dot]" for r
    using "2.prems" that by (intro joined_append [OF "2.prems"(1) _ that(1)]) (simp add: proper_component_def)
  with 2 show ?case
    by (auto simp: joined_pop split: if_split_asm option.split_asm)
qed simp

text \<open>C38. Whatever the resolver link of an image says, the path the resolver file is mounted on is the root of
  the image followed by proper components: dots and parents are resolved inside the image and never
  lead out of it.\<close>

theorem normalize_build_resolv_target_confined:
  "case normalize_build_resolv_target raw of
     None \<Rightarrow> True
   | Some (logical, target) \<Rightarrow>
       \<exists>cs. cs \<noteq> [] \<and> list_all proper_component cs \<and> logical = rel_path cs \<and> target = lit ''/mnt/rootfs'' @ abs_path cs"
proof (cases "normalize_build_resolv_target raw")
  case (Some r)
  obtain logical target where r: "r = (logical, target)" by (cases r)
  have start: "joined (if b then lit ''etc'' else [])" for b
    unfolding joined_def
    by (cases b) (auto simp: proper_component_def lit_def intro: exI [of _ "[lit ''etc'']"] exI [of _ "[]"])
  from Some obtain p where p: "normalize_components (if hd raw \<noteq> slash then lit ''etc'' else []) (tokens raw) = Some p"
      "p \<noteq> []" "logical = p" "target = lit ''/mnt/rootfs/'' @ p"
    by (auto simp: r normalize_build_resolv_target_def fitting_def split: if_split_asm option.split_asm)
  from joined_normalize [OF start tokens_proper p(1)]
  obtain cs where cs: "list_all proper_component cs" "p = rel_path cs" by (auto simp: joined_def)
  with p(2) have "cs \<noteq> []" by auto
  moreover from this have "lit ''/mnt/rootfs/'' @ rel_path cs = lit ''/mnt/rootfs'' @ abs_path cs"
    by (cases cs) (simp_all add: lit_def)
  ultimately show ?thesis using Some r p cs by auto
qed simp

text \<open>C39. When the resolver link of an image points to a file that exists, the resolver is never set up: the
  check that the link is unchanged compares with a logical target that this case leaves empty. Setting
  the resolver up through a link succeeds only when the target is made as a scaffold.\<close>

theorem configure_build_resolv_symlink_existing:
  "safe (configure_build_resolv_symlink link_path zero_resolv) (\<lambda>(ok, state). if ok then br_scaffold state else True)"
proof -
  have never: "safe (mount_build_resolv state) (\<lambda>(ok, state). if ok then br_scaffold state else True)"
    if "br_configured state" "\<not> br_mounted state" "br_link_configured state" "br_logical_target state = []" for state
  proof -
    have "safe (link_unchanged state) (\<lambda>ok. \<not> ok)"
      unfolding link_unchanged_def
      by (intro safe_step)
         (use that(4) in \<open>auto simp: normalize_build_resolv_target_def split: option.split if_split_asm option.split_asm\<close>)
    with that show ?thesis
      unfolding mount_build_resolv_def
      by (auto intro!: safe_iob elim!: safe_mono intro: safe_step)
  qed
  have kept: "safe (mount_build_resolv state) (\<lambda>(ok, state). if ok then br_scaffold state else True)" if "br_scaffold state" for state
    by (rule safe_mono [OF safe_mount_build_resolv]) (use that in auto)
  show ?thesis
    unfolding configure_build_resolv_symlink_def Let_def
    by (intro safe_step never kept) (simp_all add: zero_resolv_def)
qed

end
