(* ===== verification/Rootfs.thy ===== *)
theory Rootfs
  imports Network
begin

text \<open>
  \<^verbatim>\<open>rootfs.c\<close>: mounting the root disk, the injected files, the checks around growing the ext4 file system,
  and freezing it for a snapshot.
\<close>

section \<open>Runtime mounts\<close>

text \<open>A call that may fail with one error number; other failures are reported with the message.\<close>

definition must_or :: "errno \<Rightarrow> (errno \<Rightarrow> bytes) \<Rightarrow> int sysret io \<Rightarrow> unit res io" where
  "must_or allowed msg m =
     iob m (\<lambda>r. ret (case r of Inl e \<Rightarrow> if e = allowed then Inr () else Inl (msg e) | Inr _ \<Rightarrow> Inr ()))"

definition runtime_error :: "nat \<Rightarrow> string \<Rightarrow> bytes \<Rightarrow> errno \<Rightarrow> bytes" where
  "runtime_error cap what path e = snprintf cap (lit ''rootfs runtime '' @ lit what @ lit '' failed: '' @ path @ lit '' errno='' @ dec e)"

definition mount_if_dir :: "nat \<Rightarrow> string \<Rightarrow> string \<Rightarrow> string \<Rightarrow> int \<Rightarrow> string \<Rightarrow> unit res io" where
  "mount_if_dir cap source target fstype flags opts =
     iob (path_is_dir (lit target)) (\<lambda>dir.
     if \<not> dir then ret (Inr ())
     else must_or EBUSY (runtime_error cap ''mount'' (lit target)) (mount (lit source) (lit target) (lit fstype) flags (lit opts)))"

definition replace_symlink :: "nat \<Rightarrow> string \<Rightarrow> string \<Rightarrow> unit res io" where
  "replace_symlink cap target path =
     attempt (must_or ENOENT (runtime_error cap ''symlink remove'' (lit path)) (sys_num ''unlink'' [] [lit path])) (\<lambda>_.
     must (runtime_error cap ''symlink'' (lit path)) (sys_num ''symlink'' [] [lit target, lit path]))"

definition setup_rootfs_dev :: "nat \<Rightarrow> unit res io" where
  "setup_rootfs_dev cap =
     iob (path_is_dir (lit ''/mnt/rootfs/dev'')) (\<lambda>dir.
     if \<not> dir then ret (Inr ())
     else
       attempt (must_or EBUSY (runtime_error cap ''mount'' (lit ''/mnt/rootfs/dev''))
         (mount (lit ''devtmpfs'') (lit ''/mnt/rootfs/dev'') (lit ''devtmpfs'') MS_NOSUID [])) (\<lambda>_.
       attempt (must_or EEXIST (runtime_error cap ''mkdir'' (lit ''/mnt/rootfs/dev/pts''))
         (sys_num ''mkdir'' [0x1ed] [lit ''/mnt/rootfs/dev/pts''])) (\<lambda>_.
       attempt (must_or EBUSY (runtime_error cap ''mount'' (lit ''/mnt/rootfs/dev/pts''))
         (mount (lit ''devpts'') (lit ''/mnt/rootfs/dev/pts'') (lit ''devpts'') 0 (lit ''mode=0620,ptmxmode=0666''))) (\<lambda>_.
       each (\<lambda>(target, path). replace_symlink cap target path)
         [(''/proc/self/fd'', ''/mnt/rootfs/dev/fd''), (''/proc/self/fd/0'', ''/mnt/rootfs/dev/stdin''),
          (''/proc/self/fd/1'', ''/mnt/rootfs/dev/stdout''), (''/proc/self/fd/2'', ''/mnt/rootfs/dev/stderr''),
          (''pts/ptmx'', ''/mnt/rootfs/dev/ptmx'')]))))"

section \<open>Injected files\<close>

definition id_char :: "u8 \<Rightarrow> bool" where
  "id_char c \<longleftrightarrow> 97 \<le> c \<and> c \<le> 122 \<or> 65 \<le> c \<and> c \<le> 90 \<or> 48 \<le> c \<and> c \<le> 57 \<or> c = 46 \<or> c = 95 \<or> c = 45"

definition valid_injected_file_id :: "bytes \<Rightarrow> bool" where
  "valid_injected_file_id name \<longleftrightarrow>
     name \<noteq> [] \<and> length name \<le> 96 \<and> name \<noteq> lit ''.'' \<and> name \<noteq> lit ''..'' \<and> list_all id_char name"

definition inject_turn :: "int \<Rightarrow> int \<Rightarrow> unit \<Rightarrow> (unit + bool) io" where
  "inject_turn in_fd out_fd u =
     iob (sys_read in_fd 4096) (\<lambda>r.
     case r of
       Inl e \<Rightarrow> if e = EINTR then ret (Inl ()) else ret (Inr False)
     | Inr buf \<Rightarrow>
         if buf = [] then ret (Inr True)
         else iob (write_all out_fd buf) (\<lambda>ok. ret (if ok then Inl () else Inr False)))"

lemma inject_less: "inject_turn a b u w = (Ret (Inl u'), w') \<Longrightarrow> length (w_answers w') < length (w_answers w)"
  unfolding inject_turn_def by (erule iob_less, erule calls_less) (intro shrinks_intro)

function inject_loop :: "int \<Rightarrow> int \<Rightarrow> unit \<Rightarrow> bool io" where
  "inject_loop a b u w = iob (inject_turn a b u) (\<lambda>r w'. case r of Inl u' \<Rightarrow> inject_loop a b u' w' | Inr x \<Rightarrow> ret x w') w"
  by pat_completeness auto
termination
  by (relation "measure (\<lambda>(a, b, u, w). length (w_answers w))") (auto dest: inject_less)

declare inject_loop.simps [simp del]

definition copy_injected_file :: "bytes \<Rightarrow> bytes \<Rightarrow> bool io" where
  "copy_injected_file src dst =
     iob (sys_num ''open'' [0xA0000] [src]) (\<lambda>r.
     case r of
       Inl e \<Rightarrow> ret False
     | Inr in_fd \<Rightarrow>
         iob (sys_num ''fstat'' [in_fd] []) (\<lambda>st.
         if (case st of Inl e \<Rightarrow> True | Inr mode \<Rightarrow> \<not> S_ISREG mode) then iob (sys_close in_fd) (\<lambda>_. ret False)
         else iob (sys_num ''open'' [0xA0241, 0x100] [dst]) (\<lambda>r.
           case r of
             Inl e \<Rightarrow> iob (sys_close in_fd) (\<lambda>_. ret False)
           | Inr out_fd \<Rightarrow>
               iob (inject_loop in_fd out_fd ()) (\<lambda>a.
               iob (sys_num ''fchmod'' [out_fd, 0x100] []) (\<lambda>b.
               iob (sys_close out_fd) (\<lambda>c.
               iob (sys_close in_fd) (\<lambda>d. ret (a \<and> b = Inr 0 \<and> c \<and> d))))))))"

definition INJECTED_INITRD_DIR :: bytes where "INJECTED_INITRD_DIR = lit ''/run/sporevm/injected''"

definition INJECTED_ROOTFS_DIR :: bytes where "INJECTED_ROOTFS_DIR = lit ''/mnt/rootfs/run/sporevm/injected''"

definition injected_error :: "nat \<Rightarrow> bytes \<Rightarrow> (unit + unit res) io" where
  "injected_error cap msg = ret (Inr (Inl (snprintf cap (lit ''injected file setup failed: '' @ msg))))"

text \<open>One entry of the directory with the injected files.\<close>

definition injected_turn :: "nat \<Rightarrow> int \<Rightarrow> unit \<Rightarrow> (unit + unit res) io" where
  "injected_turn cap dir u =
     iob (sys_data ''readdir'' 255 [dir] []) (\<lambda>r.
     case r of
       Inl e \<Rightarrow> ret (Inr (Inr ()))
     | Inr name \<Rightarrow>
         if name = [] then ret (Inr (Inr ()))
         else if name = lit ''.'' \<or> name = lit ''..'' then ret (Inl ())
         else if \<not> valid_injected_file_id name then injected_error cap (lit ''invalid injected id'')
         else case (fitting 192 (INJECTED_INITRD_DIR @ lit ''/'' @ name), fitting 192 (INJECTED_ROOTFS_DIR @ lit ''/'' @ name)) of
             (Some src, Some dst) \<Rightarrow>
               iob (copy_injected_file src dst) (\<lambda>ok.
               if \<not> ok then iob stale_errno (\<lambda>e. injected_error cap (lit ''copy '' @ name @ lit '' errno='' @ dec e))
               else ret (Inl ()))
           | _ \<Rightarrow> injected_error cap (lit ''path too long''))"

lemma shrinks_inject_loop [shrinks_intro]: "shrinks (inject_loop a b u)"
  by (rule shrinks_iterate [where m = "\<lambda>s w. length (w_answers w)", OF inject_loop.simps], erule inject_less)
     (unfold inject_turn_def, intro shrinks_intro)

lemma shrinks_copy_injected_file [shrinks_intro]: "shrinks (copy_injected_file src dst)"
  unfolding copy_injected_file_def by (intro shrinks_intro)

lemma injected_less: "injected_turn cap dir u w = (Ret (Inl u'), w') \<Longrightarrow> length (w_answers w') < length (w_answers w)"
  unfolding injected_turn_def injected_error_def stale_errno_def
  by (erule iob_less, erule calls_less) (intro shrinks_intro)

function injected_loop :: "nat \<Rightarrow> int \<Rightarrow> unit \<Rightarrow> unit res io" where
  "injected_loop cap dir u w =
     iob (injected_turn cap dir u) (\<lambda>r w'. case r of Inl u' \<Rightarrow> injected_loop cap dir u' w' | Inr x \<Rightarrow> ret x w') w"
  by pat_completeness auto
termination
  by (relation "measure (\<lambda>(cap, dir, u, w). length (w_answers w))") (auto dest: injected_less)

declare injected_loop.simps [simp del]

definition copy_injected_files_to_rootfs :: "nat \<Rightarrow> unit res io" where
  "copy_injected_files_to_rootfs cap =
     (let failed = (\<lambda>what e. ret (Inl (snprintf cap (lit ''injected file setup failed: '' @ lit what @ lit '' errno='' @ dec e)))) in
      iob (sys_num ''open'' [0x90000] [INJECTED_INITRD_DIR]) (\<lambda>r.
      case r of
        Inl e \<Rightarrow> if e = ENOENT then ret (Inr ()) else failed ''open injected dir'' e
      | Inr dir \<Rightarrow>
          iob (mkdir_p INJECTED_ROOTFS_DIR 0x1c0) (\<lambda>ok.
          if \<not> ok then iob stale_errno (\<lambda>e. iob (sys_close dir) (\<lambda>_. failed ''create rootfs dir'' e))
          else iob (injected_loop cap dir ()) (\<lambda>r.
            iob (sys_close dir) (\<lambda>closed.
            case r of
              Inl msg \<Rightarrow> ret (Inl msg)
            | Inr _ \<Rightarrow> if closed then ret (Inr ()) else iob stale_errno (failed ''close injected dir''))))))"

section \<open>The geometry of the disk\<close>

record ext4_disk_geometry =
  g_blocks_count :: u64
  g_blocks_per_group :: u32
  g_block_size :: u32
  g_state :: u16
  g_feature_compat :: u32
  g_feature_incompat :: u32
  g_feature_ro_compat :: u32
  g_last_orphan :: u32

definition EXT4_SUPER_SIZE :: nat where "EXT4_SUPER_SIZE = 1024"

definition decode_ext4_disk_geometry :: "bytes \<Rightarrow> ext4_disk_geometry cres" where
  "decode_ext4_disk_geometry super =
     (if length super \<noteq> EXT4_SUPER_SIZE then Bad
      else bnd (read_le16 (drop 0x38 super)) (\<lambda>magic. if magic \<noteq> 0xef53 then Bad else
      bnd (read_le32 (drop 0x18 super)) (\<lambda>log_block_size. if log_block_size > 6 then Bad else
      bnd (read_le32 (drop 0x20 super)) (\<lambda>blocks_per_group.
      bnd (read_le32 (drop 0x60 super)) (\<lambda>feature_incompat.
      bnd (read_le32 (drop 0x04 super)) (\<lambda>lo.
      bnd (if feature_incompat AND 0x80 \<noteq> 0 then bnd (read_le32 (drop 0x150 super)) (\<lambda>hi. Ok (ucast lo OR push_bit 32 (ucast hi) :: u64))
           else Ok (ucast lo)) (\<lambda>blocks_count.
      if blocks_count = 0 \<or> blocks_per_group = 0 then Bad else
      bnd (read_le16 (drop 0x3a super)) (\<lambda>state.
      bnd (read_le32 (drop 0x5c super)) (\<lambda>feature_compat.
      bnd (read_le32 (drop 0x64 super)) (\<lambda>feature_ro_compat.
      bnd (read_le32 (drop 0xe8 super)) (\<lambda>last_orphan.
      Ok \<lparr>g_blocks_count = blocks_count, g_blocks_per_group = blocks_per_group,
          g_block_size = push_bit (unat log_block_size) 1024, g_state = state, g_feature_compat = feature_compat,
          g_feature_incompat = feature_incompat, g_feature_ro_compat = feature_ro_compat, g_last_orphan = last_orphan\<rparr>)))))))))))"

definition pread_turn :: "int \<Rightarrow> bytes \<Rightarrow> (bytes + bytes option) io" where
  "pread_turn fd super =
     (if length super \<ge> EXT4_SUPER_SIZE then ret (Inr (Some super))
      else iob (sys_data ''pread'' (EXT4_SUPER_SIZE - length super) [fd, 1024 + int (length super)] []) (\<lambda>r.
        case r of
          Inr bs \<Rightarrow> if bs = [] then ret (Inr None) else ret (Inl (super @ bs))
        | Inl e \<Rightarrow> if e = EINTR then ret (Inl super) else ret (Inr None)))"

lemma pread_less: "pread_turn fd s w = (Ret (Inl s'), w') \<Longrightarrow> length (w_answers w') < length (w_answers w)"
  unfolding pread_turn_def
  by (split if_split_asm, simp add: ret_def, erule iob_less, erule calls_less) (intro shrinks_intro)

function pread_loop :: "int \<Rightarrow> bytes \<Rightarrow> bytes option io" where
  "pread_loop fd s w = iob (pread_turn fd s) (\<lambda>r w'. case r of Inl s' \<Rightarrow> pread_loop fd s' w' | Inr x \<Rightarrow> ret x w') w"
  by pat_completeness auto
termination
  by (relation "measure (\<lambda>(fd, s, w). length (w_answers w))") (auto dest: pread_less)

declare pread_loop.simps [simp del]

definition read_ext4_disk_geometry :: "int \<Rightarrow> ext4_disk_geometry option io" where
  "read_ext4_disk_geometry fd =
     iob (pread_loop fd []) (\<lambda>r.
     case r of
       None \<Rightarrow> ret None
     | Some super \<Rightarrow> lift_cres (decode_ext4_disk_geometry super))"

definition validate_ext4_growth_source :: "ext4_disk_geometry \<Rightarrow> bool" where
  "validate_ext4_growth_source g \<longleftrightarrow>
     g_feature_compat g AND 0x4 = 0 \<and> g_feature_incompat g AND (0x4 OR 0x8) = 0 \<and> g_state g AND (0x2 OR 0x4) = 0 \<and>
     g_last_orphan g = 0 \<and> g_feature_ro_compat g AND 0x10000 = 0"

definition preflight_rootfs_growth_source :: "nat \<Rightarrow> unit res io" where
  "preflight_rootfs_growth_source cap =
     iob (sys_num ''open'' [O_CLOEXEC] [lit ''/dev/vda'']) (\<lambda>r.
     case r of
       Inl e \<Rightarrow> ret (Inl (snprintf cap (lit ''rootfs growth source open failed'')))
     | Inr fd \<Rightarrow>
         iob (read_ext4_disk_geometry fd) (\<lambda>source.
         iob (sys_close fd) (\<lambda>closed.
         ret (case source of
           None \<Rightarrow> Inl (snprintf cap (lit ''rootfs growth source validation failed''))
         | Some g \<Rightarrow>
             if \<not> closed then Inl (snprintf cap (lit ''rootfs growth source validation failed''))
             else if \<not> validate_ext4_growth_source g then
               Inl (snprintf cap (lit ''rootfs growth source is unsupported or requires recovery''))
             else Inr ()))))"

definition validate_rootfs_grow_geometry :: "u64 \<Rightarrow> ext4_disk_geometry \<Rightarrow> ext4_disk_geometry \<Rightarrow> bool" where
  "validate_rootfs_grow_geometry target_blocks old new \<longleftrightarrow>
     \<not> (target_blocks = 0 \<or> g_block_size old \<noteq> g_block_size new \<or> g_blocks_per_group old \<noteq> g_blocks_per_group new) \<and>
     \<not> (g_blocks_count old = 0 \<or> g_blocks_count old \<ge> target_blocks) \<and>
     \<not> (g_blocks_count new \<le> g_blocks_count old \<or> g_blocks_count new > target_blocks) \<and>
     \<not> (target_blocks - g_blocks_count new \<ge> ucast (g_blocks_per_group new))"

section \<open>Mounting the disk\<close>

definition setup_rootfs :: "bool \<Rightarrow> bool \<Rightarrow> bool \<Rightarrow> bool \<Rightarrow> nat \<Rightarrow> unit res io" where
  "setup_rootfs writable growth_session noinit_itable build_mode cap =
     iob (mkdir ''/mnt'' 0x1ed) (\<lambda>_.
     iob (mkdir ''/mnt/rootfs'' 0x1ed) (\<lambda>_.
     if growth_session \<and> \<not> writable then ret (Inl (snprintf cap (lit ''rootfs growth requires a writable rootfs'')))
     else if noinit_itable \<and> \<not> growth_session then
       ret (Inl (snprintf cap (lit ''rootfs noinit_itable requires a growth session'')))
     else iob (wait_for_path (lit ''/dev/vda'') 100 50000) (\<lambda>ok.
       if \<not> ok then ret (Inl (snprintf cap (lit ''rootfs block device not found'')))
       else attempt (if growth_session then preflight_rootfs_growth_source cap else ret (Inr ())) (\<lambda>_.
         attempt (must (\<lambda>e. snprintf cap (lit ''rootfs mount failed: errno='' @ dec e))
           (mount (lit ''/dev/vda'') (lit ''/mnt/rootfs'') (lit ''ext4'') (if writable then 0 else MS_RDONLY)
             (if writable then if noinit_itable then lit ''noinit_itable'' else [] else lit ''noload''))) (\<lambda>_.
         if build_mode then ret (Inr ())
         else
           attempt (setup_rootfs_dev cap) (\<lambda>_.
           attempt (mount_if_dir cap ''proc'' ''/mnt/rootfs/proc'' ''proc'' (MS_NOSUID OR MS_NOEXEC OR MS_NODEV) []) (\<lambda>_.
           attempt (mount_if_dir cap ''sysfs'' ''/mnt/rootfs/sys'' ''sysfs'' (MS_RDONLY OR MS_NOSUID OR MS_NOEXEC OR MS_NODEV) []) (\<lambda>_.
           iob (mount_cgroup2_if_dir (lit ''/mnt/rootfs/sys/fs/cgroup'')) (\<lambda>_.
           attempt (mount_if_dir cap ''tmpfs'' ''/mnt/rootfs/run'' ''tmpfs'' (MS_NOSUID OR MS_NODEV) ''mode=0755'') (\<lambda>_.
           attempt (mount_if_dir cap ''tmpfs'' ''/mnt/rootfs/tmp'' ''tmpfs'' (MS_NOSUID OR MS_NODEV) ''mode=1777'') (\<lambda>_.
           copy_injected_files_to_rootfs cap)))))))))))"

section \<open>Freezing and thawing\<close>

definition rootfs_reply :: "client \<Rightarrow> string \<Rightarrow> (bool \<times> client) io" where
  "rootfs_reply client msg = send_client_error_exit client 126 (lit ''spore build: '' @ lit msg @ [10])"

definition freeze_or_thaw_rootfs :: "client \<Rightarrow> bool \<Rightarrow> build_resolv_state \<Rightarrow> (bool \<times> client \<times> build_resolv_state) io" where
  "freeze_or_thaw_rootfs client freeze br =
     (let reply = (\<lambda>msg br. iob (rootfs_reply client msg) (\<lambda>(ok, client). ret (ok, client, br))) in
      iob (if freeze then unmount_build_resolv_for_snapshot br else ret (True, br)) (\<lambda>(ok, br').
      if \<not> ok then reply ''resolver cleanup before freeze failed'' br'
      else iob (sys_num ''open'' [0x90000] [lit ''/mnt/rootfs'']) (\<lambda>r.
        case r of
          Inl e \<Rightarrow> reply (if freeze then ''rootfs freeze open failed'' else ''rootfs thaw open failed'') br'
        | Inr fd \<Rightarrow>
            iob (if freeze then iob (sys_num ''sync'' [] []) (\<lambda>_. ret ()) else ret ()) (\<lambda>_.
            iob (sys_num (if freeze then ''ioctl_FIFREEZE'' else ''ioctl_FITHAW'') [fd, 0] []) (\<lambda>r.
            iob (sys_close fd) (\<lambda>closed.
            if r \<noteq> Inr 0 \<or> \<not> closed then reply (if freeze then ''fsfreeze failed'' else ''fsthaw failed'') br'
            else if \<not> freeze \<and> br_configured br then
              iob (bind_rootfs_resolv True 192 br') (\<lambda>(r, br').
              case r of
                Inl msg \<Rightarrow> reply ''resolver restore after thaw failed'' br'
              | Inr _ \<Rightarrow> iob (send_client_exit client 0) (\<lambda>ok. ret (ok, client, br')))
            else iob (send_client_exit client 0) (\<lambda>ok. ret (ok, client, br'))))))))"

section \<open>Growing\<close>

record statfs =
  f_bsize :: int
  f_blocks :: u64
  f_bavail :: u64
  f_files :: u64
  f_ffree :: u64

text \<open>The fields \<^verbatim>\<open>fstatfs\<close> fills in are the answers of one call each.\<close>

definition statfs_field :: "string \<Rightarrow> int \<Rightarrow> int io" where
  "statfs_field name fd = iob (sys_num name [fd] []) (\<lambda>r. case r of Inr n \<Rightarrow> ret n | Inl _ \<Rightarrow> block)"

definition fstatfs :: "int \<Rightarrow> statfs option io" where
  "fstatfs fd =
     iob (sys_num ''fstatfs'' [fd] []) (\<lambda>r.
     case r of
       Inl e \<Rightarrow> ret None
     | Inr _ \<Rightarrow>
         iob (statfs_field ''f_bsize'' fd) (\<lambda>bsize. iob (statfs_field ''f_blocks'' fd) (\<lambda>blocks.
         iob (statfs_field ''f_bavail'' fd) (\<lambda>bavail. iob (statfs_field ''f_files'' fd) (\<lambda>files.
         iob (statfs_field ''f_ffree'' fd) (\<lambda>ffree.
         ret (Some \<lparr>f_bsize = bsize, f_blocks = word_of_int blocks, f_bavail = word_of_int bavail,
           f_files = word_of_int files, f_ffree = word_of_int ffree\<rparr>)))))))"

text \<open>The checks after the file system was grown: the message of the first that fails.\<close>

definition grown_check :: "u64 \<Rightarrow> ext4_disk_geometry \<Rightarrow> ext4_disk_geometry \<Rightarrow> statfs \<Rightarrow> string option" where
  "grown_check target_blocks before_disk after_disk after =
     (let block_size = ucast (g_block_size before_disk) :: u64 in
      if \<not> validate_rootfs_grow_geometry target_blocks before_disk after_disk \<or> word_of_int (f_bsize after) \<noteq> block_size \<or>
         f_blocks after = 0 \<or> f_blocks after > g_blocks_count after_disk \<or> f_bavail after > f_blocks after \<or>
         f_files after = 0 \<or> f_ffree after > f_files after
      then Some ''rootfs grow geometry mismatch''
      else if f_bavail after > (- 1) div block_size then Some ''rootfs grow free-space overflow''
      else None)"

definition grow_report :: "u64 \<Rightarrow> u64 \<Rightarrow> ext4_disk_geometry \<Rightarrow> ext4_disk_geometry \<Rightarrow> statfs \<Rightarrow> bytes" where
  "grow_report device_bytes target_blocks before_disk after_disk after =
     (let block_size = ucast (g_block_size before_disk) :: u64 in
      lit ''spore-rootfs-grow-v1 device_bytes='' @ dec (unat device_bytes) @ lit '' block_size='' @ dec (unat block_size) @
      lit '' target_blocks='' @ dec (unat target_blocks) @ lit '' before_blocks='' @ dec (unat (g_blocks_count before_disk)) @
      lit '' filesystem_blocks='' @ dec (unat (g_blocks_count after_disk)) @ lit '' blocks_per_group='' @ dec (unat (g_blocks_per_group after_disk)) @
      lit '' usable_blocks='' @ dec (unat (f_blocks after)) @ lit '' free_bytes='' @ dec (unat (f_bavail after * block_size)) @
      lit '' inodes='' @ dec (unat (f_files after)) @ lit '' free_inodes='' @ dec (unat (f_ffree after)) @ [10])"

text \<open>From the ioctl on; both descriptors are open.\<close>

definition resize_rootfs :: "client \<Rightarrow> int \<Rightarrow> int \<Rightarrow> u64 \<Rightarrow> u64 \<Rightarrow> ext4_disk_geometry \<Rightarrow> (bool \<times> client) io" where
  "resize_rootfs client device_fd fs_fd device_bytes target_blocks before_disk =
     iob (sys_num ''ioctl_EXT4_IOC_RESIZE_FS'' [fs_fd, uint target_blocks] []) (\<lambda>r.
     if r \<noteq> Inr 0 then iob (close_fds [fs_fd, device_fd]) (\<lambda>_. rootfs_reply client ''rootfs grow ioctl failed'')
     else iob (sys_num ''syncfs'' [fs_fd] []) (\<lambda>r.
       if r \<noteq> Inr 0 then iob (close_fds [fs_fd, device_fd]) (\<lambda>_. rootfs_reply client ''rootfs grow sync failed'')
       else iob (read_ext4_disk_geometry device_fd) (\<lambda>disk.
         iob (case disk of
                None \<Rightarrow> ret None
              | Some g \<Rightarrow> if \<not> validate_ext4_growth_source g then ret None
                  else iob (fstatfs fs_fd) (\<lambda>r. ret (case r of None \<Rightarrow> None | Some st \<Rightarrow> Some (g, st)))) (\<lambda>verified.
         iob (sys_close fs_fd) (\<lambda>a.
         iob (sys_close device_fd) (\<lambda>b.
         case verified of
           None \<Rightarrow> rootfs_reply client ''rootfs grow verification failed''
         | Some (after_disk, after) \<Rightarrow>
             if \<not> a \<or> \<not> b \<or> f_bsize after \<le> 0 then rootfs_reply client ''rootfs grow verification failed''
             else case grown_check target_blocks before_disk after_disk after of
                 Some msg \<Rightarrow> rootfs_reply client msg
               | None \<Rightarrow>
                   let msg = grow_report device_bytes target_blocks before_disk after_disk after in
                   if length msg \<ge> 512 then ret (False, client)
                   else iob (send_client_stdout client msg) (\<lambda>(ok, client).
                     if \<not> ok then ret (False, client)
                     else iob (send_client_exit client 0) (\<lambda>ok. ret (ok, client)))))))))"

definition grow_rootfs :: "client \<Rightarrow> (bool \<times> client) io" where
  "grow_rootfs client =
     iob (sys_num ''open'' [O_CLOEXEC] [lit ''/dev/vda'']) (\<lambda>r.
     case r of
       Inl e \<Rightarrow> rootfs_reply client ''rootfs grow device open failed''
     | Inr device_fd \<Rightarrow>
         iob (sys_num ''ioctl_BLKGETSIZE64'' [device_fd] []) (\<lambda>r.
         let device_bytes = (case r of Inl e \<Rightarrow> 0 | Inr n \<Rightarrow> (word_of_int n :: u64)) in
         if device_bytes = 0 then iob (sys_close device_fd) (\<lambda>_. rootfs_reply client ''rootfs grow device geometry failed'')
         else iob (read_ext4_disk_geometry device_fd) (\<lambda>disk.
           case (case disk of Some g \<Rightarrow> if validate_ext4_growth_source g then Some g else None | None \<Rightarrow> None) of
             None \<Rightarrow> iob (sys_close device_fd) (\<lambda>_. rootfs_reply client ''rootfs grow ext4 geometry failed'')
           | Some before_disk \<Rightarrow>
               iob (sys_num ''open'' [0x90000] [lit ''/mnt/rootfs'']) (\<lambda>r.
               case r of
                 Inl e \<Rightarrow> iob (sys_close device_fd) (\<lambda>_. rootfs_reply client ''rootfs grow mount open failed'')
               | Inr fs_fd \<Rightarrow>
                   iob (fstatfs fs_fd) (\<lambda>old.
                   case old of
                     None \<Rightarrow> iob (close_fds [fs_fd, device_fd]) (\<lambda>_. rootfs_reply client ''rootfs grow filesystem geometry failed'')
                   | Some old \<Rightarrow>
                       let block_size = ucast (g_block_size before_disk) :: u64 in
                       if f_bsize old \<le> 0 then iob (close_fds [fs_fd, device_fd]) (\<lambda>_. rootfs_reply client ''rootfs grow filesystem geometry failed'')
                       else if word_of_int (f_bsize old) \<noteq> block_size \<or> f_blocks old = 0 \<or> f_bavail old > f_blocks old
                       then iob (close_fds [fs_fd, device_fd]) (\<lambda>_. rootfs_reply client ''rootfs grow geometry is unaligned'')
                       else if block_size = 0 then undef
                       else if device_bytes mod block_size \<noteq> 0
                       then iob (close_fds [fs_fd, device_fd]) (\<lambda>_. rootfs_reply client ''rootfs grow geometry is unaligned'')
                       else
                         let target_blocks = device_bytes div block_size in
                         if g_blocks_count before_disk \<ge> target_blocks then
                           iob (close_fds [fs_fd, device_fd]) (\<lambda>_. rootfs_reply client ''rootfs grow target is not larger than the filesystem'')
                         else resize_rootfs client device_fd fs_fd device_bytes target_blocks before_disk)))))"

section \<open>Safety\<close>

lemma safe_must_or [safe_step]: "(\<And>r. Q r) \<Longrightarrow> safe (must_or allowed msg (sys_num name is bs)) Q"
  unfolding must_or_def by (intro safe_step)

lemma safe_runtime_mounts [safe_step]:
  assumes Q: "\<And>r. Q r"
  shows "safe (mount_if_dir cap source target fstype flags opts) Q" "safe (replace_symlink cap path link) Q"
  unfolding mount_if_dir_def replace_symlink_def mount_def
  by (intro safe_step Q; auto split: sum.split intro!: safe_step Q)+

lemma safe_setup_rootfs_dev [safe_step]: "(\<And>r. Q r) \<Longrightarrow> safe (setup_rootfs_dev cap) Q"
  unfolding setup_rootfs_dev_def mount_def
  by (intro safe_step; auto split: sum.split intro!: safe_step)

lemma safe_inject_loop [safe_step]: "(\<And>r. Q r) \<Longrightarrow> safe (inject_loop a b u) Q"
  by (rule safe_iterate [OF inject_loop.simps inject_less, where I = "\<lambda>_. True"])
     (auto intro!: safe_step simp: inject_turn_def)

lemma safe_copy_injected_file [safe_step]: "(\<And>r. Q r) \<Longrightarrow> safe (copy_injected_file src dst) Q"
  unfolding copy_injected_file_def by (intro safe_step)

lemma safe_injected_loop [safe_step]: "(\<And>r. Q r) \<Longrightarrow> safe (injected_loop cap dir u) Q"
  by (rule safe_iterate [OF injected_loop.simps injected_less, where I = "\<lambda>_. True"])
     (auto intro!: safe_step simp: injected_turn_def injected_error_def)

lemma safe_copy_injected_files [safe_step]: "(\<And>r. Q r) \<Longrightarrow> safe (copy_injected_files_to_rootfs cap) Q"
  unfolding copy_injected_files_to_rootfs_def Let_def by (intro safe_step)

definition geometry_wf :: "ext4_disk_geometry \<Rightarrow> bool" where
  "geometry_wf g \<longleftrightarrow>
     g_blocks_count g \<noteq> 0 \<and> g_blocks_per_group g \<noteq> 0 \<and> g_block_size g \<in> {1024, 2048, 4096, 8192, 16384, 32768, 65536}"

lemma block_sizes: "k \<le> 6 \<Longrightarrow> push_bit (unat (k :: u32)) (1024 :: u32) \<in> {1024, 2048, 4096, 8192, 16384, 32768, 65536}"
proof -
  assume "k \<le> 6"
  then have "unat k \<in> {0, 1, 2, 3, 4, 5, 6}" by (auto simp: word_le_nat_alt)
  then show ?thesis by (auto simp: push_bit_eq_mult)
qed

lemma sat_decode: "sat (decode_ext4_disk_geometry super) geometry_wf"
proof (cases "length super = EXT4_SUPER_SIZE")
  case True
  then have le: "\<exists>v. read_le16 (drop n super) = Ok v" "\<exists>v. read_le32 (drop n super) = Ok v" if "n \<le> 1020" for n
    using that by (auto simp: EXT4_SUPER_SIZE_def intro!: read_le_defined)
  have "sat (read_le16 (drop n super)) (\<lambda>_. True)" "sat (read_le32 (drop n super)) (\<lambda>_. True)" if "n \<le> 1020" for n
    using le [OF that] by auto
  then show ?thesis
    unfolding decode_ext4_disk_geometry_def using block_sizes
    by (auto simp: geometry_wf_def not_less intro!: sat_mono [where P = "\<lambda>_. True"] simp del: insert_iff)
qed (simp add: decode_ext4_disk_geometry_def)

lemma safe_pread_loop [safe_step]: "(\<And>r. Q r) \<Longrightarrow> safe (pread_loop fd s) Q"
  by (rule safe_iterate [OF pread_loop.simps pread_less, where I = "\<lambda>_. True"])
     (auto intro!: safe_step simp: pread_turn_def)

lemma safe_read_geometry [safe_step]:
  assumes "Q None" "\<And>g. geometry_wf g \<Longrightarrow> Q (Some g)"
  shows "safe (read_ext4_disk_geometry fd) Q"
proof -
  have "safe (lift_cres (decode_ext4_disk_geometry super)) Q" for super
    using sat_decode [of super] assms by (cases "decode_ext4_disk_geometry super") (auto simp: lift_cres_def intro!: safe_step)
  with assms(1) show ?thesis
    unfolding read_ext4_disk_geometry_def by (intro safe_step) (auto intro!: safe_step split: option.split)
qed

lemma safe_preflight [safe_step]: "(\<And>r. Q r) \<Longrightarrow> safe (preflight_rootfs_growth_source cap) Q"
  unfolding preflight_rootfs_growth_source_def by (intro safe_step)

lemma safe_setup_rootfs [safe_step]: "(\<And>r. Q r) \<Longrightarrow> safe (setup_rootfs writable growth_session noinit_itable build_mode cap) Q"
  unfolding setup_rootfs_def mount_def by (intro safe_step; auto split: sum.split intro!: safe_step)

lemma safe_rootfs_reply [safe_step]:
  "client_wf c \<Longrightarrow> (\<And>ok c'. client_wf c' \<Longrightarrow> c_fd c' = c_fd c \<Longrightarrow> Q (ok, c')) \<Longrightarrow> safe (rootfs_reply c msg) Q"
  unfolding rootfs_reply_def by (intro safe_step) (auto simp: client_wf_def)

lemma safe_freeze_or_thaw [safe_step]:
  assumes "client_wf c" "\<And>ok c' br'. client_wf c' \<Longrightarrow> c_fd c' = c_fd c \<Longrightarrow> Q (ok, c', br')"
  shows "safe (freeze_or_thaw_rootfs c freeze br) Q"
  unfolding freeze_or_thaw_rootfs_def Let_def by (intro safe_step; auto intro!: safe_step assms)

lemma safe_fstatfs [safe_step]: "(\<And>r. Q r) \<Longrightarrow> safe (fstatfs fd) Q"
  unfolding fstatfs_def statfs_field_def by (intro safe_step)

lemma safe_resize_rootfs [safe_step]:
  assumes "client_wf c" "\<And>ok c'. client_wf c' \<Longrightarrow> c_fd c' = c_fd c \<Longrightarrow> Q (ok, c')"
  shows "safe (resize_rootfs c device_fd fs_fd device_bytes target_blocks before_disk) Q"
  unfolding resize_rootfs_def Let_def
  by (intro safe_step; auto intro!: safe_step assms simp: client_wf_offsets)

lemma safe_grow_rootfs [safe_step]:
  assumes "client_wf c" "\<And>ok c'. client_wf c' \<Longrightarrow> c_fd c' = c_fd c \<Longrightarrow> Q (ok, c')"
  shows "safe (grow_rootfs c) Q"
  unfolding grow_rootfs_def Let_def
  by (intro safe_step; auto intro!: safe_step assms simp: geometry_wf_def split: if_splits)

section \<open>What a report of a growth says\<close>



text \<open>C37. The ext4 super block is decoded without reading outside it, whatever the disk holds, and a decoded geometry
  has a block size that is a power of two between 1 KiB and 64 KiB and non-zero block counts: no later division by
  the block size can trap.\<close>

theorem decode_ext4_disk_geometry_sound:
  "decode_ext4_disk_geometry super \<noteq> UB \<and>
   (case decode_ext4_disk_geometry super of
      Ok g \<Rightarrow> g_blocks_count g \<noteq> 0 \<and> g_blocks_per_group g \<noteq> 0 \<and> (\<exists>k\<le>6. g_block_size g = 1024 * 2 ^ k)
    | _ \<Rightarrow> True)"
proof -
  have "\<exists>k\<le>6. b = 1024 * 2 ^ k" if "b \<in> {1024, 2048, 4096, 8192, 16384, 32768, 65536}" for b :: u32
  proof -
    from that have "b \<in> (\<lambda>k. 1024 * 2 ^ k) ` {0, 1, 2, 3, 4, 5, 6}" by simp
    then obtain k :: nat where "b = 1024 * 2 ^ k" "k \<in> {0, 1, 2, 3, 4, 5, 6}" by (rule imageE)
    then show ?thesis by (intro exI [of _ k]) auto
  qed
  with sat_decode [of super] show ?thesis
    by (cases "decode_ext4_disk_geometry super") (auto simp: geometry_wf_def)
qed

end
