(* ===== verification/Agent.thy ===== *)
theory Agent
  imports Request_Spec Detached Generation Rootfs
begin

text \<open>
  \<^verbatim>\<open>agent.c\<close>: the state of the agent, what it does with a request, one pass of its event loop, and the start as
  \<^verbatim>\<open>/init\<close>.  The loop itself is the reachability relation at the end.
\<close>

section \<open>State\<close>

text \<open>What the program is run with: the kernel's properties that a started command depends on, and build copy.\<close>

record guest =
  gu_machine :: machine
  gu_cap_last :: nat
  gu_ops :: build_ops

text \<open>The last two fields are the globals \<^verbatim>\<open>build_resolv\<close> and \<^verbatim>\<open>build_run_mount_cleanup_poisoned\<close>.\<close>

record agent =
  a_listener :: int
  a_use_rootfs :: bool
  a_rootfs_writable :: bool
  a_rootfs_growth_session :: bool
  a_rootfs_ready :: bool
  a_rootfs_error :: bytes
  a_build_context_requested :: bool
  a_build_context_ready :: bool
  a_build_context_error :: bytes
  a_build_input_count :: nat
  a_build_inputs_ready :: bool
  a_build_inputs_error :: bytes
  a_network_requested :: bool
  a_network_ready :: bool
  a_network_error :: bytes
  a_generation_root :: bytes
  a_session :: session
  a_client :: client
  a_detached :: detached_children
  a_generation :: generation_monitor
  a_op :: exec_op
  a_no_client :: client
  a_resolv :: build_resolv_state
  a_poisoned :: bool

definition zero_op :: exec_op where
  "zero_op = \<lparr>op_kind = EXEC_OP_NONE, op_session = zero_session, op_descendants_cleaned = False,
     op_cache_state = \<lparr>cs_cache_mounted = False, cs_cache_root_fd = 0, cs_mounts = []\<rparr>, op_bind_state = [], op_root = []\<rparr>"

definition init_agent :: agent where
  "init_agent = \<lparr>a_listener = 0, a_use_rootfs = False, a_rootfs_writable = False, a_rootfs_growth_session = False,
     a_rootfs_ready = False, a_rootfs_error = [], a_build_context_requested = False, a_build_context_ready = False,
     a_build_context_error = [], a_build_input_count = 0, a_build_inputs_ready = False, a_build_inputs_error = [],
     a_network_requested = False, a_network_ready = False, a_network_error = [], a_generation_root = [],
     a_session = zero_session\<lparr>s_stdin_fd := - 1, s_terminal_fd := - 1, s_stdout_fd := - 1, s_stderr_fd := - 1,
       s_memory_pressure_fd := - 1\<rparr>,
     a_client = fresh_client (- 1),
     a_detached = \<lparr>dc_pids = [], dc_retained_pid = - 1, dc_retained_stdout_fd = - 1, dc_retained_stderr_fd = - 1,
       dc_retained_exited = False, dc_retained_exit_code = 0, dc_retained_stdout_truncated = False,
       dc_retained_stderr_truncated = False, dc_retained_stdout = [], dc_retained_stderr = []\<rparr>,
     a_generation = \<lparr>gm_base = False, gm_last_generation = - 1, gm_unavailable = False\<rparr>,
     a_op = zero_op, a_no_client = fresh_client (- 1), a_resolv = zero_resolv, a_poisoned = False\<rparr>"

definition listen_vsock :: "u32 \<Rightarrow> int sysret io" where
  "listen_vsock port =
     iob (sys_num ''socket'' [40, 0x80001, 0] []) (\<lambda>r.
     case r of
       Inl e \<Rightarrow> ret (Inl e)
     | Inr fd \<Rightarrow>
         iob (sys_num ''bind_vsock'' [fd, 0xffffffff, uint port] []) (\<lambda>r.
         case r of
           Inl e \<Rightarrow> iob (sys_close fd) (\<lambda>_. ret (Inl e))
         | Inr _ \<Rightarrow>
             iob (sys_num ''listen'' [fd, 16] []) (\<lambda>r.
             case r of
               Inl e \<Rightarrow> iob (sys_close fd) (\<lambda>_. ret (Inl e))
             | Inr _ \<Rightarrow> ret (Inr fd))))"

section \<open>Answers to the client\<close>

definition hang_up :: "agent \<Rightarrow> agent io" where
  "hang_up a = iob (close_client (a_client a)) (\<lambda>c. ret (a\<lparr>a_client := c\<rparr>))"

definition refuse :: "agent \<Rightarrow> int \<Rightarrow> bytes \<Rightarrow> agent io" where
  "refuse a code msg = iob (send_client_error_exit (a_client a) code msg) (\<lambda>(_, c). hang_up (a\<lparr>a_client := c\<rparr>))"

definition succeed :: "agent \<Rightarrow> agent io" where
  "succeed a = iob (send_client_exit (a_client a) 0) (\<lambda>_. hang_up a)"

definition or_default :: "bytes \<Rightarrow> string \<Rightarrow> bytes" where
  "or_default err msg = (if err \<noteq> [] then err else lit msg @ [10])"

text \<open>The operations that need the root file system.\<close>

definition with_build_rootfs :: "agent \<Rightarrow> agent io \<Rightarrow> agent io" where
  "with_build_rootfs a m =
     (if \<not> a_use_rootfs a \<or> \<not> a_rootfs_ready a then refuse a 126 (or_default (a_rootfs_error a) ''spore build: rootfs unavailable'') else m)"

definition with_run_rootfs :: "agent \<Rightarrow> agent io \<Rightarrow> agent io" where
  "with_run_rootfs a m =
     (if a_use_rootfs a \<and> \<not> a_rootfs_ready a then refuse a 126 (or_default (a_rootfs_error a) ''spore run: rootfs unavailable'') else m)"

definition with_network :: "agent \<Rightarrow> agent io \<Rightarrow> agent io" where
  "with_network a m =
     (if a_network_requested a \<and> \<not> a_network_ready a then refuse a 126 (or_default (a_network_error a) ''spore run: network unavailable'') else m)"

section \<open>Requests\<close>

definition handle_copy :: "agent \<Rightarrow> run_request \<Rightarrow> agent io" where
  "handle_copy a request =
     with_run_rootfs a
       (let root = (if a_use_rootfs a \<and> a_rootfs_ready a then lit ''/mnt/rootfs'' else []) in
        iob (if r_kind request = REQUEST_COPY_IN then copy_in_file (a_client a) root (r_copy_path request)
             else copy_out_file (a_client a) root (r_copy_path request)) (\<lambda>(_, c).
        hang_up (a\<lparr>a_client := c\<rparr>)))"

definition ROOTFS :: bytes where "ROOTFS = lit ''/mnt/rootfs''"

definition run_with_mounts :: "guest \<Rightarrow> agent \<Rightarrow> run_request \<Rightarrow> bytes \<Rightarrow> agent io" where
  "run_with_mounts g a request command =
     iob (setup_build_cache_mounts (gu_ops g) request ROOTFS (a_build_context_requested a) (a_build_input_count a)) (\<lambda>(r, cache).
     let a = a\<lparr>a_op := (a_op a)\<lparr>op_cache_state := cache\<rparr>\<rparr> in
     case r of
       Some (msg, uncertain) \<Rightarrow>
         refuse (a\<lparr>a_poisoned := a_poisoned a \<or> uncertain\<rparr>) (if uncertain then 125 else 126) (or_default msg ''spore build: cache mount setup failed'')
     | None \<Rightarrow>
         iob (setup_build_context_binds (gu_ops g) request ROOTFS (a_build_context_requested a) (a_build_context_ready a)) (\<lambda>(r, binds).
         let a = a\<lparr>a_op := (a_op a)\<lparr>op_bind_state := binds\<rparr>\<rparr> in
         case r of
           Some (msg, uncertain) \<Rightarrow>
             iob (cleanup_build_cache_mounts (gu_ops g) cache ROOTFS) (\<lambda>(ok, cache).
             let a = a\<lparr>a_op := (a_op a)\<lparr>op_cache_state := cache\<rparr>, a_poisoned := a_poisoned a \<or> uncertain\<rparr> in
             if \<not> ok then
               iob (poison_build_run_mount_cleanup ''context bind setup cache rollback'') (\<lambda>poisoned.
               refuse (a\<lparr>a_poisoned := poisoned\<rparr>) 125 (lit ''spore build: RUN mount cleanup failed'' @ [10]))
             else refuse a (if uncertain then 125 else 126) (or_default msg ''spore build: context bind mount setup failed''))
         | None \<Rightarrow>
             iob (apply_resume_clock (r_resume_time_unix_ns request)) (\<lambda>_.
             iob (start_build_exec (gu_machine g) (gu_cap_last g) (gu_ops g) (a_op a) (a_client a) request command (a_use_rootfs a) ROOTFS
               (a_poisoned a)) (\<lambda>(op, c, poisoned). ret (a\<lparr>a_op := op, a_client := c, a_poisoned := poisoned\<rparr>)))))"

definition handle_build_run :: "guest \<Rightarrow> agent \<Rightarrow> run_request \<Rightarrow> agent io" where
  "handle_build_run g a request =
     with_build_rootfs a
       (if r_build_exec_form request then run_with_mounts g a request []
        else iob (read_build_command_from_spio (c_fd (a_client a)) (r_build_command_len request) (unat MAX_BUILD_RUN_COMMAND_LEN + 1)) (\<lambda>r.
          case r of
            Inl msg \<Rightarrow> refuse a 2 (or_default msg ''spore build: RUN command payload invalid'')
          | Inr command \<Rightarrow> run_with_mounts g a request command))"

definition apply_copy :: "guest \<Rightarrow> agent \<Rightarrow> run_request \<Rightarrow> bytes \<Rightarrow> agent io" where
  "apply_copy g a request source_root =
     iob (bo_copy_apply (gu_ops g) ROOTFS source_root request) (\<lambda>(exit_code, msg).
     if exit_code = 0 then succeed a else refuse a exit_code (or_default msg ''spore build: COPY apply failed''))"

definition handle_build_copy :: "guest \<Rightarrow> agent \<Rightarrow> run_request \<Rightarrow> agent io" where
  "handle_build_copy g a request =
     with_build_rootfs a
       (if r_copy_source_disk request = COPY_SOURCE_CONTEXT then
          if \<not> a_build_context_requested a \<or> \<not> a_build_context_ready a then
            refuse a 126 (or_default (a_build_context_error a) ''spore build: context disk unavailable'')
          else apply_copy g a request (snprintf 64 BUILD_CONTEXT_ROOT)
        else if \<not> a_build_inputs_ready a \<or> unat (r_copy_input_index request) \<ge> a_build_input_count a then
          refuse a 126 (or_default (a_build_inputs_error a) ''spore build: input disk unavailable'')
        else case fitting 64 (BUILD_INPUT_ROOT @ lit ''/'' @ dec (unat (r_copy_input_index request))) of
            None \<Rightarrow> refuse a 2 (lit ''spore build: input disk path is too long'' @ [10])
          | Some source_root \<Rightarrow> apply_copy g a request source_root)"

definition handle_workdir :: "guest \<Rightarrow> agent \<Rightarrow> run_request \<Rightarrow> agent io" where
  "handle_workdir g a request =
     with_build_rootfs a
       (iob (build_workdir_apply (gu_ops g) (a_client a) ROOTFS (r_working_dir request)) (\<lambda>(_, c). hang_up (a\<lparr>a_client := c\<rparr>)))"

definition handle_grow :: "agent \<Rightarrow> agent io" where
  "handle_grow a =
     with_build_rootfs a
       (if \<not> a_rootfs_writable a \<or> \<not> a_rootfs_growth_session a then refuse a 126 (lit ''spore build: rootfs growth is not enabled'' @ [10])
        else iob (grow_rootfs (a_client a)) (\<lambda>(_, c). hang_up (a\<lparr>a_client := c\<rparr>)))"

definition handle_freeze :: "agent \<Rightarrow> bool \<Rightarrow> agent io" where
  "handle_freeze a freeze =
     with_build_rootfs a
       (iob (freeze_or_thaw_rootfs (a_client a) freeze (a_resolv a)) (\<lambda>(_, c, br). hang_up (a\<lparr>a_client := c, a_resolv := br\<rparr>)))"

text \<open>The generation a request brings along.\<close>

definition with_generation :: "agent \<Rightarrow> run_request \<Rightarrow> (agent \<Rightarrow> agent io) \<Rightarrow> agent io" where
  "with_generation a request f =
     iob (apply_request_generation (a_generation a) (generation_root_path (a_use_rootfs a) (a_rootfs_ready a)) (r_generation_params request)) (\<lambda>(r, m).
     let a = a\<lparr>a_generation := m\<rparr> in
     case r of Some msg \<Rightarrow> refuse a 126 msg | None \<Rightarrow> f a)"

definition handle_detached :: "agent \<Rightarrow> run_request \<Rightarrow> agent io" where
  "handle_detached a request =
     iob (start_detached (r_argv request) (r_envp request) (r_working_dir request) (a_use_rootfs a) (r_retain_output request) (a_detached a)) (\<lambda>(rc, d).
     let a = a\<lparr>a_detached := d\<rparr> in
     if rc \<noteq> 0 then refuse a rc (lit ''spore run: exec setup failed'' @ [10]) else succeed a)"

definition attach :: "agent \<Rightarrow> run_request \<Rightarrow> agent io" where
  "attach a request =
     iob (attach_client (a_session a) (a_client a) (r_stdout_offset request) (r_stderr_offset request)) (\<lambda>(_, s, c).
     ret (a\<lparr>a_session := s, a_client := c\<rparr>))"

definition start_new :: "guest \<Rightarrow> agent \<Rightarrow> run_request \<Rightarrow> agent io" where
  "start_new g a request =
     (let options = \<lparr>o_use_rootfs = a_use_rootfs a, o_memory_pressure = r_memory_pressure request, o_build_run_isolation = False,
          o_exec_lookup = EXEC_LOOKUP_PATH, o_nofile_soft = 0, o_nofile_hard = 0, o_stdin_enabled = r_stdin_enabled request,
          o_tty = r_tty request, o_terminal_rows = r_terminal_rows request, o_terminal_cols = r_terminal_cols request\<rparr> in
      iob (start_session (gu_machine g) (gu_cap_last g) (r_session_id request) (r_argv request) (r_envp request) (r_working_dir request) options)
        (\<lambda>(rc, s).
        let a = a\<lparr>a_session := s\<rparr> in
        if rc \<noteq> 0 then refuse a rc (lit ''spore run: exec setup failed'' @ [10])
        else ret (a\<lparr>a_client := (a_client a)\<lparr>c_stdout_offset := 0, c_stderr_offset := 0\<rparr>\<rparr>)))"

definition start_command :: "guest \<Rightarrow> agent \<Rightarrow> run_request \<Rightarrow> agent io" where
  "start_command g a request =
     iob (apply_resume_clock (r_resume_time_unix_ns request)) (\<lambda>_.
     if r_detached request then handle_detached a request
     else if s_started (a_session a) then
       if r_session_id request = s_session_id (a_session a) then attach a request
       else if \<not> session_finished (a_session a) then
         iob (start_transient_exec (gu_machine g) (gu_cap_last g) (a_op a) (a_client a) request (a_use_rootfs a)) (\<lambda>(op, c).
         ret (a\<lparr>a_op := op, a_client := c\<rparr>))
       else iob (reset_session (a_session a)) (\<lambda>s. start_new g (a\<lparr>a_session := s\<rparr>) request)
     else start_new g a request)"

definition handle_start :: "guest \<Rightarrow> agent \<Rightarrow> run_request \<Rightarrow> agent io" where
  "handle_start g a request =
     with_run_rootfs a (with_network a
       (if r_generation_params request \<noteq> [] then with_generation a request (\<lambda>a. start_command g a request)
        else if r_require_generation_ready request then
          iob (ensure_generation_ready (a_generation a) (a_generation_root a)) (\<lambda>(ok, m).
          let a = a\<lparr>a_generation := m\<rparr> in
          if \<not> ok then refuse a 126 (lit ''spore run: generation metadata unavailable'' @ [10]) else start_command g a request)
        else start_command g a request))"

definition attach_session :: "agent \<Rightarrow> run_request \<Rightarrow> agent io" where
  "attach_session a request =
     (let s = a_session a in
      if r_stdin_enabled request then
        if \<not> s_stdin_capable s then refuse a 2 (lit ''spore run: captured session has no interactive stdin'' @ [10])
        else if \<not> s_stdin_open s then refuse a 2 (lit ''spore run: captured session stdin is closed'' @ [10])
        else attach a request
      else if r_tty request then
        if \<not> s_tty s then refuse a 2 (lit ''spore run: captured session has no terminal'' @ [10])
        else if r_interactive request \<and> s_terminal_fd s < 0 then refuse a 2 (lit ''spore run: captured session terminal is closed'' @ [10])
        else iob (if s_terminal_fd s \<ge> 0 then apply_terminal_size (s_terminal_fd s) (r_terminal_rows request) (r_terminal_cols request)
                  else ret True) (\<lambda>_.
          if s_exited s \<and> \<not> s_stdout_open s then iob (send_client_exit (a_client a) (s_exit_code s)) (\<lambda>_. hang_up a)
          else ret a)
      else attach a request)"

definition handle_attach :: "agent \<Rightarrow> run_request \<Rightarrow> agent io" where
  "handle_attach a request =
     (if \<not> s_started (a_session a) \<or> r_session_id request \<noteq> s_session_id (a_session a) then
        refuse a 2 (lit ''spore run: no session'' @ [10])
      else if r_generation_params request \<noteq> [] then
        with_run_rootfs a (with_generation a request (\<lambda>a. attach_session a request))
      else attach_session a request)"

definition handle_request :: "guest \<Rightarrow> agent \<Rightarrow> run_request \<Rightarrow> agent io" where
  "handle_request g a request =
     (if a_poisoned a then refuse a 125 (lit ''spore build: prior RUN mount cleanup failed'' @ [10])
      else case r_kind request of
          REQUEST_READY \<Rightarrow> with_run_rootfs a (with_network a (succeed a))
        | REQUEST_INITIAL_OUTPUT \<Rightarrow>
            iob (send_retained_output (a_client a) (a_detached a)) (\<lambda>(_, c, d). hang_up (a\<lparr>a_client := c, a_detached := d\<rparr>))
        | REQUEST_COPY_IN \<Rightarrow> handle_copy a request
        | REQUEST_COPY_OUT \<Rightarrow> handle_copy a request
        | REQUEST_BUILD_RUN \<Rightarrow> handle_build_run g a request
        | REQUEST_BUILD_COPY \<Rightarrow> handle_build_copy g a request
        | REQUEST_BUILD_WORKDIR \<Rightarrow> handle_workdir g a request
        | REQUEST_ROOTFS_GROW \<Rightarrow> handle_grow a
        | REQUEST_FSFREEZE \<Rightarrow> handle_freeze a True
        | REQUEST_FSTHAW \<Rightarrow> handle_freeze a False
        | REQUEST_START \<Rightarrow> handle_start g a request
        | REQUEST_ATTACH \<Rightarrow> handle_attach a request)"

text \<open>The accepted connection replaces the client; a rejected one is answered beside it.\<close>

definition take_client :: "agent \<Rightarrow> int \<Rightarrow> run_request \<Rightarrow> agent io" where
  "take_client a conn request =
     iob (close_client (a_client a)) (\<lambda>c.
     let c = c\<lparr>c_fd := conn\<rparr>;
         c = (if r_kind request = REQUEST_ATTACH then c\<lparr>c_stdout_offset := r_stdout_offset request, c_stderr_offset := r_stderr_offset request\<rparr> else c)
     in ret (a\<lparr>a_client := c\<lparr>c_stdin_input_owner := r_stdin_enabled request,
          c_terminal_input_owner := r_tty request \<and> (r_kind request = REQUEST_START \<or> r_interactive request)\<rparr>\<rparr>))"

definition reject :: "agent \<Rightarrow> int \<Rightarrow> agent io" where
  "reject a conn =
     iob (send_client_error_exit (fresh_client conn) 2 (lit ''spore run: bad request'' @ [10])) (\<lambda>_.
     iob (sys_close conn) (\<lambda>_. ret a))"

definition serve_connection :: "guest \<Rightarrow> agent \<Rightarrow> int \<Rightarrow> agent io" where
  "serve_connection g a conn =
     iob (iob now_ms (\<lambda>t. modify (\<lambda>w. w\<lparr>w_t_request_accept := t\<rparr>))) (\<lambda>_.
     iob (read_line conn MAX_REQUEST) (\<lambda>r.
     case r of
       Line line \<Rightarrow>
         if line = [] then iob (sys_close conn) (\<lambda>_. ret a)
         else iob (iob now_ms (\<lambda>t. modify (\<lambda>w. w\<lparr>w_t_request_decode := t\<rparr>))) (\<lambda>_.
           case parse_request (line @ [0]) (length line) of
             UB \<Rightarrow> undef
           | Bad \<Rightarrow> reject a conn
           | Ok request \<Rightarrow> iob (take_client a conn request) (\<lambda>a. handle_request g a request))
     | _ \<Rightarrow> iob (sys_close conn) (\<lambda>_. ret a)))"

definition accept_request :: "guest \<Rightarrow> agent \<Rightarrow> agent io" where
  "accept_request g a =
     iob (sys_num ''accept4'' [a_listener a, 0x80000] []) (\<lambda>r.
     case r of
       Inl e \<Rightarrow>
         if e \<noteq> EAGAIN \<and> e \<noteq> EINTR then iob (dprintf 2 (lit ''accept failed: errno='' @ dec e @ [10])) (\<lambda>_. ret a) else ret a
     | Inr conn \<Rightarrow> serve_connection g a conn)"

section \<open>One pass of the event loop\<close>

text \<open>The session with the client its output goes to: none while an exec operation holds the client.\<close>

definition with_session :: "agent \<Rightarrow> (session \<Rightarrow> client \<Rightarrow> (session \<times> client) io) \<Rightarrow> agent io" where
  "with_session a f =
     (if op_kind (a_op a) = EXEC_OP_NONE then iob (f (a_session a) (a_client a)) (\<lambda>(s, c). ret (a\<lparr>a_session := s, a_client := c\<rparr>))
      else iob (f (a_session a) (a_no_client a)) (\<lambda>(s, c). ret (a\<lparr>a_session := s, a_no_client := c\<rparr>)))"

definition with_op_session :: "agent \<Rightarrow> (session \<Rightarrow> client \<Rightarrow> (session \<times> client) io) \<Rightarrow> agent io" where
  "with_op_session a f =
     iob (f (op_session (a_op a)) (a_client a)) (\<lambda>(s, c). ret (a\<lparr>a_op := (a_op a)\<lparr>op_session := s\<rparr>, a_client := c\<rparr>))"

text \<open>The poll set: descriptor, events and role.\<close>

definition poll_set :: "agent \<Rightarrow> int \<Rightarrow> (int \<times> u16 \<times> nat) list" where
  "poll_set a sigchld_fd =
     (let s = a_session a; op = a_op a; d = a_detached a in
      (if op_kind op = EXEC_OP_NONE then [(a_listener a, POLLIN, 0)] else []) @
      (if c_fd (a_client a) \<ge> 0 then
         [(c_fd (a_client a), if op_kind op = EXEC_OP_BUILD_RUN then POLLHUP OR POLLERR else POLLIN OR POLLHUP OR POLLERR, 1)] else []) @
      add_session_output_fds s 2 @
      [(sigchld_fd, POLLIN, 4)] @
      (if s_memory_pressure_fd s \<ge> 0 then [(s_memory_pressure_fd s, POLLPRI OR POLLERR, 5)] else []) @
      (if s_stdin_open s \<and> s_stdin_pending s \<noteq> [] then [(s_stdin_fd s, POLLOUT OR POLLERR, 6)] else []) @
      (if dc_retained_stdout_fd d \<ge> 0 then [(dc_retained_stdout_fd d, POLLIN OR POLLHUP OR POLLERR, 7)] else []) @
      (if dc_retained_stderr_fd d \<ge> 0 then [(dc_retained_stderr_fd d, POLLIN OR POLLHUP OR POLLERR, 8)] else []) @
      (if op_kind op \<noteq> EXEC_OP_NONE then
         add_session_output_fds (op_session op) 9 @
         (if s_stdin_open (op_session op) \<and> s_stdin_pending (op_session op) \<noteq> [] then [(s_stdin_fd (op_session op), POLLOUT OR POLLERR, 11)] else [])
       else []))"

definition client_event :: "agent \<Rightarrow> u16 \<Rightarrow> agent io" where
  "client_event a revents =
     iob (if revents AND POLLIN \<noteq> 0 \<and> op_kind (a_op a) \<noteq> EXEC_OP_BUILD_RUN then
            if op_kind (a_op a) = EXEC_OP_TRANSIENT then with_op_session a pump_client_v1
            else iob (pump_client_v1 (a_session a) (a_client a)) (\<lambda>(s, c). ret (a\<lparr>a_session := s, a_client := c\<rparr>))
          else ret a) (\<lambda>a.
     if revents AND (POLLHUP OR POLLERR) \<noteq> 0 then hang_up a else ret a)"

definition reap :: "agent \<Rightarrow> agent io" where
  "reap a = iob (reap_detached_children (a_detached a)) (\<lambda>d. ret (a\<lparr>a_detached := d\<rparr>))"

definition drain_retained :: "agent \<Rightarrow> agent io" where
  "drain_retained a = iob (drain_retained_output (a_detached a)) (\<lambda>d. ret (a\<lparr>a_detached := d\<rparr>))"

definition handle_event :: "guest \<Rightarrow> agent \<Rightarrow> int \<Rightarrow> nat \<Rightarrow> u16 \<Rightarrow> agent io" where
  "handle_event g a fd role revents =
     (if revents = 0 then ret a
      else if role = 0 \<and> revents AND POLLIN \<noteq> 0 then accept_request g a
      else if role = 1 \<and> fd = c_fd (a_client a) then client_event a revents
      else if role = 2 \<or> role = 3 then with_session a (\<lambda>s c. pump_session_output s c (role = 2) revents)
      else if role = 4 then iob drain_sigchld_wakeup (\<lambda>_. reap a)
      else if role = 5 \<and> revents AND (POLLPRI OR POLLERR) \<noteq> 0 then with_session a maybe_send_memory_pressure
      else if role = 6 then iob (drain_session_stdin (a_session a)) (\<lambda>s. ret (a\<lparr>a_session := s\<rparr>))
      else if role = 7 \<or> role = 8 then drain_retained a
      else if role = 9 \<or> role = 10 then with_op_session a (\<lambda>s c. pump_session_output s c (role = 9) revents)
      else if role = 11 then
        iob (drain_session_stdin (op_session (a_op a))) (\<lambda>s. ret (a\<lparr>a_op := (a_op a)\<lparr>op_session := s\<rparr>\<rparr>))
      else ret a)"

fun handle_events :: "guest \<Rightarrow> agent \<Rightarrow> ((int \<times> u16 \<times> nat) \<times> u16) list \<Rightarrow> agent io" where
  "handle_events g a [] = ret a"
| "handle_events g a (((fd, events, role), revents) # es) = iob (handle_event g a fd role revents) (\<lambda>a. handle_events g a es)"

definition session_exit :: "session \<Rightarrow> client \<Rightarrow> (session \<times> client) io" where
  "session_exit s c = iob (poll_session_exit s c) (\<lambda>(s, c). iob (maybe_send_session_exit s c) (\<lambda>c. ret (s, c)))"

definition step_op :: "guest \<Rightarrow> agent \<Rightarrow> agent io" where
  "step_op g a =
     (if op_kind (a_op a) = EXEC_OP_TRANSIENT then with_op_session a session_exit
      else iob (gets w_proc_dir_fd) (\<lambda>proc.
        iob (step_build_exec (gu_ops g) proc (a_op a) (a_client a) (a_poisoned a)) (\<lambda>(op, c, p).
        ret (a\<lparr>a_op := op, a_client := c, a_poisoned := p\<rparr>))))"

definition finish_op :: "guest \<Rightarrow> agent \<Rightarrow> agent io" where
  "finish_op g a =
     iob (if op_kind (a_op a) = EXEC_OP_TRANSIENT then
            iob (finish_transient_exec (a_op a) (a_client a)) (\<lambda>(op, c). ret (a\<lparr>a_op := op, a_client := c\<rparr>))
          else iob (gets w_proc_dir_fd) (\<lambda>proc.
            iob (finish_build_exec (gu_ops g) proc (a_op a) (a_client a) (a_poisoned a)) (\<lambda>(op, c, p).
            ret (a\<lparr>a_op := op, a_client := c, a_poisoned := p\<rparr>)))) (\<lambda>a.
     ret (a\<lparr>a_op := (a_op a)\<lparr>op_kind := EXEC_OP_NONE\<rparr>\<rparr>))"

text \<open>What follows the events of a pass.\<close>

definition after_events :: "guest \<Rightarrow> agent \<Rightarrow> agent io" where
  "after_events g a =
     iob (iob (drain_session_stdin (a_session a)) drain_session_terminal) (\<lambda>s.
     iob (with_session (a\<lparr>a_session := s\<rparr>) session_exit) (\<lambda>a.
     if op_kind (a_op a) = EXEC_OP_NONE then ret a
     else iob (step_op g a) (\<lambda>a.
       if c_fd (a_client a) \<ge> 0 \<and> \<not> session_finished (op_session (a_op a)) then ret a
       else finish_op g a)))"

definition before_poll :: "agent \<Rightarrow> agent io" where
  "before_poll a =
     iob (reap a) (\<lambda>a.
     iob (drain_retained a) (\<lambda>a.
     if \<not> a_use_rootfs a \<or> a_rootfs_ready a then
       iob (poll_generation (a_generation a) (a_generation_root a)) (\<lambda>(_, m). ret (a\<lparr>a_generation := m\<rparr>))
     else ret a))"

definition poll_agent :: "guest \<Rightarrow> agent \<Rightarrow> agent io" where
  "poll_agent g a =
     iob (before_poll a) (\<lambda>a.
     iob (gets w_sigchld_pipe) (\<lambda>pipe.
     let fds = poll_set a (fst pipe) in
     if length fds > 13 then undef
     else iob (sys_poll (map (\<lambda>(fd, events, role). (fd, events)) fds) 100) (\<lambda>r.
       case r of
         Inl e \<Rightarrow> if e \<noteq> EINTR then ret a else after_events g a
       | Inr rs \<Rightarrow> iob (handle_events g a (zip fds rs)) (after_events g))))"

section \<open>Start\<close>

definition FD_BUDGET :: u64 where "FD_BUDGET = 65536 + 256"

text \<open>The two limits are answers of one call each.\<close>

definition getrlimit_nofile :: "(u64 \<times> u64) option io" where
  "getrlimit_nofile =
     iob (sys_num ''getrlimit_cur'' [] []) (\<lambda>r.
     case r of
       Inl e \<Rightarrow> ret None
     | Inr cur \<Rightarrow> iob (sys_num ''getrlimit_max'' [] []) (\<lambda>r. case r of Inl e \<Rightarrow> block | Inr limit \<Rightarrow> ret (Some (word_of_int cur, word_of_int limit))))"

definition ensure_fd_budget :: "bool io" where
  "ensure_fd_budget =
     iob getrlimit_nofile (\<lambda>r.
     case r of
       None \<Rightarrow> ret False
     | Some (cur, limit) \<Rightarrow>
         if cur \<ge> FD_BUDGET then ret True
         else iob (sys_num ''setrlimit_nofile''
             [uint FD_BUDGET, uint (if limit \<noteq> - 1 \<and> limit < FD_BUDGET then FD_BUDGET else limit)] []) (\<lambda>r.
           if r \<noteq> Inr 0 then ret False
           else iob getrlimit_nofile (\<lambda>r. ret (case r of None \<Rightarrow> False | Some (cur, _) \<Rightarrow> cur \<ge> FD_BUDGET))))"

text \<open>A part of the setup that may fail: whether it is ready, and the error as the client will see it.\<close>

definition setup_part :: "nat \<Rightarrow> unit res io \<Rightarrow> (bool \<times> bytes) io" where
  "setup_part cap m =
     iob m (\<lambda>r.
     case r of
       Inr _ \<Rightarrow> ret (True, [])
     | Inl msg \<Rightarrow> iob (dprintf 2 (msg @ [10])) (\<lambda>_. ret (False, if length msg + 1 < cap then msg @ [10] else msg)))"

definition setup_inputs :: "nat option \<Rightarrow> bool \<Rightarrow> (bool \<times> bytes \<times> nat) io" where
  "setup_inputs inputs has_context =
     (case inputs of
        None \<Rightarrow> ret (False, lit ''invalid build input count'', 0)
      | Some n \<Rightarrow>
          iob (if n > 0 then setup_part 192 (setup_build_inputs n has_context 192) else ret (True, [])) (\<lambda>(ok, msg). ret (ok, msg, n)))"

definition boot_listener :: "bytes \<Rightarrow> int option io" where
  "boot_listener cmdline =
     iob (listen_vsock (resolve_port_from_cmdline cmdline)) (\<lambda>r.
     case r of
       Inl e \<Rightarrow> iob (dprintf 2 (lit ''listen vsock failed: errno='' @ dec e @ [10])) (\<lambda>_. ret None)
     | Inr listener \<Rightarrow>
         iob (set_nonblock listener) (\<lambda>_.
         iob (iob now_ms (\<lambda>t. modify (\<lambda>w. w\<lparr>w_t_listen_ready := t\<rparr>))) (\<lambda>_. ret (Some listener))))"

text \<open>What is set up once the listener is there, up to the first pass of the loop.\<close>

definition boot_parts :: "bytes \<Rightarrow> int \<Rightarrow> agent option io" where
  "boot_parts cmdline listener =
     (let use_rootfs = cmdline_has_flag_in cmdline ''spore_rootfs=1'';
          writable = cmdline_has_flag_in cmdline ''spore_rootfs_rw=1'';
          growth = cmdline_has_flag_in cmdline ''spore_rootfs_growth=1'';
          noinit = cmdline_has_flag_in cmdline ''spore_rootfs_noinit_itable=1'';
          use_context = cmdline_has_flag_in cmdline ''spore_build_context=1'';
          build_mode = cmdline_has_flag_in cmdline ''spore_build=1'';
          use_network = cmdline_has_flag_in cmdline ''spore_net=1'' in
      iob (if use_rootfs then setup_part 128 (setup_rootfs writable growth noinit build_mode 128) else ret (True, [])) (\<lambda>(rootfs_ready, rootfs_error).
      iob (if use_context then setup_part 160 (setup_build_context 160) else ret (True, [])) (\<lambda>(context_ready, context_error).
      iob (setup_inputs (resolve_build_input_count cmdline) use_context) (\<lambda>(inputs_ready, inputs_error, inputs).
      iob (if use_network then
             iob (setup_network use_rootfs build_mode 160 zero_resolv) (\<lambda>(r, br).
             iob (setup_part 160 (ret r)) (\<lambda>(ok, msg). ret (ok, msg, br)))
           else ret (True, [], zero_resolv)) (\<lambda>(network_ready, network_error, br).
      iob setup_sigchld_wakeup (\<lambda>ok.
      if \<not> ok then iob stale_errno (\<lambda>e. iob (dprintf 2 (lit ''sigchld wakeup setup failed: errno='' @ dec e @ [10])) (\<lambda>_. ret None))
      else ret (Some (init_agent\<lparr>a_listener := listener, a_use_rootfs := use_rootfs, a_rootfs_writable := writable,
        a_rootfs_growth_session := growth, a_rootfs_ready := rootfs_ready, a_rootfs_error := rootfs_error,
        a_build_context_requested := use_context, a_build_context_ready := context_ready, a_build_context_error := context_error,
        a_build_input_count := inputs, a_build_inputs_ready := inputs_ready, a_build_inputs_error := inputs_error,
        a_network_requested := use_network, a_network_ready := network_ready, a_network_error := network_error,
        a_generation_root := generation_root_path use_rootfs rootfs_ready, a_resolv := br\<rparr>))))))))"

text \<open>\<^verbatim>\<open>main\<close> up to its loop: \<open>None\<close> is the exit with status 1.\<close>

definition agent_main :: "agent option io" where
  "agent_main =
     iob (iob now_ms (\<lambda>t. modify (\<lambda>w. w\<lparr>w_t_init_start := t\<rparr>))) (\<lambda>_.
     iob mount_proc (\<lambda>_.
     iob (sys_num ''open'' [0x90000] [lit ''/proc'']) (\<lambda>r.
     case r of
       Inl e \<Rightarrow> iob (dprintf 2 (lit ''open proc failed: errno='' @ dec e @ [10])) (\<lambda>_. ret None)
     | Inr proc \<Rightarrow>
         iob (modify (\<lambda>w. w\<lparr>w_proc_dir_fd := proc\<rparr>)) (\<lambda>_.
         iob mount_sysfs (\<lambda>_.
         iob (mount_cgroup2_if_dir (lit ''/sys/fs/cgroup'')) (\<lambda>_.
         iob prepare_dev (\<lambda>_.
         iob (mkdir ''/run'' 0x1ed) (\<lambda>_.
         iob (read_cmdline 1024) (\<lambda>cmdline.
         iob (if cmdline_has_flag_in cmdline ''spore_build=1'' then ensure_fd_budget else ret True) (\<lambda>ok.
         if \<not> ok then iob stale_errno (\<lambda>e.
           iob (dprintf 2 (lit ''build agent fd budget unavailable: required='' @ dec (unat FD_BUDGET) @ lit '' errno='' @ dec e @ [10])) (\<lambda>_. ret None))
         else
           iob (modify (\<lambda>w. w\<lparr>w_console_mirror := cmdline_has_flag_in cmdline ''spore_console_mirror=1''\<rparr>)) (\<lambda>_.
           iob (boot_listener cmdline) (\<lambda>l.
           case l of None \<Rightarrow> ret None | Some listener \<Rightarrow> boot_parts cmdline listener))))))))))))"

text \<open>The states at the head of the loop, with the world they meet.\<close>

inductive reach :: "guest \<Rightarrow> agent \<Rightarrow> world \<Rightarrow> bool" for g where
  booted: "agent_main w = (Ret (Some a), w') \<Longrightarrow> reach g a w'"
| passed: "reach g a w \<Longrightarrow> poll_agent g a w = (Ret a', w') \<Longrightarrow> reach g a' w'"

end
