(* ===== verification/Agent_Safe.thy ===== *)
theory Agent_Safe
  imports Agent
begin

text \<open>
  The invariant of the event loop: every state the agent reaches is well formed, the next pass does nothing undefined,
  and the client, the session and the exec operation are related as the loop promises.
\<close>

section \<open>Well-formed agents\<close>

definition agent_wf :: "agent \<Rightarrow> bool" where
  "agent_wf a \<longleftrightarrow> session_wf (a_session a) \<and> session_quiet (a_session a) \<and> client_wf (a_client a) \<and> client_wf (a_no_client a) \<and>
     op_wf (a_op a) \<and> detached_wf (a_detached a)"

lemma agent_wf_simps [simp]:
  assumes "agent_wf a"
  shows "agent_wf (a\<lparr>a_client := c\<rparr>) = client_wf c" "agent_wf (a\<lparr>a_no_client := c\<rparr>) = client_wf c"
    "agent_wf (a\<lparr>a_session := s\<rparr>) = (session_wf s \<and> session_quiet s)" "agent_wf (a\<lparr>a_op := op\<rparr>) = op_wf op"
    "agent_wf (a\<lparr>a_detached := d\<rparr>) = detached_wf d" "agent_wf (a\<lparr>a_generation := m\<rparr>)"
    "agent_wf (a\<lparr>a_resolv := br\<rparr>)" "agent_wf (a\<lparr>a_poisoned := p\<rparr>)"
  using assms by (auto simp: agent_wf_def)

lemma agent_wfD [simp]:
  assumes "agent_wf a"
  shows "session_wf (a_session a)" "session_quiet (a_session a)" "client_wf (a_client a)" "client_wf (a_no_client a)"
    "op_wf (a_op a)" "detached_wf (a_detached a)" "session_wf (op_session (a_op a))" "session_quiet (op_session (a_op a))"
  using assms by (auto simp: agent_wf_def op_wf_def)

lemma kept_agent:
  "kept (a_session a) s \<Longrightarrow> agent_wf a \<Longrightarrow> session_quiet s" "kept (op_session (a_op a)) s \<Longrightarrow> agent_wf a \<Longrightarrow> session_quiet s"
  by (auto elim: kept_quiet)

lemma op_wf_states [simp]:
  "op_wf (op\<lparr>op_cache_state := cs\<rparr>) = op_wf op" "op_wf (op\<lparr>op_bind_state := bs\<rparr>) = op_wf op"
  by (simp_all add: op_wf_def)

text \<open>What a request that was accepted guarantees to the handlers.\<close>

definition request_ready :: "run_request \<Rightarrow> bool" where
  "request_ready r \<longleftrightarrow>
     0 \<notin> set (r_generation_params r) \<and> length (r_cache_mounts r) \<le> MAX_BUILD_CACHE_MOUNTS \<and>
     length (r_context_binds r) \<le> MAX_BUILD_CONTEXT_BINDS \<and>
     (r_kind r = REQUEST_START \<longrightarrow> r_argv r \<noteq> []) \<and> (r_kind r = REQUEST_BUILD_RUN \<and> r_build_exec_form r \<longrightarrow> r_argv r \<noteq> [])"

lemma accepted_ready:
  assumes "parse_request (line @ [0]) (length line) = Ok r"
  shows "request_ready r"
proof -
  from parse_request_validated [OF assms] obtain out where v: "validate_request out = Ok r" and wf: "request_wf r" by blast
  have kind: "r_kind out = r_kind r" by (simp add: validate_request_kind [OF v])
  have "r_argv r \<noteq> []" if "r_kind r = REQUEST_START"
  proof -
    from that have k: "r_kind out = REQUEST_START" by (simp add: kind)
    from v have "r_argv out \<noteq> []" "r = apply_exec_stdio out"
      by (simp_all add: validate_request_def k split: if_split_asm)
    then show ?thesis by (simp add: apply_exec_stdio_def)
  qed
  moreover have "r_argv r \<noteq> []" if "r_kind r = REQUEST_BUILD_RUN" "r_build_exec_form r"
  proof -
    from that have k: "r_kind out = REQUEST_BUILD_RUN" by (simp add: kind)
    from v have "validate_build_run_request out = Ok r" by (simp add: validate_request_def k)
    from validate_build_run_Ok [OF this] that(2) show ?thesis by blast
  qed
  moreover from wf have "0 \<notin> set (r_generation_params r)" "length (r_cache_mounts r) \<le> MAX_BUILD_CACHE_MOUNTS"
      "length (r_context_binds r) \<le> MAX_BUILD_CONTEXT_BINDS"
    by (simp_all add: request_wf_def fits_def cache_mounts_ok_def context_binds_ok_def)
  ultimately show ?thesis unfolding request_ready_def by blast
qed

section \<open>Handlers\<close>

lemma safe_hang_up [safe_step]:
  "agent_wf a \<Longrightarrow> (\<And>a'. agent_wf a' \<Longrightarrow> Q a') \<Longrightarrow> safe (hang_up a) Q"
  unfolding hang_up_def by (intro safe_step) simp

lemma safe_hang_up_client [safe_step]:
  "agent_wf a \<Longrightarrow> (\<And>a'. agent_wf a' \<Longrightarrow> Q a') \<Longrightarrow> safe (hang_up (a\<lparr>a_client := c\<rparr>)) Q"
  unfolding hang_up_def by (intro safe_step) simp

lemma safe_answers [safe_step]:
  assumes "agent_wf a" "\<And>a'. agent_wf a' \<Longrightarrow> Q a'"
  shows "safe (refuse a code msg) Q" "safe (succeed a) Q"
  unfolding refuse_def succeed_def using assms(1) by (intro safe_step; auto intro!: safe_step assms(2))+

lemma safe_guards [safe_step]:
  assumes "agent_wf a" "\<And>a'. agent_wf a' \<Longrightarrow> Q a'" "safe m Q"
  shows "safe (with_build_rootfs a m) Q" "safe (with_run_rootfs a m) Q" "safe (with_network a m) Q"
  unfolding with_build_rootfs_def with_run_rootfs_def with_network_def
  by (auto intro!: safe_step assms)

lemma safe_handle_copy [safe_step]:
  assumes "agent_wf a" "\<And>a'. agent_wf a' \<Longrightarrow> Q a'"
  shows "safe (handle_copy a request) Q"
  unfolding handle_copy_def Let_def using assms(1)
  by (intro safe_step assms(2)) (auto intro!: safe_step assms(2))

lemma safe_run_with_mounts [safe_step]:
  assumes "ops_safe (gu_ops g)" "request_ready request" "r_kind request = REQUEST_BUILD_RUN" "agent_wf a" "\<And>a'. agent_wf a' \<Longrightarrow> Q a'"
  shows "safe (run_with_mounts g a request command) Q"
  unfolding run_with_mounts_def Let_def using assms(2-4)
  by (auto intro!: safe_step safe_setup_build_cache_mounts [OF assms(1)] safe_setup_build_context_binds [OF assms(1)]
      safe_cleanup_build_cache_mounts [OF assms(1)] safe_start_build_exec [OF assms(1)] assms(5) simp: request_ready_def)

lemma safe_handle_build_run [safe_step]:
  assumes "ops_safe (gu_ops g)" "request_ready request" "r_kind request = REQUEST_BUILD_RUN" "agent_wf a" "\<And>a'. agent_wf a' \<Longrightarrow> Q a'"
  shows "safe (handle_build_run g a request) Q"
  unfolding handle_build_run_def by (intro safe_step safe_read_build_command_from_spio assms)

lemma safe_handle_build_copy [safe_step]:
  assumes "ops_safe (gu_ops g)" "agent_wf a" "\<And>a'. agent_wf a' \<Longrightarrow> Q a'"
  shows "safe (handle_build_copy g a request) Q"
proof -
  have "safe (apply_copy g a request source) Q" for source
    unfolding apply_copy_def by (intro safe_step safe_ops [OF assms(1)]) (auto intro!: safe_step assms)
  then show ?thesis
    unfolding handle_build_copy_def by (intro safe_step assms)
qed

lemma safe_handle_rootfs [safe_step]:
  assumes "agent_wf a" "\<And>a'. agent_wf a' \<Longrightarrow> Q a'"
  shows "ops_safe (gu_ops g) \<Longrightarrow> safe (handle_workdir g a request) Q" "safe (handle_grow a) Q" "safe (handle_freeze a freeze) Q"
  unfolding handle_workdir_def handle_grow_def handle_freeze_def using assms(1)
  by (intro safe_step safe_build_workdir_apply assms(2); auto intro!: safe_step assms(2))+

lemma safe_with_generation:
  assumes "agent_wf a" "request_ready request" "\<And>a'. agent_wf a' \<Longrightarrow> Q a'" "\<And>a'. agent_wf a' \<Longrightarrow> safe (f a') Q"
  shows "safe (with_generation a request f) Q"
  unfolding with_generation_def Let_def using assms(1,2)
  by (intro safe_step) (auto intro!: safe_step assms(3,4) simp: request_ready_def)

lemma safe_handle_detached [safe_step]:
  assumes "r_argv request \<noteq> []" "agent_wf a" "\<And>a'. agent_wf a' \<Longrightarrow> Q a'"
  shows "safe (handle_detached a request) Q"
  unfolding handle_detached_def Let_def using assms(1,2)
  by (intro safe_step) (auto intro!: safe_step assms(3))

lemma safe_attach [safe_step]:
  assumes "agent_wf a" "\<And>a'. agent_wf a' \<Longrightarrow> Q a'"
  shows "safe (attach a request) Q"
  unfolding attach_def using assms(1) by (intro safe_step) (auto intro!: safe_step assms(2) dest: kept_agent)

lemma safe_start_new [safe_step]:
  assumes "r_argv request \<noteq> []" "agent_wf a" "\<And>a'. agent_wf a' \<Longrightarrow> Q a'"
  shows "safe (start_new g a request) Q"
  unfolding start_new_def Let_def using assms(1,2)
  by (intro safe_step) (auto intro!: safe_step assms(3))

lemma safe_start_command [safe_step]:
  assumes "r_argv request \<noteq> []" "agent_wf a" "\<And>a'. agent_wf a' \<Longrightarrow> Q a'"
  shows "safe (start_command g a request) Q"
  unfolding start_command_def using assms(1,2)
  by (intro safe_step safe_start_transient_exec) (auto intro!: safe_step assms(3) closed_session_ok)

lemma safe_handle_start [safe_step]:
  assumes "request_ready request" "r_kind request = REQUEST_START" "agent_wf a" "\<And>a'. agent_wf a' \<Longrightarrow> Q a'"
  shows "safe (handle_start g a request) Q"
proof -
  have "r_argv request \<noteq> []" using assms(1,2) by (simp add: request_ready_def)
  then show ?thesis
    unfolding handle_start_def Let_def using assms(1,3)
    by (intro safe_step safe_with_generation) (auto intro!: safe_step assms(4))
qed

lemma safe_handle_attach [safe_step]:
  assumes "request_ready request" "agent_wf a" "\<And>a'. agent_wf a' \<Longrightarrow> Q a'"
  shows "safe (handle_attach a request) Q"
proof -
  have "safe (attach_session a' request) Q" if "agent_wf a'" for a'
    unfolding attach_session_def Let_def using that by (intro safe_step assms(3)) (auto intro!: safe_step assms(3))
  then show ?thesis
    unfolding handle_attach_def using assms(1,2)
    by (intro safe_step safe_with_generation assms(3)) auto
qed

lemma safe_handle_request [safe_step]:
  assumes "ops_safe (gu_ops g)" "request_ready request" "agent_wf a" "\<And>a'. agent_wf a' \<Longrightarrow> Q a'"
  shows "safe (handle_request g a request) Q"
proof -
  have "safe (iob (send_retained_output (a_client a) (a_detached a)) (\<lambda>(_, c, d). hang_up (a\<lparr>a_client := c, a_detached := d\<rparr>))) Q"
    unfolding hang_up_def using assms(3) by (intro safe_step) (auto intro!: safe_step assms(4))
  with assms(1-3) show ?thesis
    unfolding handle_request_def
    by (cases "r_kind request") (auto intro!: safe_step assms(4))
qed

lemma safe_take_client [safe_step]:
  "agent_wf a \<Longrightarrow> (\<And>a'. agent_wf a' \<Longrightarrow> Q a') \<Longrightarrow> safe (take_client a conn request) Q"
  unfolding take_client_def Let_def by (intro safe_step) simp

lemma safe_serve_connection:
  assumes "ops_safe (gu_ops g)" "agent_wf a" "\<And>a'. agent_wf a' \<Longrightarrow> Q a'"
  shows "safe (serve_connection g a conn) Q"
proof -
  have parsed: "safe (case parse_request (line @ [0]) (length line) of UB \<Rightarrow> undef | Bad \<Rightarrow> reject a conn
      | Ok request \<Rightarrow> iob (take_client a conn request) (\<lambda>a. handle_request g a request)) Q" for line
    using sat_not_UB [OF sat_parse_request, of line] accepted_ready [of line] assms(1,2)
    by (auto simp: reject_def intro!: safe_step assms(3) split: cres.split)
  show ?thesis
    unfolding serve_connection_def
    by (intro safe_step parsed) (auto simp: MAX_REQUEST_def intro!: safe_step parsed assms)
qed

lemma safe_accept_request [safe_step]:
  assumes "ops_safe (gu_ops g)" "agent_wf a" "\<And>a'. agent_wf a' \<Longrightarrow> Q a'"
  shows "safe (accept_request g a) Q"
  unfolding accept_request_def by (intro safe_step safe_serve_connection assms)

section \<open>A pass of the loop\<close>

text \<open>Operations on a session and its client that keep both well formed.\<close>

definition session_op :: "(session \<Rightarrow> client \<Rightarrow> (session \<times> client) io) \<Rightarrow> bool" where
  "session_op f \<longleftrightarrow> (\<forall>s c. session_wf s \<longrightarrow> session_quiet s \<longrightarrow> client_wf c \<longrightarrow>
     safe (f s c) (\<lambda>(s', c'). session_wf s' \<and> session_quiet s' \<and> client_wf c'))"

lemma session_ops:
  "session_op pump_client_v1" "session_op (\<lambda>s c. pump_session_output s c is_stdout revents)" "session_op maybe_send_memory_pressure"
  by (auto simp: session_op_def intro!: safe_step dest: kept_quiet)

lemma safe_with_session:
  assumes "session_op f" "agent_wf a" "\<And>a'. agent_wf a' \<Longrightarrow> Q a'"
  shows "safe (with_session a f) Q" "safe (with_op_session a f) Q"
proof -
  have f: "safe (f s c) (\<lambda>(s', c'). session_wf s' \<and> session_quiet s' \<and> client_wf c')"
    if "session_wf s" "session_quiet s" "client_wf c" for s c
    using assms(1) that by (auto simp: session_op_def)
  show "safe (with_session a f) Q" "safe (with_op_session a f) Q"
    unfolding with_session_def with_op_session_def using assms(2)
    by (auto intro!: safe_iob safe_mono [OF f] safe_step assms(3))
qed

lemma safe_client_event [safe_step]:
  assumes "agent_wf a" "\<And>a'. agent_wf a' \<Longrightarrow> Q a'"
  shows "safe (client_event a revents) Q"
  unfolding client_event_def using assms(1)
  by (intro safe_step safe_with_session session_ops) (auto intro!: safe_step assms(2) dest: kept_agent)

lemma safe_detached_steps [safe_step]:
  assumes "agent_wf a" "\<And>d. detached_wf d \<Longrightarrow> Q (a\<lparr>a_detached := d\<rparr>)"
  shows "safe (reap a) Q" "safe (drain_retained a) Q"
  unfolding reap_def drain_retained_def using assms(1) by (intro safe_step; simp add: assms(2))+

lemma safe_handle_event [safe_step]:
  assumes "ops_safe (gu_ops g)" "agent_wf a" "\<And>a'. agent_wf a' \<Longrightarrow> Q a'"
  shows "safe (handle_event g a fd role revents) Q"
  unfolding handle_event_def using assms(2)
  by (intro safe_step safe_with_session session_ops assms) (auto intro!: safe_step assms dest: kept_agent)

lemma safe_handle_events:
  assumes "ops_safe (gu_ops g)" "agent_wf a" "\<And>a'. agent_wf a' \<Longrightarrow> Q a'"
  shows "safe (handle_events g a es) Q"
  using assms(2)
proof (induction es arbitrary: a)
  case (Cons e es)
  obtain fd events role revents where e: "e = ((fd, events, role), revents)" by (metis surj_pair)
  show ?case
    unfolding e handle_events.simps by (intro safe_iob safe_handle_event assms(1) Cons.prems Cons.IH)
qed (auto intro!: safe_step assms)

lemma safe_session_exit:
  assumes "session_wf s" "session_quiet s" "client_wf c"
    "\<And>s' c'. session_wf s' \<Longrightarrow> session_quiet s' \<Longrightarrow> client_wf c' \<Longrightarrow> session_finished s' \<longrightarrow> c_fd c' < 0 \<Longrightarrow> Q (s', c')"
  shows "safe (session_exit s c) Q"
  unfolding session_exit_def maybe_send_session_exit_def using assms(1-3)
  by (intro safe_step) (auto intro!: safe_step assms(4) simp: session_finished_def c_fd_fresh_client)

lemma safe_step_op:
  assumes "ops_safe (gu_ops g)" "agent_wf a" "\<And>a'. agent_wf a' \<Longrightarrow> op_kind (a_op a') = op_kind (a_op a) \<Longrightarrow> Q a'"
  shows "safe (step_op g a) Q"
  unfolding step_op_def with_op_session_def using assms(2)
  by (intro safe_step safe_session_exit safe_step_build_exec assms) (auto intro!: safe_step assms)

lemma safe_finish_op:
  assumes "ops_safe (gu_ops g)" "agent_wf a" "\<And>a'. agent_wf a' \<Longrightarrow> op_kind (a_op a') = EXEC_OP_NONE \<Longrightarrow> c_fd (a_client a') < 0 \<Longrightarrow> Q a'"
  shows "safe (finish_op g a) Q"
  unfolding finish_op_def using assms(2)
  by (intro safe_step safe_finish_transient_exec safe_finish_build_exec assms) (auto intro!: safe_step assms)

text \<open>
  What holds between two passes: a client that is connected while no exec operation runs is not waiting for a finished
  session, and an exec operation that is kept has a client and a command that has not finished.
\<close>

definition agent_inv :: "agent \<Rightarrow> bool" where
  "agent_inv a \<longleftrightarrow> agent_wf a \<and>
     (if op_kind (a_op a) = EXEC_OP_NONE then \<not> session_finished (a_session a) \<or> c_fd (a_client a) < 0
      else c_fd (a_client a) \<ge> 0 \<and> \<not> session_finished (op_session (a_op a)))"

lemma safe_after_events:
  assumes "ops_safe (gu_ops g)" "agent_wf a"
  shows "safe (after_events g a) agent_inv"
proof -
  have op: "safe (iob (step_op g a) (\<lambda>a. if c_fd (a_client a) \<ge> 0 \<and> \<not> session_finished (op_session (a_op a)) then ret a else finish_op g a)) agent_inv"
    if "agent_wf a" "op_kind (a_op a) \<noteq> EXEC_OP_NONE" for a
    using that by (intro safe_iob safe_step_op safe_finish_op assms(1) safe_step) (auto simp: agent_inv_def)
  have exit: "safe (with_session a session_exit)
      (\<lambda>a'. agent_wf a' \<and> (op_kind (a_op a') = EXEC_OP_NONE \<longrightarrow> session_finished (a_session a') \<longrightarrow> c_fd (a_client a') < 0))"
    if "agent_wf a" for a
    using that unfolding with_session_def by (intro safe_step safe_session_exit) (auto intro!: safe_step safe_session_exit)
  have rest: "safe (iob (with_session a session_exit) (\<lambda>a.
      if op_kind (a_op a) = EXEC_OP_NONE then ret a
      else iob (step_op g a) (\<lambda>a.
        if c_fd (a_client a) \<ge> 0 \<and> \<not> session_finished (op_session (a_op a)) then ret a else finish_op g a))) agent_inv"
    if "agent_wf a" for a
    by (rule safe_iob, rule safe_mono [OF exit [OF that]], rule safe_if) (auto intro: op safe_basic(1) simp: agent_inv_def)
  show ?thesis
    unfolding after_events_def using assms(2)
    by (intro safe_step rest) (auto dest: kept_agent kept_trans)
qed

lemma poll_set_fits: "\<not> 13 < length (poll_set a fd)"
  by (simp add: poll_set_def Let_def add_session_output_fds_def)

lemma safe_before_poll:
  assumes "agent_wf a" "\<And>d m. detached_wf d \<Longrightarrow> Q (a\<lparr>a_detached := d, a_generation := m\<rparr>)"
    "\<And>d. detached_wf d \<Longrightarrow> Q (a\<lparr>a_detached := d\<rparr>)"
  shows "safe (before_poll a) Q"
  unfolding before_poll_def using assms(1) by (intro safe_step) (auto intro!: safe_step assms(2,3))

lemma agent_inv_detached:
  assumes "agent_inv a" "detached_wf d"
  shows "agent_inv (a\<lparr>a_detached := d\<rparr>)" "agent_inv (a\<lparr>a_detached := d, a_generation := m\<rparr>)"
  using assms by (auto simp: agent_inv_def split: if_splits)

lemma safe_poll_agent:
  assumes "ops_safe (gu_ops g)" "agent_inv a"
  shows "safe (poll_agent g a) agent_inv"
proof -
  have wf: "agent_wf a" if "agent_inv a" for a using that by (simp add: agent_inv_def)
  have handled: "safe (case r of Inl e \<Rightarrow> if e \<noteq> EINTR then ret a else after_events g a
      | Inr rs \<Rightarrow> iob (handle_events g a (zip fds rs)) (after_events g)) agent_inv" if "agent_inv a" for a r fds
    using wf [OF that] that
    by (auto intro!: safe_step safe_after_events safe_handle_events assms(1) split: sum.split)
  have polled: "safe (iob (gets w_sigchld_pipe) (\<lambda>pipe.
      iob (sys_poll (map (\<lambda>(fd, events, role). (fd, events)) (poll_set a (fst pipe))) 100) (\<lambda>r.
        case r of Inl e \<Rightarrow> if e \<noteq> EINTR then ret a else after_events g a
        | Inr rs \<Rightarrow> iob (handle_events g a (zip (poll_set a (fst pipe)) rs)) (after_events g)))) agent_inv" if "agent_inv a" for a
    by (intro safe_any handled that) (intro safe_step TrueI)+
  show ?thesis
    unfolding poll_agent_def Let_def
    by (simp only: poll_set_fits if_False, rule safe_iob)
       (intro safe_before_poll wf assms(2) polled agent_inv_detached)
qed

section \<open>Start\<close>

lemma init_agent_inv: "agent_inv init_agent"
  by (simp add: agent_inv_def agent_wf_def init_agent_def zero_op_def op_wf_def session_wf_def session_quiet_def zero_session_def
      empty_replay detached_wf_def session_finished_def)

lemma safe_setup_part [safe_step]: "safe m (\<lambda>_. True) \<Longrightarrow> (\<And>r. Q r) \<Longrightarrow> safe (setup_part cap m) Q"
  unfolding setup_part_def by (erule safe_any) (intro safe_step)

lemma safe_setup_sigchld_wakeup [safe_step]: "(\<And>ok. Q ok) \<Longrightarrow> safe setup_sigchld_wakeup Q"
  unfolding setup_sigchld_wakeup_def by (intro safe_step)

lemma safe_setup_inputs [safe_step]: "(\<And>r. Q r) \<Longrightarrow> safe (setup_inputs inputs has_context) Q"
  unfolding setup_inputs_def by (intro safe_step TrueI)

lemma agent_inv_cong:
  assumes "agent_inv a" "a_session b = a_session a" "a_client b = a_client a" "a_no_client b = a_no_client a"
    "a_op b = a_op a" "a_detached b = a_detached a"
  shows "agent_inv b"
  using assms unfolding agent_inv_def agent_wf_def by (auto split: if_splits)

lemma safe_boot_parts:
  assumes "Q None" "\<And>a. agent_inv a \<Longrightarrow> Q (Some a)"
  shows "safe (boot_parts cmdline listener) Q"
proof -
  have start: "agent_inv (init_agent\<lparr>a_listener := listener, a_use_rootfs := b1, a_rootfs_writable := b2,
        a_rootfs_growth_session := b3, a_rootfs_ready := b4, a_rootfs_error := e1,
        a_build_context_requested := b5, a_build_context_ready := b6, a_build_context_error := e2,
        a_build_input_count := n, a_build_inputs_ready := b7, a_build_inputs_error := e3,
        a_network_requested := b8, a_network_ready := b9, a_network_error := e4,
        a_generation_root := r, a_resolv := br\<rparr>)" for b1 b2 b3 b4 e1 b5 b6 e2 n b7 e3 b8 b9 e4 r br
    by (rule agent_inv_cong [OF init_agent_inv]) simp_all
  have last: "safe (iob setup_sigchld_wakeup (\<lambda>ok.
      if \<not> ok then iob stale_errno (\<lambda>e. iob (dprintf 2 (lit ''sigchld wakeup setup failed: errno='' @ dec e @ [10])) (\<lambda>_. ret None))
      else ret (Some a))) Q" if "agent_inv a" for a
    by (intro safe_step assms that)
  have rootfs: "safe (if u then setup_part 128 (setup_rootfs b1 b2 b3 b4 128) else ret (True, [])) (\<lambda>_. True)" for u b1 b2 b3 b4
    by (intro safe_step TrueI)
  have ctx: "safe (if u then setup_part 160 (setup_build_context 160) else ret (True, [])) (\<lambda>_. True)" for u
    by (intro safe_step TrueI)
  have inputs: "safe (setup_inputs n u) (\<lambda>_. True)" for n u
    by (intro safe_step TrueI)
  have net: "safe (if u then iob (setup_network b1 b2 160 zero_resolv) (\<lambda>(r, br).
             iob (setup_part 160 (ret r)) (\<lambda>(ok, msg). ret (ok, msg, br))) else ret (True, [], zero_resolv)) (\<lambda>_. True)" for u b1 b2
    by (intro safe_step TrueI)
  show ?thesis
    unfolding boot_parts_def Let_def
    by (rule safe_any [OF rootfs], split prod.split, intro allI impI,
        rule safe_any [OF ctx], split prod.split, intro allI impI,
        rule safe_any [OF inputs], split prod.split, intro allI impI, split prod.split, intro allI impI,
        rule safe_any [OF net], split prod.split, intro allI impI, split prod.split, intro allI impI,
        rule last [OF start])
qed

lemma safe_agent_main: "safe agent_main (\<lambda>r. case r of None \<Rightarrow> True | Some a \<Rightarrow> agent_inv a)"
proof -
  have fd: "safe ensure_fd_budget Q" if "\<And>ok. Q ok" for Q
    unfolding ensure_fd_budget_def getrlimit_nofile_def by (intro safe_step that)
  have listener: "safe (boot_listener cmdline) Q" if "\<And>l. Q l" for cmdline Q
    unfolding boot_listener_def listen_vsock_def by (intro safe_step that)
  have parts: "safe (boot_parts cmdline l) (\<lambda>r. case r of None \<Rightarrow> True | Some a \<Rightarrow> agent_inv a)" for cmdline l
    by (rule safe_boot_parts) simp_all
  show ?thesis
    unfolding agent_main_def by (intro safe_step fd listener parts) simp_all
qed

end
