(* ===== verification/Agent_Spec.thy ===== *)
theory Agent_Spec
  imports Agent_Safe
begin

text \<open>
  What the event loop guarantees: its invariant in every reachable state, that no pass does something undefined, and
  that the exit of the session's command is answered in the pass that sees it.
\<close>

section \<open>A concrete run\<close>

text \<open>Build copy operations that refuse everything, the answers of the kernel to a start with an empty
  command line, and the agent that results.\<close>

definition refusing_ops :: build_ops where
  "refusing_ops = \<lparr>bo_ensure_directory = \<lambda>_ _. ret (126, ENOENT), bo_cache_target_prepare = \<lambda>_ _. ret (False, - 1, (0, 0), []),
     bo_cache_target_cleanup = \<lambda>_ _ _ _. ret True, bo_bind_source_open = \<lambda>_ _. ret (- 1),
     bo_bind_target_prepare = \<lambda>_ _. ret (- 1, - 1, False, (0, 0), []), bo_bind_target_cleanup = \<lambda>_ _ _ _ _. ret True,
     bo_copy_apply = \<lambda>_ _ _. ret (126, [])\<rparr>"

definition small_guest :: guest where
  "small_guest = \<lparr>gu_machine = AARCH64, gu_cap_last = 40, gu_ops = refusing_ops\<rparr>"

definition boot_answers :: "answer list" where
  "boot_answers = [Time 5 0, Num 0, Num 0, Num 3, Num 0, Num 0, Err ENOENT, Num 0, Num 0, Num 0, Num 0, Num 0, Num 0, Err ENOENT,
     Num 5, Num 0, Num 0, Num 0, Num 0, Time 6 0, Fds 6 7, Num 0]"

definition small_agent :: agent where
  "small_agent = init_agent\<lparr>a_listener := 5, a_rootfs_ready := True, a_build_context_ready := True, a_build_inputs_ready := True,
     a_network_ready := True\<rparr>"

lemma refusing_ops_safe: "ops_safe (gu_ops small_guest)"
  by (auto simp: ops_safe_def small_guest_def refusing_ops_def intro: safe_step)

lemmas run_io = iob_def ret_def gets_def modify_def sys_def sys_num_def sys_close_def sys_clock_def sys_pipe2_def sys_poll_def
  sys_wait_def waited_def

lemma small_boot:
  "\<exists>w. agent_main (idle_world boot_answers) = (Ret (Some small_agent), w)"
  by (simp add: run_io idle_world_def boot_answers_def small_agent_def agent_main_def now_ms_def mount_proc_def mount_sysfs_def
      mount_cgroup2_if_dir_def prepare_dev_def mkdir_def mount_or_warn_def mount_def path_is_dir_def read_cmdline_def
      cmdline_has_flag_in_def boot_listener_def listen_vsock_def set_nonblock_def boot_parts_def setup_inputs_def
      setup_sigchld_wakeup_def Let_def lit_def resolve_build_input_count_def generation_root_path_def init_agent_def)

lemma small_reach: "\<exists>w. reach small_guest small_agent w"
  using small_boot by (blast intro: reach.booted)

definition running_session :: session where
  "running_session = closed_session\<lparr>s_started := True, s_pid := 7\<rparr>"

definition no_usage :: rusage where
  "no_usage = \<lparr>ru_utime_sec = 0, ru_utime_usec = 0, ru_stime_sec = 0, ru_stime_usec = 0\<rparr>"

section \<open>Reachable states\<close>

lemma safe_Ret: "safe m Q \<Longrightarrow> m w = (Ret x, w') \<Longrightarrow> Q x"
  by (drule safeD [of _ _ w]) simp

lemma safe_not_Undef: "safe m Q \<Longrightarrow> fst (m w) \<noteq> Undef"
  by (drule safeD [of _ _ w], cases "m w") auto

lemma reach_inv:
  assumes "ops_safe (gu_ops g)"
  shows "reach g a w \<Longrightarrow> agent_inv a"
proof (induction rule: reach.induct)
  case (booted w a w')
  from safe_Ret [OF safe_agent_main this] show ?case by simp
next
  case (passed a w a' w')
  from safe_Ret [OF safe_poll_agent [OF assms passed.IH] passed.hyps(2)] show ?case .
qed

text \<open>C1. In every state the event loop reaches, whatever the kernel and the clients do, the session, the clients, the
  exec operation and the detached commands are well formed.  An exec operation that is running has a connected client
  and a command that has not finished; when none is running, no client is left waiting for a session that has finished.\<close>

theorem agent_invariant:
  assumes "ops_safe (gu_ops g)" "reach g a w"
  shows "session_wf (a_session a) \<and> client_wf (a_client a) \<and> session_wf (op_session (a_op a)) \<and> detached_wf (a_detached a) \<and>
    (if op_kind (a_op a) = EXEC_OP_NONE then \<not> (session_finished (a_session a) \<and> 0 \<le> c_fd (a_client a))
     else 0 \<le> c_fd (a_client a) \<and> \<not> session_finished (op_session (a_op a)))"
proof -
  from reach_inv [OF assms] have inv: "agent_inv a" .
  then have "agent_wf a" by (simp add: agent_inv_def)
  with inv show ?thesis by (auto simp: agent_inv_def split: if_splits)
qed

theorem agent_invariant_witness:
  "\<exists>w. reach small_guest small_agent w \<and> session_wf (a_session small_agent) \<and>
     \<not> (session_finished (a_session small_agent) \<and> 0 \<le> c_fd (a_client small_agent))"
proof -
  from small_reach obtain w where w: "reach small_guest small_agent w" ..
  from agent_invariant [OF refusing_ops_safe w] w show ?thesis
    by (auto simp: small_agent_def init_agent_def zero_op_def)
qed



section \<open>The exit of the command\<close>

lemma wait_child_interrupted:
  "w_answers w = replicate n (Err EINTR) @ Status pid st ru # as \<Longrightarrow> \<exists>w'. wait_child pid w = (Ret (Reaped st ru), w')"
proof (induction n arbitrary: w)
  case 0
  then show ?case
    by (subst wait_child.simps) (simp add: sys_wait_def sys_def iob_def ret_def waited_def)
next
  case (Suc n)
  let ?w = "w\<lparr>w_answers := replicate n (Err EINTR) @ Status pid st ru # as, w_trace := w_trace w @ [(Wait pid True, Err EINTR)]\<rparr>"
  from Suc.prems have "wait_child pid w = wait_child pid ?w"
    by (subst wait_child.simps) (simp add: sys_wait_def sys_def iob_def ret_def)
  with Suc.IH [of ?w] show ?case by simp
qed

text \<open>What is left of a pass for a session once its command was reaped.\<close>

definition after_reap :: "session \<Rightarrow> client \<Rightarrow> wait_result \<Rightarrow> (session \<times> client) io" where
  "after_reap s c wr =
     iob set_command_exit (\<lambda>_.
     iob (record_usage wr) (\<lambda>_.
     iob (close_session_stdin (s\<lparr>s_exit_code := exit_status wr, s_exited := True\<rparr>)) (\<lambda>s.
     iob (close_output s c) (\<lambda>(s, c).
     iob (if \<not> s_build_run_isolation s then close_session_cgroup s else ret s) (\<lambda>s.
     iob (maybe_send_session_exit s c) (\<lambda>c. ret (s, c)))))))"

lemma session_exit_reaped:
  "s_started s \<Longrightarrow> \<not> s_exited s \<Longrightarrow> wait_child (s_pid s) w = (Ret (Reaped st ru), w1) \<Longrightarrow>
   session_exit s c w = after_reap s c (Reaped st ru) w1"
  by (simp add: session_exit_def poll_session_exit_def after_reap_def iob_assoc case_prod_unfold)

lemma safe_after_reap:
  assumes "session_wf s" "client_wf c" "s_started s"
  shows "safe (after_reap s c wr) (\<lambda>(s', c'). session_finished s' \<and> s_exit_code s' = exit_status wr \<and> c_fd c' < 0)"
proof -
  have wf: "session_wf (s\<lparr>s_exit_code := exit_status wr, s_exited := True\<rparr>)"
    using assms(1) by (simp add: session_wf_def)
  have last: "safe (iob (maybe_send_session_exit t d) (\<lambda>c. ret (t, c))) (\<lambda>(s', c'). session_finished s' \<and> s_exit_code s' = code \<and> c_fd c' < 0)"
    if "session_finished t" "s_exit_code t = code" for t d code
    using that unfolding maybe_send_session_exit_def by (auto simp: session_finished_def c_fd_fresh_client intro!: safe_step)
  show ?thesis
    unfolding after_reap_def
    by (intro safe_constr safe_step safe_close_output wf last)
       (use assms(2,3) in \<open>auto simp: session_finished_def kept_def intro!: safe_step last\<close>)
qed

lemma running_wait:
  "wait_child 7 (idle_world (Err EINTR # Status 7 st ru # as)) =
   (Ret (Reaped st ru), (idle_world as)\<lparr>w_trace := [(Wait 7 True, Err EINTR), (Wait 7 True, Status 7 st ru)]\<rparr>)"
  by (subst wait_child.simps, simp add: run_io idle_world_def, subst wait_child.simps, simp add: run_io)

lemma running_exit:
  "\<exists>s' c' w'. session_exit running_session (fresh_client (- 1))
     (idle_world (replicate 1 (Err EINTR) @ Status (s_pid running_session) (Exited 3) no_usage # [Time 9 0])) = (Ret (s', c'), w')"
proof -
  have s: "s_started running_session" "\<not> s_exited running_session" "s_pid running_session = 7"
    by (simp_all add: running_session_def closed_session_def zero_session_def)
  have "idle_world (replicate 1 (Err EINTR) @ Status 7 (Exited 3) no_usage # [Time 9 0]) =
      idle_world (Err EINTR # Status 7 (Exited 3) no_usage # [Time 9 0])" by simp
  then show ?thesis
    unfolding s(3)
    by (simp only: session_exit_reaped [OF s(1,2), unfolded s(3), OF running_wait])
       (simp add: after_reap_def set_command_exit_def now_ms_def record_usage_def close_session_stdin_def close_output_def
        pump_session_stream_def stream_open_def close_session_cgroup_def maybe_send_session_exit_def run_io idle_world_def fresh_client_def
        running_session_def closed_session_def zero_session_def)
qed

text \<open>C35. When the kernel reports that the command of the session has ended, after any number of interrupted calls, the pass
  that asked marks the session as exited with the status of the command, has closed its output, and leaves no client
  attached: the client has had its exit frame or was already gone.\<close>

theorem session_exit_answered:
  assumes "session_wf s" "client_wf c" "s_started s" "\<not> s_exited s"
    "w_answers w = replicate n (Err EINTR) @ Status (s_pid s) st ru # as" "session_exit s c w = (Ret (s', c'), w')"
  shows "session_finished s' \<and> s_exit_code s' = exit_status (Reaped st ru) \<and> c_fd c' < 0"
proof -
  from wait_child_interrupted [OF assms(5)] obtain w1 where w1: "wait_child (s_pid s) w = (Ret (Reaped st ru), w1)" ..
  from assms(6) have "after_reap s c (Reaped st ru) w1 = (Ret (s', c'), w')"
    by (simp only: session_exit_reaped [OF assms(3,4) w1])
  from safe_Ret [OF safe_after_reap [OF assms(1-3)] this] show ?thesis by simp
qed

theorem session_exit_answered_witness:
  "\<exists>s' c' w'. session_exit running_session (fresh_client (- 1))
     (idle_world (replicate 1 (Err EINTR) @ Status (s_pid running_session) (Exited 3) no_usage # [Time 9 0])) = (Ret (s', c'), w') \<and>
     session_finished s' \<and> s_exit_code s' = 3"
proof -
  have s: "s_started running_session" "\<not> s_exited running_session"
    by (simp_all add: running_session_def closed_session_def zero_session_def)
  have wf: "session_wf running_session"
    using closed_session_ok(1) by (simp add: running_session_def session_wf_def)
  from running_exit obtain s' c' w' where run: "session_exit running_session (fresh_client (- 1))
     (idle_world (replicate 1 (Err EINTR) @ Status (s_pid running_session) (Exited 3) no_usage # [Time 9 0])) = (Ret (s', c'), w')" by blast
  have "session_finished s' \<and> s_exit_code s' = exit_status (Reaped (Exited 3) no_usage) \<and> c_fd c' < 0"
    by (rule session_exit_answered [OF wf fresh_client_wf s _ run, of 1 _ _ "[Time 9 0]"]) (simp add: idle_world_def)
  with run show ?thesis by (auto simp: exit_status_def)
qed

end
